(* ===== verification/Prelude.thy ===== *)
theory Prelude
  imports "HOL-Library.State_Monad" "HOL-Library.AList" "HOL-Library.Multiset"
begin

text \<open>
  What the component theories share: the names of the model's basic types, the theorem
  collections, Go's built-in map as an association list, and a weakest-precondition
  calculus for the state monad in which the service's handlers are written.
\<close>

section \<open>Basic types\<close>

text \<open>
  A Go \<^verbatim>\<open>string\<close> or \<^verbatim>\<open>[]byte\<close> is a list of bytes, HOL's \<^typ>\<open>string\<close>.
  A \<^verbatim>\<open>time.Time\<close> is the number of nanoseconds since the Unix epoch, a
  \<^verbatim>\<open>time.Duration\<close> a number of nanoseconds.
\<close>

type_synonym time = int
type_synonym duration = int

abbreviation second :: duration where "second \<equiv> 1000000000"
abbreviation minute :: duration where "minute \<equiv> 60 * second"

text \<open>\<^verbatim>\<open>t.After(u)\<close>, \<^verbatim>\<open>t.Before(u)\<close> and \<^verbatim>\<open>t.Unix()\<close> of package \<^verbatim>\<open>time\<close>.\<close>

definition After :: "time \<Rightarrow> time \<Rightarrow> bool" where
  "After t u \<longleftrightarrow> u < t"

definition Before :: "time \<Rightarrow> time \<Rightarrow> bool" where
  "Before t u \<longleftrightarrow> t < u"

text \<open>The zero \<^verbatim>\<open>time.Time\<close> is the start of year 1.\<close>

definition time_zero :: time where
  "time_zero = - 62135596800 * second"

definition Unix :: "time \<Rightarrow> int" where
  "Unix t = t div second"

named_theorems wp_simps \<open>structural rules of the weakest-precondition calculus\<close>
named_theorems gomap_simps \<open>lookup after an update of a Go map\<close>
named_theorems go_strings \<open>evaluation rules for the modelled string functions\<close>

section \<open>Go maps\<close>

text \<open>
  A Go map is an association list with distinct keys. Assignment is
  \<^const>\<open>AList.update\<close>, \<^verbatim>\<open>delete\<close> is \<^const>\<open>AList.delete\<close>, an index expression is
  \<^const>\<open>map_of\<close>. The order of a \<^verbatim>\<open>range\<close> loop is not fixed by the language: loops over a
  map take an arbitrary permutation of its entries.
\<close>

type_synonym 'v gomap = "(string \<times> 'v) list"

definition gomap_ok :: "'v gomap \<Rightarrow> bool" where
  "gomap_ok m \<longleftrightarrow> distinct (map fst m)"

lemma gomap_ok_Nil [simp]: "gomap_ok []"
  by (simp add: gomap_ok_def)

lemma gomap_ok_update [simp]: "gomap_ok m \<Longrightarrow> gomap_ok (AList.update k v m)"
  by (simp add: gomap_ok_def distinct_update)

lemma gomap_ok_delete [simp]: "gomap_ok m \<Longrightarrow> gomap_ok (AList.delete k m)"
  by (simp add: gomap_ok_def distinct_delete)

declare update_conv' [gomap_simps] delete_conv' [gomap_simps]

lemma gomap_entry: "gomap_ok m \<Longrightarrow> (k, v) \<in> set m \<longleftrightarrow> map_of m k = Some v"
  by (simp add: gomap_ok_def)

lemma gomap_ok_perm: "mset xs = mset m \<Longrightarrow> gomap_ok m \<Longrightarrow> gomap_ok xs"
  unfolding gomap_ok_def by (metis mset_eq_imp_distinct_iff mset_map)

section \<open>Weakest preconditions for the state monad\<close>

text \<open>
  \<open>wp m Q w\<close>: running \<open>m\<close> from \<open>w\<close> ends in a result and a state that satisfy \<open>Q\<close>.
  The monad is deterministic and total, so this is total correctness.
\<close>

abbreviation ret :: "'a \<Rightarrow> ('w, 'a) state" where "ret \<equiv> State_Monad.return"

definition wp :: "('w, 'a) state \<Rightarrow> ('a \<Rightarrow> 'w \<Rightarrow> bool) \<Rightarrow> 'w \<Rightarrow> bool" where
  "wp m Q w = (case run_state m w of (r, w') \<Rightarrow> Q r w')"

lemma wp_return [wp_simps]: "wp (ret x) Q w = Q x w"
  by (simp add: wp_def)

lemma wp_bind [wp_simps]: "wp (State_Monad.bind m f) Q w = wp m (\<lambda>x. wp (f x) Q) w"
  by (simp add: wp_def split: prod.splits)

lemma wp_if [wp_simps]: "wp (if b then m else n) Q w = (if b then wp m Q w else wp n Q w)"
  by simp

lemma wp_case_option [wp_simps]:
  "wp (case x of None \<Rightarrow> m | Some y \<Rightarrow> f y) Q w = (case x of None \<Rightarrow> wp m Q w | Some y \<Rightarrow> wp (f y) Q w)"
  by (cases x) simp_all

lemma wp_case_sum [wp_simps]:
  "wp (case x of Inl e \<Rightarrow> f e | Inr a \<Rightarrow> g a) Q w
     = (case x of Inl e \<Rightarrow> wp (f e) Q w | Inr a \<Rightarrow> wp (g a) Q w)"
  by (cases x) simp_all

lemma wp_case_prod [wp_simps]:
  "wp (case x of (a, b) \<Rightarrow> f a b) Q w = (case x of (a, b) \<Rightarrow> wp (f a b) Q w)"
  by (cases x) simp_all

lemma wp_let [wp_simps]: "wp (let x = e in f x) Q w = (let x = e in wp (f x) Q w)"
  by (simp add: Let_def)

lemma wp_State [wp_simps]: "wp (State f) Q w = (case f w of (r, w') \<Rightarrow> Q r w')"
  by (simp add: wp_def)

text \<open>Reading a part of the state, and changing it.\<close>

definition gets :: "('w \<Rightarrow> 'a) \<Rightarrow> ('w, 'a) state" where
  "gets f = State (\<lambda>w. (f w, w))"

definition modify :: "('w \<Rightarrow> 'w) \<Rightarrow> ('w, unit) state" where
  "modify f = State (\<lambda>w. ((), f w))"

lemma wp_gets [wp_simps]: "wp (gets f) Q w = Q (f w) w"
  by (simp add: gets_def wp_State)

lemma wp_modify [wp_simps]: "wp (modify f) Q w = Q () (f w)"
  by (simp add: modify_def wp_State)

lemma run_gets [simp]: "run_state (gets f) w = (f w, w)"
  by (simp add: gets_def)

lemma run_modify [simp]: "run_state (modify f) w = ((), f w)"
  by (simp add: modify_def)

lemma wp_run: "run_state m w = (r, w') \<Longrightarrow> wp m Q w = Q r w'"
  by (simp add: wp_def)

lemma wp_mono: "wp m P w \<Longrightarrow> (\<And>r w'. P r w' \<Longrightarrow> Q r w') \<Longrightarrow> wp m Q w"
  by (auto simp: wp_def split: prod.splits)

lemma wp_conj: "wp m P w \<Longrightarrow> wp m Q w \<Longrightarrow> wp m (\<lambda>r w'. P r w' \<and> Q r w') w"
  by (auto simp: wp_def split: prod.splits)

lemma wp_True [simp]: "wp m (\<lambda>_ _. True) w"
  by (simp add: wp_def split: prod.splits)

text \<open>A loop over a slice: \<^verbatim>\<open>for _, x := range xs { body }\<close>.\<close>

fun for_each :: "'a list \<Rightarrow> ('a \<Rightarrow> ('w, unit) state) \<Rightarrow> ('w, unit) state" where
  "for_each [] f = ret ()"
| "for_each (x # xs) f = do { _ \<leftarrow> f x; for_each xs f }"

lemma wp_for_each:
  assumes "I [] w"
    and "\<And>ys0 x w. I ys0 w \<Longrightarrow> x \<in> set xs \<Longrightarrow> wp (f x) (\<lambda>_. I (ys0 @ [x])) w"
  shows "wp (for_each xs f) (\<lambda>_. I xs) w"
proof -
  have "I ys0 w \<Longrightarrow> set ys \<subseteq> set xs \<Longrightarrow> wp (for_each ys f) (\<lambda>_. I (ys0 @ ys)) w" for ys0 ys w
  proof (induction ys arbitrary: ys0 w)
    case Nil
    then show ?case by (simp add: wp_simps)
  next
    case (Cons y ys)
    then have "wp (f y) (\<lambda>_. I (ys0 @ [y])) w"
      by (intro assms(2)) auto
    then have "wp (f y) (\<lambda>_ w'. wp (for_each ys f) (\<lambda>_. I ((ys0 @ [y]) @ ys)) w') w"
      by (rule wp_mono, intro Cons.IH) (use Cons.prems in auto)
    then show ?case by (simp add: wp_simps)
  qed
  from this[of "[]" w xs] assms(1) show ?thesis by simp
qed

end
