(* ===== verification/Encoding.thy ===== *)
theory Encoding
  imports Go_Strings
begin

text \<open>
  The encodings the service prints and parses: decimal numbers (\<^verbatim>\<open>%d\<close>, \<^verbatim>\<open>%06d\<close>),
  hexadecimal digests (\<^verbatim>\<open>hex.EncodeToString\<close>) and base64 (\<^verbatim>\<open>RawStdEncoding\<close> and
  \<^verbatim>\<open>URLEncoding\<close>), with their round trips, lengths and alphabets.
\<close>

section \<open>Decimal numbers\<close>

definition digit :: "nat \<Rightarrow> char" where
  "digit n = char_of (48 + n)"

definition is_digit :: "char \<Rightarrow> bool" where
  "is_digit c \<longleftrightarrow> 48 \<le> (of_char c :: nat) \<and> (of_char c :: nat) \<le> 57"

definition digit_val :: "char \<Rightarrow> nat" where
  "digit_val c = of_char c - 48"

fun itoa :: "nat \<Rightarrow> string" where
  "itoa n = (if n < 10 then [digit n] else itoa (n div 10) @ [digit (n mod 10)])"

declare itoa.simps [simp del]

definition dec_val :: "string \<Rightarrow> nat" where
  "dec_val s = foldl (\<lambda>n c. 10 * n + digit_val c) 0 s"

text \<open>\<^verbatim>\<open>%d\<close> on a signed number.\<close>

definition itoa_int :: "int \<Rightarrow> string" where
  "itoa_int i = (if i < 0 then CHR ''-'' # itoa (nat (- i)) else itoa (nat i))"

text \<open>\<^verbatim>\<open>%06d\<close> on a number that is not negative.\<close>

definition itoa06 :: "nat \<Rightarrow> string" where
  "itoa06 n = (let s = itoa n in replicate (6 - length s) (CHR ''0'') @ s)"

lemma digit_val_digit [simp]: "n < 10 \<Longrightarrow> digit_val (digit n) = n"
  by (simp add: digit_val_def digit_def)

lemma is_digit_digit [simp]: "n < 10 \<Longrightarrow> is_digit (digit n)"
  by (simp add: is_digit_def digit_def)

lemma dec_val_append [simp]: "dec_val (s @ [c]) = 10 * dec_val s + digit_val c"
  by (simp add: dec_val_def)

lemma dec_val_itoa [simp]: "dec_val (itoa n) = n"
proof (induction n rule: itoa.induct)
  case (1 n)
  show ?case
  proof (cases "n < 10")
    case True
    then show ?thesis by (subst itoa.simps) (simp add: dec_val_def)
  next
    case False
    with 1 show ?thesis by (subst itoa.simps) simp
  qed
qed

lemma itoa_digits: "list_all is_digit (itoa n)"
proof (induction n rule: itoa.induct)
  case (1 n)
  then show ?case by (subst itoa.simps) simp
qed

lemma itoa_nonempty [simp]: "itoa n \<noteq> []"
  by (subst itoa.simps) simp

lemma itoa_length: "n < 10 ^ k \<Longrightarrow> 0 < k \<Longrightarrow> length (itoa n) \<le> k"
proof (induction k arbitrary: n)
  case (Suc k)
  show ?case
  proof (cases "n < 10")
    case True
    then show ?thesis by (subst itoa.simps) simp
  next
    case False
    then have "k \<noteq> 0" using Suc.prems by (intro notI) simp
    moreover have "n div 10 < 10 ^ k" using Suc.prems by (simp add: less_mult_imp_div_less mult.commute)
    ultimately have "length (itoa (n div 10)) \<le> k" using Suc.IH by blast
    with False show ?thesis by (subst itoa.simps) simp
  qed
qed simp

lemma is_digit_zero [simp]: "is_digit (CHR ''0'')"
  by (simp add: is_digit_def)

lemma digit_val_zero [simp]: "digit_val (CHR ''0'') = 0"
  by (simp add: digit_val_def)

lemma dec_val_zeros [simp]: "dec_val (replicate k (CHR ''0'') @ s) = dec_val s"
proof -
  have "foldl (\<lambda>n c. 10 * n + digit_val c) 0 (replicate k (CHR ''0'')) = 0"
    by (induction k) simp_all
  then show ?thesis by (simp add: dec_val_def)
qed

lemma itoa06_length: "n < 1000000 \<Longrightarrow> length (itoa06 n) = 6"
  using itoa_length[of n 6] by (simp add: itoa06_def Let_def)

lemma itoa06_digits: "list_all is_digit (itoa06 n)"
  by (simp add: itoa06_def Let_def itoa_digits list_all_iff) (use itoa_digits in \<open>auto simp: list_all_iff\<close>)

lemma dec_val_itoa06: "dec_val (itoa06 n) = n"
  by (simp add: itoa06_def Let_def)

section \<open>Hexadecimal\<close>

definition hex_digit :: "nat \<Rightarrow> char" where
  "hex_digit n = (if n < 10 then char_of (48 + n) else char_of (87 + n))"

fun hex_encode :: "string \<Rightarrow> string" where
  "hex_encode [] = []"
| "hex_encode (c # cs) =
     hex_digit (of_char c div 16) # hex_digit (of_char c mod 16) # hex_encode cs"

lemma of_char_less: "(of_char c :: nat) < 256"
  using nat_of_char_less_256 by simp

lemma hex_encode_length [simp]: "length (hex_encode s) = 2 * length s"
  by (induction s) auto

lemma hex_digit_inj: "m < 16 \<Longrightarrow> n < 16 \<Longrightarrow> hex_digit m = hex_digit n \<Longrightarrow> m = n"
proof -
  assume less: "m < 16" "n < 16" and eq: "hex_digit m = hex_digit n"
  from eq have "(of_char (hex_digit m) :: nat) = of_char (hex_digit n)" by simp
  with less show "m = n" by (auto simp: hex_digit_def split: if_splits)
qed

lemma hex_encode_inj: "hex_encode s = hex_encode t \<Longrightarrow> s = t"
proof (induction s arbitrary: t)
  case Nil
  then show ?case by (cases t) auto
next
  case (Cons c cs)
  then obtain d ds where t: "t = d # ds" by (cases t) auto
  have "(of_char c :: nat) div 16 = of_char d div 16"
    using Cons.prems t of_char_less by (intro hex_digit_inj) (auto simp: less_mult_imp_div_less)
  moreover have "(of_char c :: nat) mod 16 = of_char d mod 16"
    using Cons.prems t by (intro hex_digit_inj) auto
  ultimately have "(of_char c :: nat) = of_char d"
    by (metis div_mult_mod_eq)
  with Cons t show ?case by simp
qed

section \<open>Base64\<close>

text \<open>
  The two alphabets differ in their last two characters only. \<open>b64_raw\<close> is the
  encoding without padding, \<open>b64_padded\<close> the one with \<^verbatim>\<open>=\<close>.
\<close>

definition b64_std :: "nat \<Rightarrow> char" where
  "b64_std n = char_of (if n < 26 then 65 + n else if n < 52 then 71 + n
     else if n < 62 then n - 4 else if n = 62 then 43 else 47)"

definition b64_url :: "nat \<Rightarrow> char" where
  "b64_url n = char_of (if n < 26 then 65 + n else if n < 52 then 71 + n
     else if n < 62 then n - 4 else if n = 62 then 45 else 95)"

definition b64_std_val :: "char \<Rightarrow> nat option" where
  "b64_std_val c = (let n = of_char c in
     if 65 \<le> n \<and> n \<le> 90 then Some (n - 65)
     else if 97 \<le> n \<and> n \<le> 122 then Some (n - 71)
     else if 48 \<le> n \<and> n \<le> 57 then Some (n + 4)
     else if n = 43 then Some 62 else if n = 47 then Some 63 else None)"

fun sextets :: "nat list \<Rightarrow> nat list" where
  "sextets [] = []"
| "sextets [a] = [a div 4, a mod 4 * 16]"
| "sextets [a, b] = [a div 4, a mod 4 * 16 + b div 16, b mod 16 * 4]"
| "sextets (a # b # c # r) =
     a div 4 # (a mod 4 * 16 + b div 16) # (b mod 16 * 4 + c div 64) # (c mod 64) # sextets r"

fun octets :: "nat list \<Rightarrow> nat list option" where
  "octets [] = Some []"
| "octets [x] = None"
| "octets [x, y] = Some [x * 4 + y div 16]"
| "octets [x, y, z] = Some [x * 4 + y div 16, y mod 16 * 16 + z div 4]"
| "octets (x # y # z # w # r) =
     map_option (\<lambda>bs. (x * 4 + y div 16) # (y mod 16 * 16 + z div 4) # (z mod 4 * 64 + w) # bs) (octets r)"

definition b64_raw :: "(nat \<Rightarrow> char) \<Rightarrow> string \<Rightarrow> string" where
  "b64_raw alpha s = map alpha (sextets (map of_char s))"

definition b64_padded :: "(nat \<Rightarrow> char) \<Rightarrow> string \<Rightarrow> string" where
  "b64_padded alpha s = b64_raw alpha s @ replicate ((3 - length s mod 3) mod 3) (CHR ''='')"

text \<open>\<^verbatim>\<open>base64.RawStdEncoding.DecodeString\<close>: line breaks are skipped, as the library does.\<close>

definition RawStd_DecodeString :: "string \<Rightarrow> string option" where
  "RawStd_DecodeString s =
     (case those (map b64_std_val (filter (\<lambda>c. c \<noteq> CHR 0x0A \<and> c \<noteq> CHR 0x0D) s)) of
        None \<Rightarrow> None
      | Some ds \<Rightarrow> map_option (map char_of) (octets ds))"

lemma sextets_less: "\<forall>b \<in> set bs. b < 256 \<Longrightarrow> d \<in> set (sextets bs) \<Longrightarrow> d < 64"
  by (induction bs rule: sextets.induct) (auto simp: less_mult_imp_div_less)

lemma octets_sextets: "\<forall>b \<in> set bs. b < 256 \<Longrightarrow> octets (sextets bs) = Some bs"
proof (induction bs rule: sextets.induct)
  case (4 a b c r)
  have "a div 4 * 4 + (a mod 4 * 16 + b div 16) div 16 = a"
    using 4 by auto
  moreover have "(a mod 4 * 16 + b div 16) mod 16 * 16 + (b mod 16 * 4 + c div 64) div 4 = b"
    using 4 by auto
  moreover have "(b mod 16 * 4 + c div 64) mod 4 * 64 + c mod 64 = c"
    using 4 by auto
  ultimately show ?case using 4 by simp
qed auto

lemma sextets_inj:
  "\<forall>b \<in> set bs. b < 256 \<Longrightarrow> \<forall>c \<in> set cs. c < 256 \<Longrightarrow> sextets bs = sextets cs \<Longrightarrow> bs = cs"
  by (metis octets_sextets option.inject)

lemma char_eq_nat: "c = d \<longleftrightarrow> (of_char c :: nat) = of_char d"
  by simp

lemma b64_std_val_std: "n < 64 \<Longrightarrow> b64_std_val (b64_std n) = Some n"
  by (auto simp: b64_std_val_def b64_std_def Let_def)

lemma of_char_b64_std: "n < 64 \<Longrightarrow> (of_char (b64_std n) :: nat) \<in> {43, 47} \<union> {48..57} \<union> {65..90} \<union> {97..122}"
  by (auto simp: b64_std_def)

lemma b64_std_special:
  assumes "n < 64"
  shows "b64_std n \<notin> {CHR ''$'', CHR 0x0A, CHR 0x0D, CHR '',''}"
proof
  assume "b64_std n \<in> {CHR ''$'', CHR 0x0A, CHR 0x0D, CHR '',''}"
  then have "(of_char (b64_std n) :: nat) \<in> {36, 10, 13, 44}" by auto
  with of_char_b64_std[OF assms] show False by auto
qed

lemma b64_url_inj:
  assumes "m < 64" "n < 64" "b64_url m = b64_url n"
  shows "m = n"
proof -
  from assms(3) have "(of_char (b64_url m) :: nat) = of_char (b64_url n)" by simp
  with assms(1,2) show ?thesis by (auto simp: b64_url_def split: if_splits)
qed

lemma bytes_less: "\<forall>b \<in> set (map of_char s). (b::nat) < 256"
  using of_char_less by auto

lemma those_map_val: "\<forall>d \<in> set ds. d < 64 \<Longrightarrow> those (map (\<lambda>d. b64_std_val (b64_std d)) ds) = Some ds"
  by (induction ds) (auto simp: b64_std_val_std)

lemma b64_raw_chars: "c \<in> set (b64_raw b64_std s) \<Longrightarrow> c \<notin> {CHR ''$'', CHR 0x0A, CHR 0x0D, CHR '',''}"
proof -
  assume "c \<in> set (b64_raw b64_std s)"
  then obtain d where "d \<in> set (sextets (map of_char s))" and c: "c = b64_std d"
    by (auto simp: b64_raw_def)
  then have "d < 64" using sextets_less[OF bytes_less] by blast
  from b64_std_special[OF this] show ?thesis using c by simp
qed

lemma RawStd_roundtrip: "RawStd_DecodeString (b64_raw b64_std s) = Some s"
proof -
  have "filter (\<lambda>c. c \<noteq> CHR 0x0A \<and> c \<noteq> CHR 0x0D) (b64_raw b64_std s) = b64_raw b64_std s"
    using b64_raw_chars by (auto simp: filter_id_conv)
  moreover have "those (map b64_std_val (b64_raw b64_std s)) = Some (sextets (map of_char s))"
    using those_map_val sextets_less[OF bytes_less] by (simp add: b64_raw_def comp_def)
  ultimately show ?thesis
    by (simp add: RawStd_DecodeString_def octets_sextets[OF bytes_less] comp_def)
qed

lemma sextets_length: "length (sextets bs) = (4 * length bs + 2) div 3"
  by (induction bs rule: sextets.induct) auto

lemma b64_padded_inj:
  assumes "length s = length t" and "b64_padded b64_url s = b64_padded b64_url t"
  shows "s = t"
proof -
  have "b64_raw b64_url s = b64_raw b64_url t"
    using assms by (simp add: b64_padded_def)
  moreover have "inj_on b64_url (set (sextets (map of_char s)) \<union> set (sextets (map of_char t)))"
    using sextets_less[OF bytes_less] by (auto intro!: inj_onI b64_url_inj)
  ultimately have "sextets (map of_char s) = (sextets (map of_char t) :: nat list)"
    by (simp add: b64_raw_def map_inj_on)
  then have "map of_char s = (map of_char t :: nat list)"
    using sextets_inj bytes_less by blast
  then have "map char_of (map of_char s :: nat list) = map char_of (map of_char t :: nat list)"
    by (rule arg_cong)
  then show ?thesis by (simp add: comp_def)
qed

lemma b64_padded_length: "length (b64_padded alpha s) = 4 * ((length s + 2) div 3)"
proof -
  have "(4 * n + 2) div 3 + (3 - n mod 3) mod 3 = 4 * ((n + 2) div 3)" for n :: nat
  proof -
    define q where "q = n div 3"
    have n: "n = 3 * q + n mod 3" by (simp add: q_def)
    have "n mod 3 = 0 \<or> n mod 3 = 1 \<or> n mod 3 = 2" by auto
    then consider "n mod 3 = 0" "n = 3 * q" | "n mod 3 = 1" "n = 3 * q + 1" | "n mod 3 = 2" "n = 3 * q + 2"
      using n by fastforce
    then show ?thesis
    proof cases
      case 1
      then have "(4 * n + 2) div 3 = 4 * q" "(n + 2) div 3 = q" by linarith+
      with 1 show ?thesis by simp
    next
      case 2
      then have "(4 * n + 2) div 3 = 4 * q + 2" "(n + 2) div 3 = q + 1" by linarith+
      with 2 show ?thesis by simp
    next
      case 3
      then have "(4 * n + 2) div 3 = 4 * q + 3" "(n + 2) div 3 = q + 1" by linarith+
      with 3 show ?thesis by simp
    qed
  qed
  then show ?thesis by (simp add: b64_padded_def b64_raw_def sextets_length)
qed

end
