(* ===== verification/Validate.thy ===== *)
theory Validate
  imports Encoding
begin

text \<open>
  Package \<^verbatim>\<open>internal/lib/validate\<close>: the email pattern, matched by derivatives and shown
  equivalent to a plain description of the accepted addresses, and the password policy,
  which counts bytes but looks at runes.
\<close>

section \<open>Regular expressions\<close>

text \<open>
  The fragment of \<^verbatim>\<open>regexp\<close> syntax that the pattern uses. \<open>matches\<close> decides a fully
  anchored expression (\<^verbatim>\<open>^...$\<close>) with Brzozowski derivatives; \<open>accepts\<close> is the language.
\<close>

datatype rexp =
    Zero
  | One
  | Cls "char \<Rightarrow> bool"
  | Alt rexp rexp
  | Seq rexp rexp
  | Star rexp

inductive accepts :: "rexp \<Rightarrow> string \<Rightarrow> bool" where
  acc_One: "accepts One []"
| acc_Cls: "P c \<Longrightarrow> accepts (Cls P) [c]"
| acc_Alt1: "accepts r s \<Longrightarrow> accepts (Alt r q) s"
| acc_Alt2: "accepts q s \<Longrightarrow> accepts (Alt r q) s"
| acc_Seq: "accepts r s \<Longrightarrow> accepts q t \<Longrightarrow> accepts (Seq r q) (s @ t)"
| acc_Star0: "accepts (Star r) []"
| acc_Star: "accepts r s \<Longrightarrow> accepts (Star r) t \<Longrightarrow> accepts (Star r) (s @ t)"

inductive_simps accepts_Zero [simp]: "accepts Zero s"
inductive_simps accepts_One [simp]: "accepts One s"
inductive_simps accepts_Cls [simp]: "accepts (Cls P) s"
inductive_simps accepts_Alt [simp]: "accepts (Alt r q) s"
inductive_simps accepts_Seq: "accepts (Seq r q) s"

fun nullable :: "rexp \<Rightarrow> bool" where
  "nullable Zero = False"
| "nullable One = True"
| "nullable (Cls P) = False"
| "nullable (Alt r q) = (nullable r \<or> nullable q)"
| "nullable (Seq r q) = (nullable r \<and> nullable q)"
| "nullable (Star r) = True"

fun deriv :: "char \<Rightarrow> rexp \<Rightarrow> rexp" where
  "deriv c Zero = Zero"
| "deriv c One = Zero"
| "deriv c (Cls P) = (if P c then One else Zero)"
| "deriv c (Alt r q) = Alt (deriv c r) (deriv c q)"
| "deriv c (Seq r q) =
     (if nullable r then Alt (Seq (deriv c r) q) (deriv c q) else Seq (deriv c r) q)"
| "deriv c (Star r) = Seq (deriv c r) (Star r)"

fun matches :: "rexp \<Rightarrow> string \<Rightarrow> bool" where
  "matches r [] = nullable r"
| "matches r (c # cs) = matches (deriv c r) cs"

lemma nullable_accepts: "nullable r \<longleftrightarrow> accepts r []"
proof (induction r)
  case (Star r)
  then show ?case by (auto intro: acc_Star0)
qed (auto simp: accepts_Seq)

lemma accepts_Star_Cons:
  "accepts (Star r) (c # s) \<longleftrightarrow> (\<exists>t u. s = t @ u \<and> accepts r (c # t) \<and> accepts (Star r) u)"
proof
  have "accepts q w \<Longrightarrow> q = Star r \<Longrightarrow> w = c # s \<Longrightarrow>
    \<exists>t u. s = t @ u \<and> accepts r (c # t) \<and> accepts (Star r) u" for q w
  proof (induction arbitrary: s rule: accepts.induct)
    case (acc_Star r' a b)
    then show ?case by (cases a) auto
  qed auto
  then show "accepts (Star r) (c # s) \<Longrightarrow>
    \<exists>t u. s = t @ u \<and> accepts r (c # t) \<and> accepts (Star r) u" by blast
next
  assume "\<exists>t u. s = t @ u \<and> accepts r (c # t) \<and> accepts (Star r) u"
  then show "accepts (Star r) (c # s)" using acc_Star[of r "c # _"] by auto
qed

lemma accepts_Seq_Cons:
  "accepts (Seq r q) (c # s) \<longleftrightarrow>
     (\<exists>t u. s = t @ u \<and> accepts r (c # t) \<and> accepts q u) \<or> (accepts r [] \<and> accepts q (c # s))"
  by (auto simp: accepts_Seq Cons_eq_append_conv)

lemma deriv_accepts: "accepts (deriv c r) s \<longleftrightarrow> accepts r (c # s)"
proof (induction r arbitrary: s)
  case (Seq r q)
  then show ?case
    by (auto simp: accepts_Seq_Cons nullable_accepts accepts_Seq[of "deriv c r" q])
next
  case (Star r)
  then show ?case
    by (auto simp: accepts_Star_Cons accepts_Seq[of "deriv c r" "Star r"])
qed auto

lemma matches_accepts: "matches r s \<longleftrightarrow> accepts r s"
  by (induction s arbitrary: r) (auto simp: nullable_accepts deriv_accepts)

lemma accepts_Star_Cls: "accepts (Star (Cls P)) s \<longleftrightarrow> list_all P s"
  by (induction s) (auto simp: accepts_Star_Cons intro: acc_Star0)

section \<open>Email\<close>

definition is_alpha :: "char \<Rightarrow> bool" where
  "is_alpha c \<longleftrightarrow> (let n = (of_char c :: nat) in 65 \<le> n \<and> n \<le> 90 \<or> 97 \<le> n \<and> n \<le> 122)"

definition local_char :: "char \<Rightarrow> bool" where
  "local_char c \<longleftrightarrow> is_alpha c \<or> is_digit c \<or> c \<in> set ''._%+-''"

definition domain_char :: "char \<Rightarrow> bool" where
  "domain_char c \<longleftrightarrow> is_alpha c \<or> is_digit c \<or> c \<in> set ''.-''"

definition emailRe :: rexp where
  "emailRe = Seq (Seq (Cls local_char) (Star (Cls local_char)))
     (Seq (Cls ((=) (CHR ''@'')))
       (Seq (Seq (Cls domain_char) (Star (Cls domain_char)))
         (Seq (Cls ((=) (CHR ''.'')))
           (Seq (Cls is_alpha) (Seq (Cls is_alpha) (Star (Cls is_alpha)))))))"

text \<open>\<^const>\<open>None\<close> is a nil error, \<^const>\<open>Some\<close> the error's text.\<close>

definition Email :: "string \<Rightarrow> string option" where
  "Email email =
     (if email = [] then Some ''email is required''
      else if \<not> matches emailRe email then Some ''invalid email format''
      else None)"

lemma accepts_Plus_Cls:
  "accepts (Seq (Cls P) (Star (Cls P))) s \<longleftrightarrow> s \<noteq> [] \<and> list_all P s"
proof (cases s)
  case (Cons c t)
  then show ?thesis by (auto simp: accepts_Seq_Cons accepts_Star_Cls)
qed (auto simp: accepts_Seq)

lemma accepts_Plus2_Cls:
  "accepts (Seq (Cls P) (Seq (Cls P) (Star (Cls P)))) s \<longleftrightarrow> 2 \<le> length s \<and> list_all P s"
proof (cases s)
  case (Cons c t)
  then show ?thesis
    by (cases t) (auto simp: accepts_Seq_Cons[of "Cls P"] accepts_Plus_Cls)
qed (auto simp: accepts_Seq)

lemma accepts_emailRe:
  "accepts emailRe s \<longleftrightarrow> (\<exists>l d t. s = l @ CHR ''@'' # d @ CHR ''.'' # t
     \<and> l \<noteq> [] \<and> list_all local_char l \<and> d \<noteq> [] \<and> list_all domain_char d
     \<and> 2 \<le> length t \<and> list_all is_alpha t)"
proof
  assume "accepts emailRe s"
  then obtain l s1 d s2 t where "accepts (Seq (Cls local_char) (Star (Cls local_char))) l"
    and "accepts (Seq (Cls domain_char) (Star (Cls domain_char))) d"
    and "accepts (Seq (Cls is_alpha) (Seq (Cls is_alpha) (Star (Cls is_alpha)))) t"
    and "s = l @ CHR ''@'' # d @ CHR ''.'' # t"
    unfolding emailRe_def
    by (auto simp only: accepts_Seq[where r = "Seq (Cls local_char) (Star (Cls local_char))"]
      accepts_Seq[where r = "Seq (Cls domain_char) (Star (Cls domain_char))"]
      accepts_Seq[where r = "Cls ((=) _)"] accepts_Cls append_Cons append_Nil)
  then show "\<exists>l d t. s = l @ CHR ''@'' # d @ CHR ''.'' # t
     \<and> l \<noteq> [] \<and> list_all local_char l \<and> d \<noteq> [] \<and> list_all domain_char d
     \<and> 2 \<le> length t \<and> list_all is_alpha t"
    unfolding accepts_Plus_Cls accepts_Plus2_Cls by blast
next
  assume "\<exists>l d t. s = l @ CHR ''@'' # d @ CHR ''.'' # t
     \<and> l \<noteq> [] \<and> list_all local_char l \<and> d \<noteq> [] \<and> list_all domain_char d
     \<and> 2 \<le> length t \<and> list_all is_alpha t"
  then obtain l d t where s: "s = l @ [CHR ''@''] @ d @ [CHR ''.''] @ t"
    and "l \<noteq> [] \<and> list_all local_char l" "d \<noteq> [] \<and> list_all domain_char d"
    and "2 \<le> length t \<and> list_all is_alpha t" by auto
  then show "accepts emailRe s"
    unfolding s emailRe_def
    by (intro acc_Seq acc_Cls accepts_Plus_Cls[THEN iffD2] accepts_Plus2_Cls[THEN iffD2]) auto
qed

text \<open>
  Claim C29. \<^verbatim>\<open>validate.Email\<close> accepts an address exactly when it is a non-empty local part
  over letters, digits and \<^verbatim>\<open>._%+-\<close>, an at sign, a non-empty domain over letters, digits,
  dots and dashes, a dot and a top-level name of at least two letters; every other input is
  refused with one of its two messages.
\<close>

theorem Email_accepts_iff:
  "(Email s = None) = (\<exists>l d t. s = l @ CHR ''@'' # d @ CHR ''.'' # t
     \<and> l \<noteq> [] \<and> list_all local_char l \<and> d \<noteq> [] \<and> list_all domain_char d
     \<and> 2 \<le> length t \<and> list_all is_alpha t)"
proof -
  have "Email s = None \<longleftrightarrow> s \<noteq> [] \<and> accepts emailRe s"
    by (simp add: Email_def matches_accepts)
  also have "\<dots> \<longleftrightarrow> accepts emailRe s"
    unfolding accepts_emailRe by fastforce
  finally show ?thesis by (simp only: accepts_emailRe)
qed

section \<open>Password\<close>

text \<open>
  \<^verbatim>\<open>unicode.IsLetter\<close> and \<^verbatim>\<open>unicode.IsDigit\<close> are table lookups: a parameter of the model.
  \<open>ascii_unicode\<close> is what the Unicode database says of the ASCII range, and a concrete
  instance of the parameter.
\<close>

record unicode =
  IsLetter :: "nat \<Rightarrow> bool"
  IsDigit :: "nat \<Rightarrow> bool"

definition ascii_letter :: "nat \<Rightarrow> bool" where
  "ascii_letter r \<longleftrightarrow> 65 \<le> r \<and> r \<le> 90 \<or> 97 \<le> r \<and> r \<le> 122"

definition ascii_digit :: "nat \<Rightarrow> bool" where
  "ascii_digit r \<longleftrightarrow> 48 \<le> r \<and> r \<le> 57"

definition ascii_unicode :: unicode where
  "ascii_unicode = \<lparr>IsLetter = ascii_letter, IsDigit = ascii_digit\<rparr>"

definition unicode_ascii :: "unicode \<Rightarrow> bool" where
  "unicode_ascii U \<longleftrightarrow> (\<forall>r<128. IsLetter U r = ascii_letter r \<and> IsDigit U r = ascii_digit r)"

text \<open>
  The rune and the width that a \<^verbatim>\<open>range\<close> loop takes from the front of a string: an invalid
  byte is the rune U+FFFD of width one.
\<close>

definition cont :: "char \<Rightarrow> nat \<Rightarrow> nat \<Rightarrow> bool" where
  "cont c lo hi \<longleftrightarrow> lo \<le> (of_char c :: nat) \<and> (of_char c :: nat) \<le> hi"

fun decode_rune :: "string \<Rightarrow> nat \<times> nat" where
  "decode_rune [] = (65533, 0)"
| "decode_rune (c0 # rest) =
     (let b0 = (of_char c0 :: nat);
          v = (\<lambda>i. (of_char (rest ! i) :: nat) mod 64)
      in if b0 < 128 then (b0, 1)
         else if 194 \<le> b0 \<and> b0 \<le> 223 then
           (if 1 \<le> length rest \<and> cont (rest ! 0) 128 191
            then (b0 mod 32 * 64 + v 0, 2) else (65533, 1))
         else if 224 \<le> b0 \<and> b0 \<le> 239 then
           (if 2 \<le> length rest
               \<and> cont (rest ! 0) (if b0 = 224 then 160 else 128) (if b0 = 237 then 159 else 191)
               \<and> cont (rest ! 1) 128 191
            then (b0 mod 16 * 4096 + v 0 * 64 + v 1, 3) else (65533, 1))
         else if 240 \<le> b0 \<and> b0 \<le> 244 then
           (if 3 \<le> length rest
               \<and> cont (rest ! 0) (if b0 = 240 then 144 else 128) (if b0 = 244 then 143 else 191)
               \<and> cont (rest ! 1) 128 191 \<and> cont (rest ! 2) 128 191
            then (b0 mod 8 * 262144 + v 0 * 4096 + v 1 * 64 + v 2, 4) else (65533, 1))
         else (65533, 1))"

lemma decode_rune_width: "s \<noteq> [] \<Longrightarrow> 1 \<le> snd (decode_rune s) \<and> snd (decode_rune s) \<le> length s"
  by (cases s) (auto simp: Let_def)

function runes :: "string \<Rightarrow> nat list" where
  "runes s = (if s = [] then [] else fst (decode_rune s) # runes (drop (snd (decode_rune s)) s))"
  by pat_completeness auto
termination
proof (relation "measure length")
  fix s :: string
  assume "s \<noteq> []"
  with decode_rune_width[of s] show "(drop (snd (decode_rune s)) s, s) \<in> measure length" by auto
qed simp

declare runes.simps [simp del]

text \<open>The loop of \<^verbatim>\<open>Password\<close>: both flags, left as soon as both are set.\<close>

fun password_scan :: "unicode \<Rightarrow> nat list \<Rightarrow> bool \<Rightarrow> bool \<Rightarrow> bool \<times> bool" where
  "password_scan U [] hasLetter hasDigit = (hasLetter, hasDigit)"
| "password_scan U (r # rs) hasLetter hasDigit =
     (let (hasLetter', hasDigit') =
        (if IsLetter U r then (True, hasDigit)
         else if IsDigit U r then (hasLetter, True) else (hasLetter, hasDigit))
      in if hasLetter' \<and> hasDigit' then (hasLetter', hasDigit')
         else password_scan U rs hasLetter' hasDigit')"

definition Password :: "unicode \<Rightarrow> string \<Rightarrow> string option" where
  "Password U pwd =
     (if length pwd < 8 then Some ''password must be at least 8 characters''
      else (let (hasLetter, hasDigit) = password_scan U (runes pwd) False False
            in if \<not> hasLetter then Some ''password must contain at least one letter''
               else if \<not> hasDigit then Some ''password must contain at least one digit''
               else None))"

lemma password_scan_fst:
  "fst (password_scan U rs l d) \<longleftrightarrow> l \<or> list_ex (IsLetter U) rs"
  if "\<not> (l \<and> d)"
  using that by (induction rs arbitrary: l d) auto

lemma password_scan_snd:
  "snd (password_scan U rs l d) \<longleftrightarrow> d \<or> list_ex (\<lambda>r. IsDigit U r \<and> \<not> IsLetter U r) rs"
  if "\<not> (l \<and> d)"
  using that by (induction rs arbitrary: l d) auto

lemma Password_None:
  "Password U pwd = None \<longleftrightarrow> 8 \<le> length pwd \<and> list_ex (IsLetter U) (runes pwd)
     \<and> list_ex (\<lambda>r. IsDigit U r \<and> \<not> IsLetter U r) (runes pwd)"
  using password_scan_fst[of False False U "runes pwd"] password_scan_snd[of False False U "runes pwd"]
  by (auto simp: Password_def split: prod.splits)

lemma runes_ascii: "list_all (\<lambda>c. (of_char c :: nat) < 128) s \<Longrightarrow> runes s = map of_char s"
proof (induction s)
  case (Cons c s)
  then show ?case by (subst runes.simps) (simp add: Let_def)
qed (simp add: runes.simps)

text \<open>
  On an ASCII password, \<^verbatim>\<open>validate.Password\<close> returns nil exactly when the password
  has at least eight bytes, one of them an ASCII letter and one of them an ASCII digit.
\<close>

theorem Password_ascii_iff:
  assumes U: "unicode_ascii U"
    and ascii: "list_all (\<lambda>c. (of_char c :: nat) < 128) pwd"
  shows "Password U pwd = None \<longleftrightarrow> 8 \<le> length pwd \<and> list_ex is_alpha pwd \<and> list_ex is_digit pwd"
proof -
  have letter: "IsLetter U (of_char c) \<longleftrightarrow> is_alpha c" if "c \<in> set pwd" for c
    using that U ascii by (auto simp: unicode_ascii_def list_all_iff ascii_letter_def is_alpha_def Let_def)
  have dig: "IsDigit U (of_char c) \<and> \<not> IsLetter U (of_char c) \<longleftrightarrow> is_digit c" if "c \<in> set pwd" for c
    using that U ascii
    by (auto simp: unicode_ascii_def list_all_iff ascii_digit_def ascii_letter_def is_digit_def)
  show ?thesis
    unfolding Password_None runes_ascii[OF ascii]
    using letter dig by (auto simp: list_ex_iff)
qed

lemma unicode_ascii_ascii: "unicode_ascii ascii_unicode"
  by (simp add: unicode_ascii_def ascii_unicode_def)

theorem Password_ascii_iff_witness:
  "Password ascii_unicode ''secret12'' = None \<and> Password ascii_unicode ''secretly'' \<noteq> None"
proof
  have a: "list_all (\<lambda>c. (of_char c :: nat) < 128) ''secret12''"
    and b: "list_all (\<lambda>c. (of_char c :: nat) < 128) ''secretly''" by simp_all
  show "Password ascii_unicode ''secret12'' = None"
    unfolding Password_ascii_iff[OF unicode_ascii_ascii a] by (simp add: is_alpha_def is_digit_def)
  show "Password ascii_unicode ''secretly'' \<noteq> None"
    unfolding Password_ascii_iff[OF unicode_ascii_ascii b] by (simp add: is_alpha_def is_digit_def)
qed

definition four_characters :: string where
  "four_characters = ''a1'' @ bytes_of [226, 130, 172, 226, 130, 172]"

text \<open>
  The policy's length rule counts bytes: a password of four characters (an ASCII
  letter, an ASCII digit and two three-byte characters) passes the check whose message and
  comment ask for eight characters.
\<close>

theorem Password_counts_bytes:
  assumes "unicode_ascii U"
  shows "Password U four_characters = None \<and> length (runes four_characters) = 4"
proof -
  have r: "runes four_characters = [97, 49, 8364, 8364]"
    by (simp add: four_characters_def bytes_of_def runes.simps cont_def)
  from assms have "IsLetter U 97" "IsDigit U 49" "\<not> IsLetter U 49"
    by (simp_all add: unicode_ascii_def ascii_letter_def ascii_digit_def)
  then show ?thesis
    unfolding Password_None r by (simp add: four_characters_def bytes_of_def)
qed

theorem Password_counts_bytes_witness:
  "Password ascii_unicode four_characters = None"
  using Password_counts_bytes[OF unicode_ascii_ascii] by simp

end
