(* ===== verification/Domain.thy ===== *)
theory Domain
  imports Validate "HOL-Library.Word"
begin

text \<open>
  The domain layer: the records of \<^verbatim>\<open>internal/domain/models\<close> and the data of
  \<^verbatim>\<open>internal/domain/ports\<close> (errors, events, cached sessions, reset records, claims), the
  status values of the RPC layer, and the run-time environment of a Go program as far as the
  service uses it: the clock, the random source and the \<^verbatim>\<open>go\<close> statement.
\<close>

section \<open>Models\<close>

record User =
  u_ID :: string
  u_Email :: string
  u_PasswordHash :: string
  u_CreatedAt :: time
  u_UpdatedAt :: time

record Session =
  s_ID :: string
  s_UserID :: string
  s_UserEmail :: string
  s_TokenHash :: string
  s_DeviceID :: string
  s_UserAgent :: string
  s_IPAddress :: string
  s_ExpiresAt :: time
  s_LastUsedAt :: time
  s_CreatedAt :: time

section \<open>Port data\<close>

text \<open>
  The sentinel errors of the ports; every other error is its text. \<^verbatim>\<open>errors.Is\<close> against a
  sentinel is equality, since the adapters never wrap one sentinel into another error.
\<close>

datatype port_error =
    ErrUserNotFound
  | ErrUserAlreadyExists
  | ErrSessionNotFound
  | ErrResetCodeNotFound
  | ErrResetTokenNotFound
  | ErrOther string

datatype AuditEventType =
    AuditEventRegister
  | AuditEventLoginSuccess
  | AuditEventLoginFailure
  | AuditEventLoginBlocked
  | AuditEventLogout
  | AuditEventLogoutAll
  | AuditEventTokenRefresh
  | AuditEventSessionRevoke
  | AuditEventPasswordChange
  | AuditEventPasswordResetRequest
  | AuditEventPasswordReset

fun event_name :: "AuditEventType \<Rightarrow> string" where
  "event_name AuditEventRegister = ''user.register''"
| "event_name AuditEventLoginSuccess = ''user.login.success''"
| "event_name AuditEventLoginFailure = ''user.login.failure''"
| "event_name AuditEventLoginBlocked = ''user.login.blocked''"
| "event_name AuditEventLogout = ''user.logout''"
| "event_name AuditEventLogoutAll = ''user.logout_all''"
| "event_name AuditEventTokenRefresh = ''token.refresh''"
| "event_name AuditEventSessionRevoke = ''session.revoke''"
| "event_name AuditEventPasswordChange = ''user.password_change''"
| "event_name AuditEventPasswordResetRequest = ''user.password_reset_request''"
| "event_name AuditEventPasswordReset = ''user.password_reset''"

text \<open>A nil metadata map and an empty one are both \<open>[]\<close>: every reader asks for its length.\<close>

record AuditEvent =
  a_UserID :: "string option"
  a_EventType :: AuditEventType
  a_IPAddress :: string
  a_UserAgent :: string
  a_Metadata :: "string gomap"

record HookEvent =
  h_Type :: AuditEventType
  h_UserID :: string
  h_UserEmail :: string
  h_IPAddress :: string
  h_UserAgent :: string
  h_Metadata :: "string gomap"

record CachedSession =
  c_SessionID :: string
  c_UserID :: string
  c_UserEmail :: string
  c_DeviceID :: string
  c_ExpiresAt :: time

record OTPRecord =
  o_UserID :: string
  o_OTPHash :: string
  o_Attempts :: int

record ResetTokenRecord =
  t_UserID :: string
  t_Email :: string

record Claims =
  k_UserID :: string
  k_Email :: string
  k_Roles :: "string list"

section \<open>Remote procedure calls\<close>

text \<open>
  The gRPC status codes the service returns. A handler ends in a response, a status, or a
  Go panic. The request context carries the incoming metadata (absent or a multimap with
  lower-case keys) and the text of the peer's address.
\<close>

datatype code = InvalidArgument | AlreadyExists | Internal | Unauthenticated | ResourceExhausted | NotFound

datatype rpc_error = Status code string | GoPanic string

record ctx =
  metadata :: "(string \<Rightarrow> string list) option"
  peer :: "string option"

section \<open>The run-time environment\<close>

text \<open>
  The work a handler leaves to a goroutine: one call of the audit store or of the hook.
\<close>

datatype task = AuditTask AuditEvent | HookTask HookEvent

text \<open>
  What a request may do to the world outside the ports: read the clock, read random bytes
  (\<^verbatim>\<open>rand.Read\<close>, which can fail), start a goroutine.
\<close>

record 'w runtime =
  Now :: "('w, time) state"
  Read :: "nat \<Rightarrow> ('w, string + string) state"
  Go :: "task \<Rightarrow> ('w, unit) state"

text \<open>
  The cryptographic primitives, parameters of the model: SHA-256 and
  \<^verbatim>\<open>argon2.IDKey(password, salt, time, memory, threads, keyLen)\<close>, which panics (\<^const>\<open>None\<close>)
  when \<open>time\<close> or \<open>threads\<close> is 0.
\<close>

record crypto =
  sha256 :: "string \<Rightarrow> string"
  IDKey :: "string \<Rightarrow> string \<Rightarrow> 32 word \<Rightarrow> 32 word \<Rightarrow> 8 word \<Rightarrow> 32 word \<Rightarrow> string option"

text \<open>Documented behaviour: with positive parameters the key has the length asked for.\<close>

definition argon2_total :: "crypto \<Rightarrow> bool" where
  "argon2_total C \<longleftrightarrow> (\<forall>p s t m par k. t \<noteq> 0 \<longrightarrow> par \<noteq> 0 \<longrightarrow>
     (\<exists>h. IDKey C p s t m par k = Some h \<and> length h = unat k))"

lemma argon2_totalE:
  assumes "argon2_total C" "t \<noteq> 0" "par \<noteq> 0"
  obtains h where "IDKey C p s t m par k = Some h" "length h = unat k"
  using assms unfolding argon2_total_def by blast

text \<open>A concrete instance of the primitives for the examples: identity and padding.\<close>

definition toy_crypto :: crypto where
  "toy_crypto = \<lparr>sha256 = (\<lambda>s. s),
     IDKey = (\<lambda>p s t m par k. if t = 0 \<or> par = 0 then None
       else Some (take (unat k) (p @ replicate (unat k) (CHR 0x00))))\<rparr>"

lemma toy_crypto_total: "argon2_total toy_crypto"
  by (auto simp: argon2_total_def toy_crypto_def min_def)

end
