(* ===== verification/Credentials.thy ===== *)
theory Credentials
  imports Domain
begin

text \<open>
  The packages \<^verbatim>\<open>internal/lib/password\<close>, \<^verbatim>\<open>token\<close> and \<^verbatim>\<open>otp\<close>: the PHC string of an
  argon2id hash with its parser, opaque tokens with their stored digest, and one-time codes.
\<close>

section \<open>Opaque tokens\<close>

definition Hash :: "crypto \<Rightarrow> string \<Rightarrow> string" where
  "Hash C plain = hex_encode (sha256 C plain)"

definition token_Generate :: "crypto \<Rightarrow> 'w runtime \<Rightarrow> ('w, string + string \<times> string) state" where
  "token_Generate C R = do {
     r \<leftarrow> Read R 32;
     ret (case r of
        Inl err \<Rightarrow> Inl (''generate random bytes: '' @ err)
      | Inr b \<Rightarrow> (let plain = b64_padded b64_url b; h = sha256 C plain
                  in Inr (plain, hex_encode h)))
   }"

section \<open>One-time codes\<close>

definition BigEndian_Uint32 :: "string \<Rightarrow> 32 word" where
  "BigEndian_Uint32 b = word_of_nat (foldl (\<lambda>n c. 256 * n + of_char c) 0 (take 4 b))"

definition otp_Generate :: "'w runtime \<Rightarrow> ('w, string + string) state" where
  "otp_Generate R = do {
     r \<leftarrow> Read R 4;
     ret (case r of
        Inl err \<Rightarrow> Inl (''generate otp: '' @ err)
      | Inr b \<Rightarrow> Inr (itoa06 (unat (BigEndian_Uint32 b mod 1000000))))
   }"

section \<open>Password hashes\<close>

definition argon_memory :: "32 word" where "argon_memory = 65536"
definition argon_iterations :: "32 word" where "argon_iterations = 3"
definition argon_parallelism :: "8 word" where "argon_parallelism = 4"
definition saltLen :: nat where "saltLen = 16"
definition keyLen :: "32 word" where "keyLen = 32"

lemmas argon_params = argon_memory_def argon_iterations_def argon_parallelism_def keyLen_def

text \<open>
  \<^verbatim>\<open>fmt.Sprintf("$argon2id$v=%d$m=%d,t=%d,p=%d$%s$%s", ...)\<close>; \<^verbatim>\<open>argon2.Version\<close> is 0x13.
\<close>

definition encode_params :: string where
  "encode_params = ''m='' @ itoa (unat argon_memory) @ '',t='' @ itoa (unat argon_iterations)
     @ '',p='' @ itoa (unat argon_parallelism)"

definition encode_hash :: "string \<Rightarrow> string \<Rightarrow> string" where
  "encode_hash salt hash = ''$argon2id$v='' @ itoa 19 @ CHR ''$'' # encode_params
     @ CHR ''$'' # b64_raw b64_std salt @ CHR ''$'' # b64_raw b64_std hash"

text \<open>The outcome of a call that can panic is an \<^typ>\<open>'a option\<close>, \<^const>\<open>None\<close> for the panic.\<close>

definition password_Hash :: "crypto \<Rightarrow> 'w runtime \<Rightarrow> string \<Rightarrow> ('w, (string + string) option) state" where
  "password_Hash C R plaintext = do {
     r \<leftarrow> Read R saltLen;
     ret (case r of
        Inl err \<Rightarrow> Some (Inl (''generate salt: '' @ err))
      | Inr salt \<Rightarrow>
          (case IDKey C plaintext salt argon_iterations argon_memory argon_parallelism keyLen of
             None \<Rightarrow> None
           | Some hash \<Rightarrow> Some (Inr (encode_hash salt hash))))
   }"

text \<open>
  \<^verbatim>\<open>fmt.Sscanf(s, "m=%d,t=%d,p=%d", &mem, &iters, &parallel)\<close>: literals match exactly, a
  verb skips white space (a newline is an error), reads decimal digits and refuses a number
  that does not fit its type; input after the last verb is ignored.
\<close>

function skip_space :: "string \<Rightarrow> string option" where
  "skip_space s = (if take 1 s = [CHR 0x0A] then None
     else if space_prefix s = 0 then Some s
     else skip_space (drop (space_prefix s) s))"
  by pat_completeness auto
termination
proof (relation "measure length")
  fix s :: string
  assume "space_prefix s \<noteq> 0"
  with space_prefix_le[of s] show "(drop (space_prefix s) s, s) \<in> measure length" by auto
qed simp

declare skip_space.simps [simp del]

definition scan_literal :: "string \<Rightarrow> string \<Rightarrow> string option" where
  "scan_literal lit s = (case CutPrefix s lit of (r, ok) \<Rightarrow> if ok then Some r else None)"

definition scan_uint :: "nat \<Rightarrow> string \<Rightarrow> (nat \<times> string) option" where
  "scan_uint bits s =
     (case skip_space s of
        None \<Rightarrow> None
      | Some s' \<Rightarrow>
          (let tok = takeWhile is_digit s' in
           if tok = [] then None
           else if dec_val tok < 2 ^ bits then Some (dec_val tok, dropWhile is_digit s')
           else None))"

definition Sscanf_params :: "string \<Rightarrow> (nat \<times> nat \<times> nat) option" where
  "Sscanf_params s = do {
     s1 \<leftarrow> scan_literal ''m='' s;
     (mem, s2) \<leftarrow> scan_uint 32 s1;
     s3 \<leftarrow> scan_literal '',t='' s2;
     (iters, s4) \<leftarrow> scan_uint 32 s3;
     s5 \<leftarrow> scan_literal '',p='' s4;
     (parallel, s6) \<leftarrow> scan_uint 8 s5;
     Some (mem, iters, parallel)
   }"

definition password_Verify :: "crypto \<Rightarrow> string \<Rightarrow> string \<Rightarrow> (string + bool) option" where
  "password_Verify C plaintext encodedHash =
     (let parts = Split encodedHash (CHR ''$'') in
      if length parts \<noteq> 6 then Some (Inl ''invalid hash format'')
      else case Sscanf_params (parts ! 3) of
        None \<Rightarrow> Some (Inl ''parse hash params'')
      | Some (mem, iters, parallel) \<Rightarrow>
          (case RawStd_DecodeString (parts ! 4) of
             None \<Rightarrow> Some (Inl ''decode salt'')
           | Some salt \<Rightarrow>
               (case RawStd_DecodeString (parts ! 5) of
                  None \<Rightarrow> Some (Inl ''decode hash'')
                | Some storedHash \<Rightarrow>
                    (case IDKey C plaintext salt (word_of_nat iters) (word_of_nat mem)
                            (word_of_nat parallel) (word_of_nat (length storedHash)) of
                       None \<Rightarrow> None
                     | Some computed \<Rightarrow> Some (Inr (computed = storedHash))))))"

section \<open>Tokens: properties\<close>

lemma wp_token_Generate:
  assumes "wp (Read R 32) (\<lambda>r w'. case r of Inl e \<Rightarrow> Q (Inl (''generate random bytes: '' @ e)) w'
     | Inr b \<Rightarrow> Q (Inr (b64_padded b64_url b, Hash C (b64_padded b64_url b))) w') w"
  shows "wp (token_Generate C R) Q w"
  unfolding token_Generate_def wp_simps
  by (rule wp_mono[OF assms]) (auto simp: Hash_def Let_def split: sum.splits)

lemma wp_otp_Generate:
  assumes "wp (Read R 4) (\<lambda>r w'. case r of Inl e \<Rightarrow> Q (Inl (''generate otp: '' @ e)) w'
     | Inr b \<Rightarrow> Q (Inr (itoa06 (unat (BigEndian_Uint32 b mod 1000000)))) w') w"
  shows "wp (otp_Generate R) Q w"
  unfolding otp_Generate_def wp_simps
  by (rule wp_mono[OF assms]) (auto split: sum.splits)

text \<open>
  Whatever the random source does, a token that \<^verbatim>\<open>token.Generate\<close> hands out is stored
  under the digest that \<^verbatim>\<open>token.Hash\<close> recomputes from it, and 32 random bytes give a token of
  44 characters that determines them.
\<close>

theorem token_Generate_Hash:
  "wp (token_Generate C R) (\<lambda>r _. case r of Inl _ \<Rightarrow> True | Inr (plain, hashed) \<Rightarrow> hashed = Hash C plain) w
   \<and> (\<forall>b b'. length b = 32 \<and> length b' = 32 \<longrightarrow>
        length (b64_padded b64_url b) = 44 \<and> (b64_padded b64_url b = b64_padded b64_url b' \<longrightarrow> b = b'))"
proof
  show "wp (token_Generate C R)
    (\<lambda>r _. case r of Inl _ \<Rightarrow> True | Inr (plain, hashed) \<Rightarrow> hashed = Hash C plain) w"
    by (rule wp_token_Generate, rule wp_mono[OF wp_True]) (simp split: sum.split)
  show "\<forall>b b'. length b = 32 \<and> length b' = 32 \<longrightarrow>
        length (b64_padded b64_url b) = 44 \<and> (b64_padded b64_url b = b64_padded b64_url b' \<longrightarrow> b = b')"
  proof (intro allI impI)
    fix b b' :: string
    assume len: "length b = 32 \<and> length b' = 32"
    then have "length b = length b'" by simp
    then have "b64_padded b64_url b = b64_padded b64_url b' \<longrightarrow> b = b'"
      using b64_padded_inj by blast
    moreover have "length (b64_padded b64_url b) = 44"
      unfolding b64_padded_length using len by simp
    ultimately show "length (b64_padded b64_url b) = 44 \<and> (b64_padded b64_url b = b64_padded b64_url b' \<longrightarrow> b = b')"
      by blast
  qed
qed

theorem token_Generate_Hash_witness:
  "length (b64_padded b64_url (replicate 32 (CHR ''a''))) = 44"
  using token_Generate_Hash by (metis length_replicate)

lemma unat_mod_million: "unat (x mod 1000000 :: 32 word) = unat x mod 1000000"
  by (simp add: unat_mod)


section \<open>Password hashes: properties\<close>

lemma itoa_consts:
  "itoa 19 = ''19''" "itoa 65536 = ''65536''" "itoa 3 = ''3''" "itoa 4 = ''4''"
  by (simp_all add: itoa.simps digit_def char_of_eq_nat)

lemma encode_params_eq: "encode_params = ''m=65536,t=3,p=4''"
  by (simp add: encode_params_def argon_params itoa_consts)

lemma space_encodings_hd: "e \<in> set space_encodings \<Longrightarrow> \<exists>x xs. e = x # xs \<and> \<not> is_digit x"
  by (auto simp: space_encodings_def bytes_of_def is_digit_def)

lemma skip_space_digit: "is_digit c \<Longrightarrow> skip_space (c # s) = Some (c # s)"
proof -
  assume c: "is_digit c"
  have "find (\<lambda>e. take (length e) (c # s) = e) space_encodings = None"
    unfolding find_None_iff using space_encodings_hd c by fastforce
  then have "space_prefix (c # s) = 0" by (simp add: space_prefix_def)
  moreover have "c \<noteq> CHR 0x0A" using c by (auto simp: is_digit_def)
  ultimately show ?thesis by (subst skip_space.simps) simp
qed

lemma Sscanf_params_encode: "Sscanf_params encode_params = Some (65536, 3, 4)"
  by (simp add: encode_params_eq Sscanf_params_def scan_literal_def CutPrefix_def scan_uint_def
      skip_space_digit is_digit_def Let_def dec_val_def digit_val_def)

lemma Split_encode_hash:
  "Split (encode_hash salt hash) (CHR ''$'') =
     [[], ''argon2id'', ''v=19'', encode_params, b64_raw b64_std salt, b64_raw b64_std hash]"
proof -
  have "encode_hash salt hash = [] @ CHR ''$'' # ''argon2id'' @ CHR ''$'' # ''v=19'' @ CHR ''$'' #
      encode_params @ CHR ''$'' # b64_raw b64_std salt @ CHR ''$'' # b64_raw b64_std hash"
    by (simp add: encode_hash_def itoa_consts)
  moreover have "CHR ''$'' \<notin> set (b64_raw b64_std s)" for s
    using b64_raw_chars by blast
  ultimately show ?thesis
    by (simp add: encode_params_eq Split_append Split_no_sep)
qed

lemma argon_key:
  assumes "argon2_total C"
  obtains h where "IDKey C p salt argon_iterations argon_memory argon_parallelism keyLen = Some h"
    and "length h = 32"
  using argon2_totalE[OF assms, of argon_iterations argon_parallelism p salt argon_memory keyLen]
  by (auto simp: argon_params)

lemma Verify_encode_hash:
  assumes "argon2_total C" and "length hash = 32"
  shows "password_Verify C p (encode_hash salt hash) =
    Some (Inr (IDKey C p salt argon_iterations argon_memory argon_parallelism keyLen = Some hash))"
proof -
  obtain h where "IDKey C p salt argon_iterations argon_memory argon_parallelism keyLen = Some h"
    using argon_key[OF assms(1)] by metis
  with assms(2) show ?thesis
    by (simp add: password_Verify_def Split_encode_hash Let_def Sscanf_params_encode RawStd_roundtrip
        argon_params)
qed

text \<open>
  Claim C20. A password checks against its own hash: whatever salt the random source gives,
  \<^verbatim>\<open>password.Hash\<close> does not panic, \<^verbatim>\<open>password.Verify\<close> parses the string it returned without
  error, accepts the hashed password, and accepts another one exactly when argon2 derives the
  same key for it under the stored salt.
\<close>

theorem Verify_Hash_roundtrip:
  assumes "argon2_total C"
  shows "wp (password_Hash C R p) (\<lambda>r _. \<exists>res. r = Some res \<and> (case res of Inl _ \<Rightarrow> True
     | Inr enc \<Rightarrow> password_Verify C p enc = Some (Inr True) \<and>
         (\<exists>salt. \<forall>q. password_Verify C q enc = Some (Inr
            (IDKey C q salt argon_iterations argon_memory argon_parallelism keyLen
             = IDKey C p salt argon_iterations argon_memory argon_parallelism keyLen))))) w"
  unfolding password_Hash_def wp_simps
proof (rule wp_mono[OF wp_True], goal_cases)
  case (1 r w')
  show ?case
  proof (cases r)
    case (Inr salt)
    obtain h where "IDKey C p salt argon_iterations argon_memory argon_parallelism keyLen = Some h"
      and "length h = 32"
      using argon_key[OF assms] by metis
    then show ?thesis using Inr Verify_encode_hash[OF assms] by (auto intro!: exI[of _ salt])
  qed simp
qed

theorem Verify_Hash_roundtrip_witness:
  "wp (password_Hash toy_crypto \<lparr>Now = ret 0, Read = (\<lambda>n. ret (Inr (replicate n (CHR ''s'')))), Go = (\<lambda>_. ret ())\<rparr> ''secret12'')
     (\<lambda>r _. \<exists>enc. r = Some (Inr enc) \<and> password_Verify toy_crypto ''secret12'' enc = Some (Inr True)) ()"
proof -
  let ?R = "\<lparr>Now = ret 0, Read = (\<lambda>n. ret (Inr (replicate n (CHR ''s'')))), Go = (\<lambda>_. ret ())\<rparr> :: unit runtime"
  have "wp (password_Hash toy_crypto ?R ''secret12'') (\<lambda>r _. \<exists>enc. r = Some (Inr enc)) ()"
    by (simp add: password_Hash_def wp_simps toy_crypto_def argon_params)
  from wp_conj[OF this Verify_Hash_roundtrip[OF toy_crypto_total, of ?R "''secret12''" "()"]]
  show ?thesis by (rule wp_mono) auto
qed

end
