(* ===== verification/Ports.thy ===== *)
theory Ports
  imports Credentials
begin

text \<open>
  The ports of \<^verbatim>\<open>internal/domain/ports\<close> as records of operations over a world \<open>'w\<close> (the Go
  interface values the service holds), and what each port promises: the abstract state of
  all ports together (\<open>vault\<close>), one specification per operation as a relation on vaults,
  and one locale per port that ties an implementation to its specifications. The client
  theories \<^verbatim>\<open>Auth_Backend\<close> and \<^verbatim>\<open>Handler_Proofs\<close> are proved once against these locales; the adapter theories interpret
  them.
\<close>

section \<open>The interfaces\<close>

record 'w UserStore =
  us_Create :: "string \<Rightarrow> string \<Rightarrow> ('w, port_error + User) state"
  us_GetByEmail :: "string \<Rightarrow> ('w, port_error + User) state"
  us_GetByID :: "string \<Rightarrow> ('w, port_error + User) state"
  us_UpdatePasswordHash :: "string \<Rightarrow> string \<Rightarrow> ('w, port_error + unit) state"

text \<open>
  Operations that take a \<^verbatim>\<open>*models.Session\<close> and fill in its ID and timestamps return the
  filled-in session. Operations that can return a partial result beside an error return a pair.
\<close>

record 'w SessionStore =
  ss_Create :: "Session \<Rightarrow> ('w, port_error + Session) state"
  ss_GetByTokenHash :: "string \<Rightarrow> ('w, port_error + Session) state"
  ss_DeleteByID :: "string \<Rightarrow> string \<Rightarrow> ('w, port_error + string) state"
  ss_DeleteByTokenHash :: "string \<Rightarrow> ('w, port_error + unit) state"
  ss_RotateToken :: "string \<Rightarrow> Session \<Rightarrow> ('w, port_error + Session) state"
  ss_DeleteAllByUserID :: "string \<Rightarrow> ('w, string list \<times> port_error option) state"
  ss_DeleteAllByUserIDExcept :: "string \<Rightarrow> string \<Rightarrow> ('w, string list \<times> port_error option) state"
  ss_ListByUserID :: "string \<Rightarrow> ('w, Session list \<times> port_error option) state"

record 'w SessionCache =
  sc_Set :: "string \<Rightarrow> CachedSession \<Rightarrow> duration \<Rightarrow> ('w, port_error option) state"
  sc_Get :: "string \<Rightarrow> ('w, port_error + CachedSession) state"
  sc_Delete :: "string \<Rightarrow> ('w, port_error option) state"

record 'w PasswordResetStore =
  rs_SaveOTP :: "string \<Rightarrow> string \<Rightarrow> string \<Rightarrow> duration \<Rightarrow> ('w, port_error option) state"
  rs_GetOTP :: "string \<Rightarrow> ('w, port_error + OTPRecord) state"
  rs_IncrOTPAttempts :: "string \<Rightarrow> ('w, port_error + int) state"
  rs_DeleteOTP :: "string \<Rightarrow> ('w, port_error option) state"
  rs_SaveResetToken :: "string \<Rightarrow> string \<Rightarrow> string \<Rightarrow> duration \<Rightarrow> ('w, port_error option) state"
  rs_GetResetToken :: "string \<Rightarrow> ('w, port_error + ResetTokenRecord) state"
  rs_DeleteResetToken :: "string \<Rightarrow> ('w, port_error option) state"

record 'w AccessTokenManager =
  tm_GenerateAccessToken :: "string \<Rightarrow> string \<Rightarrow> string list \<Rightarrow> ('w, string + string) state"
  tm_ValidateAccessToken :: "string \<Rightarrow> ('w, string + Claims) state"

record 'w AuditStore =
  as_Log :: "AuditEvent \<Rightarrow> ('w, port_error option) state"

record 'w EventHook =
  hk_OnEvent :: "HookEvent \<Rightarrow> ('w, port_error option) state"

text \<open>The methods of \<^verbatim>\<open>*bruteforce.Guard\<close> that the service calls.\<close>

record 'w GuardMethods =
  bg_IsLocked :: "string \<Rightarrow> ('w, port_error + bool) state"
  bg_RecordFailure :: "string \<Rightarrow> ('w, port_error + bool) state"
  bg_Reset :: "string \<Rightarrow> ('w, unit) state"

section \<open>The abstract state\<close>

text \<open>
  Users by ID, sessions by token digest, cached sessions, one-time codes and reset tokens with
  their expiry, the goroutines started so far, the time of the last clock reading, and the
  digests that the random source may still produce. \<open>v_remote\<close> says that cache, codes and tokens are on
  a server of their own: it drops expired entries by itself, measures time in milliseconds, and its
  answer to a command can get lost after it acted.
\<close>

record vault =
  v_remote :: bool
  v_now :: time
  v_users :: "string \<rightharpoonup> User"
  v_sessions :: "string \<rightharpoonup> Session"
  v_cache :: "string \<rightharpoonup> CachedSession \<times> time"
  v_otps :: "string \<rightharpoonup> OTPRecord \<times> time"
  v_resets :: "string \<rightharpoonup> ResetTokenRecord \<times> time"
  v_tasks :: "task list"
  v_unused :: "string set"

text \<open>What is left of a table with expiries: a remote one may have lost entries that are expired.\<close>

definition keeps :: "bool \<Rightarrow> time \<Rightarrow> ('k \<rightharpoonup> 'a \<times> time) \<Rightarrow> ('k \<rightharpoonup> 'a \<times> time) \<Rightarrow> bool" where
  "keeps b t m m' \<longleftrightarrow> (\<forall>k. m' k = m k \<or> b \<and> m' k = None \<and> (\<exists>a x. m k = Some (a, x) \<and> x < t))"

lemma keeps_refl [simp]: "keeps b t m m"
  by (simp add: keeps_def)

lemma keeps_local [simp]: "keeps False t m m' \<longleftrightarrow> m' = m"
  by (auto simp: keeps_def)

lemma keeps_trans: "keeps b t m m' \<Longrightarrow> keeps b u m' m'' \<Longrightarrow> t \<le> u \<Longrightarrow> keeps b u m m''"
  unfolding keeps_def by (metis option.distinct(1) order_less_le_trans)

lemma keeps_upd: "keeps b t m m' \<Longrightarrow> keeps b t (m(k := e)) (m'(k := e))"
  by (auto simp: keeps_def)

lemma keeps_Some: "keeps b t m m' \<Longrightarrow> m' k = Some y \<Longrightarrow> m k = Some y"
  unfolding keeps_def by (metis option.distinct(1))

lemma keeps_None: "keeps b t m m' \<Longrightarrow> m k = None \<Longrightarrow> m' k = None"
  unfolding keeps_def by (metis option.distinct(1))

lemma keeps_map_le: "keeps b t m m' \<Longrightarrow> m' \<subseteq>\<^sub>m m"
  by (auto simp: map_le_def dest: keeps_Some)

text \<open>Time passed, and nothing else changed.\<close>

definition later :: "vault \<Rightarrow> vault \<Rightarrow> bool" where
  "later v v' \<longleftrightarrow> v_remote v' = v_remote v \<and> v_now v \<le> v_now v' \<and> v_users v' = v_users v \<and> v_sessions v' = v_sessions v
     \<and> keeps (v_remote v) (v_now v') (v_cache v) (v_cache v')
     \<and> keeps (v_remote v) (v_now v') (v_otps v) (v_otps v')
     \<and> keeps (v_remote v) (v_now v') (v_resets v) (v_resets v')
     \<and> v_tasks v' = v_tasks v \<and> v_unused v' = v_unused v"

lemmas later_iff = later_def

lemma later_refl [simp]: "later v v"
  by (simp add: later_def)

lemma later_trans: "later u v \<Longrightarrow> later v w \<Longrightarrow> later u w"
  by (auto simp: later_def intro: keeps_trans)

text \<open>
  What a client may rely on across a step that writes nothing it looks at: the stores are the
  same, the clock did not go back, and no digest became producible again.
\<close>

definition frame :: "vault \<Rightarrow> vault \<Rightarrow> bool" where
  "frame v v' \<longleftrightarrow> v_remote v' = v_remote v \<and> v_users v' = v_users v \<and> v_sessions v' = v_sessions v
     \<and> keeps (v_remote v) (v_now v') (v_cache v) (v_cache v')
     \<and> keeps (v_remote v) (v_now v') (v_otps v) (v_otps v')
     \<and> keeps (v_remote v) (v_now v') (v_resets v) (v_resets v')
     \<and> v_now v \<le> v_now v' \<and> v_unused v' \<subseteq> v_unused v"

lemma frame_refl [simp]: "frame v v"
  by (simp add: frame_def)

lemma frame_trans [trans]: "frame u v \<Longrightarrow> frame v w \<Longrightarrow> frame u w"
  by (auto simp: frame_def intro: keeps_trans)

lemma frame_tables:
  assumes "frame v v'"
  shows "v_users v' = v_users v \<and> v_sessions v' = v_sessions v"
  using assms by (simp add: frame_def)

lemma later_frame: "later v v' \<Longrightarrow> frame v v'"
  by (auto simp: later_def frame_def)

text \<open>
  A store that keeps times in microseconds (PostgreSQL) may hold an expiry up to one
  microsecond before the one it was given.
\<close>

definition micro :: "time \<Rightarrow> time \<Rightarrow> bool" where
  "micro stored given \<longleftrightarrow> stored \<le> given \<and> given < stored + 1000"

lemma micro_refl [simp]: "micro t t"
  by (simp add: micro_def)

section \<open>Specifications of the operations\<close>

definition user_Create_spec :: "string \<Rightarrow> string \<Rightarrow> vault \<Rightarrow> port_error + User \<Rightarrow> vault \<Rightarrow> bool" where
  "user_Create_spec email h v r v' =
     (case r of
        Inr u \<Rightarrow> u_Email u = email \<and> u_PasswordHash u = h \<and> u_ID u \<notin> dom (v_users v)
          \<and> (\<forall>x \<in> ran (v_users v). u_Email x \<noteq> email)
          \<and> later (v\<lparr>v_users := (v_users v)(u_ID u \<mapsto> u)\<rparr>) v'
      | Inl err \<Rightarrow> later v v'
          \<and> (err = ErrUserAlreadyExists \<longrightarrow> (\<exists>x \<in> ran (v_users v). u_Email x = email)))"

definition user_GetByEmail_spec :: "string \<Rightarrow> vault \<Rightarrow> port_error + User \<Rightarrow> vault \<Rightarrow> bool" where
  "user_GetByEmail_spec email v r v' \<longleftrightarrow> later v v' \<and>
     (case r of
        Inr u \<Rightarrow> v_users v (u_ID u) = Some u \<and> u_Email u = email
      | Inl err \<Rightarrow> err = ErrUserNotFound \<longrightarrow> (\<forall>x \<in> ran (v_users v). u_Email x \<noteq> email))"

definition user_GetByID_spec :: "string \<Rightarrow> vault \<Rightarrow> port_error + User \<Rightarrow> vault \<Rightarrow> bool" where
  "user_GetByID_spec i v r v' \<longleftrightarrow> later v v' \<and>
     (case r of
        Inr u \<Rightarrow> v_users v i = Some u
      | Inl err \<Rightarrow> err = ErrUserNotFound \<longrightarrow> v_users v i = None)"

definition user_Update_spec :: "string \<Rightarrow> string \<Rightarrow> vault \<Rightarrow> port_error + unit \<Rightarrow> vault \<Rightarrow> bool" where
  "user_Update_spec i h v r v' =
     (case r of
        Inr _ \<Rightarrow> (\<exists>u t. v_users v i = Some u
          \<and> later (v\<lparr>v_users := (v_users v)(i \<mapsto> u\<lparr>u_PasswordHash := h, u_UpdatedAt := t\<rparr>)\<rparr>) v')
      | Inl err \<Rightarrow> later v v' \<and> (err = ErrUserNotFound \<longrightarrow> v_users v i = None))"

text \<open>The session a store keeps for \<open>s\<close>, and what it hands back: a fresh ID, equal timestamps.\<close>

definition stored_session :: "(string \<rightharpoonup> Session) \<Rightarrow> Session \<Rightarrow> Session \<Rightarrow> Session \<Rightarrow> bool" where
  "stored_session m s s' st \<longleftrightarrow> (\<exists>i t x. (\<forall>y \<in> ran m. s_ID y \<noteq> i)
     \<and> s' = s\<lparr>s_ID := i, s_CreatedAt := t, s_LastUsedAt := t\<rparr>
     \<and> st = s'\<lparr>s_ExpiresAt := x\<rparr> \<and> micro x (s_ExpiresAt s))"

lemma stored_session_exact:
  assumes "\<forall>y \<in> ran m. s_ID y \<noteq> i"
  shows "stored_session m s (s\<lparr>s_ID := i, s_CreatedAt := t, s_LastUsedAt := t\<rparr>)
    (s\<lparr>s_ID := i, s_CreatedAt := t, s_LastUsedAt := t\<rparr>)"
  unfolding stored_session_def using assms
  by (intro exI[of _ i] exI[of _ t] exI[of _ "s_ExpiresAt s"]) (cases s, simp)

definition session_Create_spec :: "Session \<Rightarrow> vault \<Rightarrow> port_error + Session \<Rightarrow> vault \<Rightarrow> bool" where
  "session_Create_spec s v r v' =
     (case r of
        Inr s' \<Rightarrow> (\<exists>st. stored_session (v_sessions v) s s' st
          \<and> later (v\<lparr>v_sessions := (v_sessions v)(s_TokenHash s \<mapsto> st)\<rparr>) v')
      | Inl err \<Rightarrow> later v v')"

definition session_Get_spec :: "string \<Rightarrow> vault \<Rightarrow> port_error + Session \<Rightarrow> vault \<Rightarrow> bool" where
  "session_Get_spec h v r v' =
     (case r of
        Inr s' \<Rightarrow> (\<exists>s e t. v_sessions v h = Some s \<and> s' = s\<lparr>s_UserEmail := e, s_LastUsedAt := t\<rparr>
          \<and> later (v\<lparr>v_sessions := (v_sessions v)(h \<mapsto> s\<lparr>s_LastUsedAt := t\<rparr>)\<rparr>) v')
      | Inl err \<Rightarrow> later v v' \<and> (err = ErrSessionNotFound \<longrightarrow> v_sessions v h = None))"

definition session_DeleteByID_spec :: "string \<Rightarrow> string \<Rightarrow> vault \<Rightarrow> port_error + string \<Rightarrow> vault \<Rightarrow> bool" where
  "session_DeleteByID_spec i uid v r v' =
     (case r of
        Inr h \<Rightarrow> (\<exists>s. v_sessions v h = Some s \<and> s_ID s = i \<and> s_UserID s = uid
          \<and> later (v\<lparr>v_sessions := (v_sessions v)(h := None)\<rparr>) v')
      | Inl err \<Rightarrow> later v v' \<and> (err = ErrSessionNotFound \<longrightarrow>
          (\<forall>s \<in> ran (v_sessions v). \<not> (s_ID s = i \<and> s_UserID s = uid))))"

definition session_Delete_spec :: "string \<Rightarrow> vault \<Rightarrow> port_error + unit \<Rightarrow> vault \<Rightarrow> bool" where
  "session_Delete_spec h v r v' =
     (case r of
        Inr _ \<Rightarrow> later (v\<lparr>v_sessions := (v_sessions v)(h := None)\<rparr>) v'
      | Inl err \<Rightarrow> later v v')"

definition session_Rotate_spec :: "string \<Rightarrow> Session \<Rightarrow> vault \<Rightarrow> port_error + Session \<Rightarrow> vault \<Rightarrow> bool" where
  "session_Rotate_spec old s v r v' =
     (case r of
        Inr s' \<Rightarrow> old \<in> dom (v_sessions v)
          \<and> (\<exists>st. stored_session ((v_sessions v)(old := None)) s s' st
          \<and> later (v\<lparr>v_sessions := ((v_sessions v)(old := None))(s_TokenHash s \<mapsto> st)\<rparr>) v')
      | Inl err \<Rightarrow> later v v' \<and> (err = ErrSessionNotFound \<longrightarrow> v_sessions v old = None))"

definition user_hashes :: "(string \<rightharpoonup> Session) \<Rightarrow> string \<Rightarrow> string set" where
  "user_hashes m uid = {h. \<exists>s. m h = Some s \<and> s_UserID s = uid}"

definition session_DeleteAll_spec ::
  "string \<Rightarrow> string set \<Rightarrow> vault \<Rightarrow> string list \<times> port_error option \<Rightarrow> vault \<Rightarrow> bool" where
  "session_DeleteAll_spec uid keep v r v' =
     (let dead = user_hashes (v_sessions v) uid - keep;
          gone = v\<lparr>v_sessions := (v_sessions v) |` (- dead)\<rparr>
      in case r of
           (hs, None) \<Rightarrow> set hs = dead \<and> distinct hs \<and> later gone v'
         | (hs, Some err) \<Rightarrow> set hs \<subseteq> dead \<and> (later v v' \<or> later gone v'))"

lemma session_DeleteAll_cases:
  assumes "session_DeleteAll_spec uid keep v r v'"
  obtains hs err where "r = (hs, Some err)" "frame v v'" "set hs \<subseteq> user_hashes (v_sessions v) uid - keep"
    | hs err where "r = (hs, err)" "set hs \<subseteq> user_hashes (v_sessions v) uid - keep"
      "err = None \<longrightarrow> set hs = user_hashes (v_sessions v) uid - keep \<and> distinct hs"
      "frame (v\<lparr>v_sessions := v_sessions v |` (- (user_hashes (v_sessions v) uid - keep))\<rparr>) v'"
proof (cases "snd r")
  case None
  with assms show thesis
    using that(2)[of "fst r" None] later_frame by (cases r) (simp add: session_DeleteAll_spec_def Let_def)
next
  case (Some err)
  with assms show thesis
    using that(1)[of "fst r" err] that(2)[of "fst r" "Some err"] later_frame
    by (cases r) (auto simp: session_DeleteAll_spec_def Let_def simp del: Compl_Diff_eq)
qed

definition session_List_spec ::
  "string \<Rightarrow> vault \<Rightarrow> Session list \<times> port_error option \<Rightarrow> vault \<Rightarrow> bool" where
  "session_List_spec uid v r v' \<longleftrightarrow> later v v' \<and>
     (snd r = None \<longrightarrow> set (fst r) = {s \<in> ran (v_sessions v). s_UserID s = uid}
        \<and> distinct (map s_TokenHash (fst r)))"

text \<open>
  \<open>x\<close> is the expiry of an entry written with a time to live between two clock readings. A remote
  server rounds to milliseconds.
\<close>

definition slack :: "vault \<Rightarrow> duration" where
  "slack v = (if v_remote v then 2000000 else 0)"

definition expiry :: "vault \<Rightarrow> duration \<Rightarrow> vault \<Rightarrow> time \<Rightarrow> bool" where
  "expiry v ttl v' x \<longleftrightarrow> v_now v + ttl - slack v \<le> x \<and> x \<le> v_now v' + ttl + slack v"

definition cache_Set_spec ::
  "string \<Rightarrow> CachedSession \<Rightarrow> duration \<Rightarrow> vault \<Rightarrow> port_error option \<Rightarrow> vault \<Rightarrow> bool" where
  "cache_Set_spec h c ttl v r v' =
     (case r of
        None \<Rightarrow> (\<exists>x. expiry v ttl v' x \<and> later (v\<lparr>v_cache := (v_cache v)(h \<mapsto> (c, x))\<rparr>) v')
      | Some err \<Rightarrow> later v v' \<or> v_remote v \<and> (\<exists>x. later (v\<lparr>v_cache := (v_cache v)(h \<mapsto> (c, x))\<rparr>) v'))"

definition cache_Get_spec :: "string \<Rightarrow> vault \<Rightarrow> port_error + CachedSession \<Rightarrow> vault \<Rightarrow> bool" where
  "cache_Get_spec h v r v' =
     (case r of
        Inr c \<Rightarrow> later v v' \<and> (\<exists>x. v_cache v h = Some (c, x) \<and> v_now v' \<le> x)
      | Inl err \<Rightarrow> (\<exists>m. m \<subseteq>\<^sub>m v_cache v \<and> later (v\<lparr>v_cache := m\<rparr>) v'))"

definition cache_Delete_spec :: "string \<Rightarrow> vault \<Rightarrow> port_error option \<Rightarrow> vault \<Rightarrow> bool" where
  "cache_Delete_spec h v r v' =
     (case r of
        None \<Rightarrow> later (v\<lparr>v_cache := (v_cache v)(h := None)\<rparr>) v'
      | Some err \<Rightarrow> later v v' \<or> v_remote v \<and> later (v\<lparr>v_cache := (v_cache v)(h := None)\<rparr>) v')"

definition otp_Save_spec ::
  "string \<Rightarrow> OTPRecord \<Rightarrow> duration \<Rightarrow> vault \<Rightarrow> port_error option \<Rightarrow> vault \<Rightarrow> bool" where
  "otp_Save_spec k rec ttl v r v' =
     (case r of
        None \<Rightarrow> (\<exists>x. expiry v ttl v' x \<and> later (v\<lparr>v_otps := (v_otps v)(k \<mapsto> (rec, x))\<rparr>) v')
      | Some err \<Rightarrow> later v v' \<or> v_remote v \<and> (\<exists>x. later (v\<lparr>v_otps := (v_otps v)(k \<mapsto> (rec, x))\<rparr>) v'))"

definition gone_or_expired :: "(string \<rightharpoonup> 'a \<times> time) \<Rightarrow> string \<Rightarrow> time \<Rightarrow> bool" where
  "gone_or_expired m k t \<longleftrightarrow> (case m k of None \<Rightarrow> True | Some (_, x) \<Rightarrow> x \<le> t)"

definition otp_Get_spec :: "string \<Rightarrow> vault \<Rightarrow> port_error + OTPRecord \<Rightarrow> vault \<Rightarrow> bool" where
  "otp_Get_spec k v r v' =
     (case r of
        Inr rec \<Rightarrow> later v v' \<and> (\<exists>x. v_otps v k = Some (rec, x) \<and> v_now v' \<le> x)
      | Inl err \<Rightarrow> (\<exists>m \<in> {v_otps v, (v_otps v)(k := None)}. later (v\<lparr>v_otps := m\<rparr>) v')
          \<and> (err = ErrResetCodeNotFound \<longrightarrow> gone_or_expired (v_otps v) k (v_now v' + slack v)))"

text \<open>A remote store counts exactly up to a million; a code whose count outgrows that is lost.\<close>

definition otp_Incr_spec :: "string \<Rightarrow> vault \<Rightarrow> port_error + int \<Rightarrow> vault \<Rightarrow> bool" where
  "otp_Incr_spec k v r v' =
     (case r of
        Inr n \<Rightarrow> (\<exists>rec x. v_otps v k = Some (rec, x) \<and> n = o_Attempts rec + 1
          \<and> later (v\<lparr>v_otps := (v_otps v)(k \<mapsto> (rec\<lparr>o_Attempts := n\<rparr>, x))\<rparr>) v')
          \<or> v_remote v \<and> 1000000 \<le> n \<and> later (v\<lparr>v_otps := (v_otps v)(k := None)\<rparr>) v'
      | Inl err \<Rightarrow> ((\<exists>m \<in> {v_otps v, (v_otps v)(k := None)}. later (v\<lparr>v_otps := m\<rparr>) v')
            \<or> v_remote v \<and> (\<exists>rec x. v_otps v k = Some (rec, x)
                \<and> later (v\<lparr>v_otps := (v_otps v)(k \<mapsto> (rec\<lparr>o_Attempts := o_Attempts rec + 1\<rparr>, x))\<rparr>) v'))
          \<and> (err = ErrResetCodeNotFound \<longrightarrow> gone_or_expired (v_otps v) k (v_now v' + slack v)))"

definition otp_Delete_spec :: "string \<Rightarrow> vault \<Rightarrow> port_error option \<Rightarrow> vault \<Rightarrow> bool" where
  "otp_Delete_spec k v r v' =
     (case r of
        None \<Rightarrow> later (v\<lparr>v_otps := (v_otps v)(k := None)\<rparr>) v'
      | Some err \<Rightarrow> later v v' \<or> v_remote v \<and> later (v\<lparr>v_otps := (v_otps v)(k := None)\<rparr>) v')"

definition reset_Save_spec ::
  "string \<Rightarrow> ResetTokenRecord \<Rightarrow> duration \<Rightarrow> vault \<Rightarrow> port_error option \<Rightarrow> vault \<Rightarrow> bool" where
  "reset_Save_spec h rec ttl v r v' =
     (case r of
        None \<Rightarrow> (\<exists>x. expiry v ttl v' x \<and> later (v\<lparr>v_resets := (v_resets v)(h \<mapsto> (rec, x))\<rparr>) v')
      | Some err \<Rightarrow> later v v' \<or> v_remote v \<and> (\<exists>x. later (v\<lparr>v_resets := (v_resets v)(h \<mapsto> (rec, x))\<rparr>) v'))"

definition reset_Get_spec :: "string \<Rightarrow> vault \<Rightarrow> port_error + ResetTokenRecord \<Rightarrow> vault \<Rightarrow> bool" where
  "reset_Get_spec h v r v' =
     (case r of
        Inr rec \<Rightarrow> later v v' \<and> (\<exists>x. v_resets v h = Some (rec, x) \<and> v_now v' \<le> x)
      | Inl err \<Rightarrow> (\<exists>m \<in> {v_resets v, (v_resets v)(h := None)}. later (v\<lparr>v_resets := m\<rparr>) v')
          \<and> (err = ErrResetTokenNotFound \<longrightarrow> gone_or_expired (v_resets v) h (v_now v' + slack v)))"

definition reset_Delete_spec :: "string \<Rightarrow> vault \<Rightarrow> port_error option \<Rightarrow> vault \<Rightarrow> bool" where
  "reset_Delete_spec h v r v' =
     (case r of
        None \<Rightarrow> later (v\<lparr>v_resets := (v_resets v)(h := None)\<rparr>) v'
      | Some err \<Rightarrow> later v v' \<or> v_remote v \<and> later (v\<lparr>v_resets := (v_resets v)(h := None)\<rparr>) v')"

lemmas port_specs =
  user_Create_spec_def user_GetByEmail_spec_def user_GetByID_spec_def user_Update_spec_def
  session_Create_spec_def session_Get_spec_def session_DeleteByID_spec_def session_Delete_spec_def
  session_Rotate_spec_def session_DeleteAll_spec_def session_List_spec_def
  cache_Set_spec_def cache_Get_spec_def cache_Delete_spec_def
  otp_Save_spec_def otp_Get_spec_def otp_Incr_spec_def otp_Delete_spec_def
  reset_Save_spec_def reset_Get_spec_def reset_Delete_spec_def

section \<open>The contracts\<close>

text \<open>
  \<open>inv\<close> is the representation invariant of the world, \<open>view\<close> its abstraction. A stored
  digest must be new and not empty, the store chooses the ID, and the e-mail address is not part of
  a stored session: preconditions that the service meets. \<open>sure\<close> says that the session store is a local one, whose bulk deletions cannot
  fail; the service only logs such failures.
\<close>

definition new_session :: "vault \<Rightarrow> Session \<Rightarrow> bool" where
  "new_session v s \<longleftrightarrow> s_ID s = [] \<and> s_UserEmail s = [] \<and> s_TokenHash s \<noteq> [] \<and> s_TokenHash s \<notin> dom (v_sessions v)"

locale runtime_env =
  fixes C :: crypto
    and inv :: "'w \<Rightarrow> bool"
    and view :: "'w \<Rightarrow> vault"
    and R :: "'w runtime"
  assumes sha256_length: "inv w \<Longrightarrow> length (sha256 C s) = 32"
    and argon: "inv w \<Longrightarrow> argon2_total C"
    and now: "inv w \<Longrightarrow> wp (Now R) (\<lambda>t w'. inv w' \<and> later (view w) (view w') \<and> t = v_now (view w')) w"
    and read: "inv w \<Longrightarrow> wp (Read R n) (\<lambda>r w'. inv w' \<and>
       (\<exists>X \<subseteq> v_unused (view w). later ((view w)\<lparr>v_unused := X\<rparr>) (view w') \<and>
          (\<forall>b. r = Inr b \<longrightarrow> length b = n \<and>
             (n = 32 \<longrightarrow> Hash C (b64_padded b64_url b) \<in> v_unused (view w) - X)))) w"
    and go: "inv w \<Longrightarrow> wp (Go R t) (\<lambda>_ w'. inv w' \<and>
       later ((view w)\<lparr>v_tasks := v_tasks (view w) @ [t]\<rparr>) (view w')) w"
begin

lemma Hash_nonempty: "inv w \<Longrightarrow> Hash C s \<noteq> []"
proof
  assume "Hash C s = []" "inv w"
  then have "length (hex_encode (sha256 C s)) = 0" by (simp add: Hash_def)
  with \<open>inv w\<close> show False by (simp add: sha256_length)
qed

lemma wp_Now:
  assumes "inv w"
    and "\<And>w'. inv w' \<Longrightarrow> frame (view w) (view w') \<Longrightarrow> Q (v_now (view w')) w'"
  shows "wp (Now R) Q w"
  by (rule wp_mono[OF now[OF assms(1)]]) (auto split: sum.splits option.splits dest!: later_frame intro: assms(2-))

lemma wp_Go:
  assumes "inv w"
    and "\<And>w'. inv w' \<Longrightarrow> frame (view w) (view w') \<Longrightarrow> Q () w'"
  shows "wp (Go R t) Q w"
  by (rule wp_mono[OF go[OF assms(1)]]) (auto simp: later_def frame_def intro!: assms(2))

lemma wp_Read:
  assumes "inv w"
    and "\<And>err w'. inv w' \<Longrightarrow> frame (view w) (view w') \<Longrightarrow> Q (Inl err) w'"
    and "\<And>b w'. inv w' \<Longrightarrow> length b = n \<Longrightarrow> frame (view w) (view w') \<Longrightarrow>
      (n = 32 \<longrightarrow> Hash C (b64_padded b64_url b) \<in> v_unused (view w) - v_unused (view w')) \<Longrightarrow> Q (Inr b) w'"
  shows "wp (Read R n) Q w"
proof (rule wp_mono[OF read[OF assms(1)]], elim conjE exE)
  fix r :: "string + string" and w' X
  assume "inv w'" and X: "X \<subseteq> v_unused (view w)" "later ((view w)\<lparr>v_unused := X\<rparr>) (view w')"
    and b: "\<forall>b. r = Inr b \<longrightarrow> length b = n \<and>
             (n = 32 \<longrightarrow> Hash C (b64_padded b64_url b) \<in> v_unused (view w) - X)"
  from X have "frame (view w) (view w')" "v_unused (view w') = X"
    by (auto simp: later_def frame_def)
  with b \<open>inv w'\<close> show "Q r w'" by (cases r) (auto intro!: assms(2,3))
qed

lemma wp_token_Generate_new:
  assumes "inv w"
    and "\<And>err w'. inv w' \<Longrightarrow> frame (view w) (view w') \<Longrightarrow> Q (Inl err) w'"
    and "\<And>plain w'. inv w' \<Longrightarrow> frame (view w) (view w') \<Longrightarrow>
      Hash C plain \<in> v_unused (view w) - v_unused (view w') \<Longrightarrow> Q (Inr (plain, Hash C plain)) w'"
  shows "wp (token_Generate C R) Q w"
  by (rule wp_token_Generate, rule wp_Read[OF assms(1)]) (auto intro!: assms(2,3))

lemma wp_otp_Generate_frame:
  assumes "inv w"
    and "\<And>err w'. inv w' \<Longrightarrow> frame (view w) (view w') \<Longrightarrow> Q (Inl err) w'"
    and "\<And>otp w'. inv w' \<Longrightarrow> frame (view w) (view w') \<Longrightarrow> Q (Inr otp) w'"
  shows "wp (otp_Generate R) Q w"
  by (rule wp_otp_Generate, rule wp_Read[OF assms(1)]) (auto intro!: assms(2,3))

lemma wp_password_Hash_frame:
  assumes "inv w"
    and "\<And>err w'. inv w' \<Longrightarrow> frame (view w) (view w') \<Longrightarrow> Q (Some (Inl err)) w'"
    and "\<And>h w'. inv w' \<Longrightarrow> frame (view w) (view w') \<Longrightarrow>
      password_Verify C p h = Some (Inr True) \<Longrightarrow> Q (Some (Inr h)) w'"
  shows "wp (password_Hash C R p) Q w"
  unfolding password_Hash_def wp_simps
proof (rule wp_Read[OF assms(1)])
  fix salt w'
  assume w': "inv w'" "frame (view w) (view w')"
  obtain h where h: "IDKey C p salt argon_iterations argon_memory argon_parallelism keyLen = Some h"
    and "length h = 32" using argon_key[OF argon[OF w'(1)]] by metis
  with w' Verify_encode_hash[OF argon[OF w'(1)]] show "Q (case Inr salt of Inl err \<Rightarrow> Some (Inl (''generate salt: '' @ err))
      | Inr salt \<Rightarrow> (case IDKey C p salt argon_iterations argon_memory argon_parallelism keyLen of
             None \<Rightarrow> None | Some hash \<Rightarrow> Some (Inr (encode_hash salt hash)))) w'"
    by (auto intro!: assms(3))
qed (auto intro!: assms(2))

lemmas runtime_rules = wp_Now wp_Go wp_token_Generate_new wp_otp_Generate_frame wp_password_Hash_frame

end

locale user_store =
  fixes inv :: "'w \<Rightarrow> bool"
    and view :: "'w \<Rightarrow> vault"
    and U :: "'w UserStore"
  assumes us_Create: "inv w \<Longrightarrow>
      wp (us_Create U e h) (\<lambda>r w'. inv w' \<and> user_Create_spec e h (view w) r (view w')) w"
    and us_GetByEmail: "inv w \<Longrightarrow>
      wp (us_GetByEmail U e) (\<lambda>r w'. inv w' \<and> user_GetByEmail_spec e (view w) r (view w')) w"
    and us_GetByID: "inv w \<Longrightarrow>
      wp (us_GetByID U i) (\<lambda>r w'. inv w' \<and> user_GetByID_spec i (view w) r (view w')) w"
    and us_Update: "inv w \<Longrightarrow>
      wp (us_UpdatePasswordHash U i h) (\<lambda>r w'. inv w' \<and> user_Update_spec i h (view w) r (view w')) w"
begin

lemma wp_us_Create:
  assumes "inv w"
    and "\<And>err w'. inv w' \<Longrightarrow> frame (view w) (view w') \<Longrightarrow> (err = ErrUserAlreadyExists \<longrightarrow> (\<exists>x \<in> ran (v_users (view w)). u_Email x = e)) \<Longrightarrow> Q (Inl err) w'"
    and "\<And>u w'. inv w' \<Longrightarrow> u_Email u = e \<Longrightarrow> u_PasswordHash u = h \<Longrightarrow> u_ID u \<notin> dom (v_users (view w)) \<Longrightarrow> (\<forall>x \<in> ran (v_users (view w)). u_Email x \<noteq> e) \<Longrightarrow> frame ((view w)\<lparr>v_users := (v_users (view w))(u_ID u \<mapsto> u)\<rparr>) (view w') \<Longrightarrow> Q (Inr u) w'"
  shows "wp (us_Create U e h) Q w"
  by (rule wp_mono[OF us_Create[OF assms(1)]]) (auto simp: user_Create_spec_def split: sum.splits option.splits dest!: later_frame intro: assms(2-))

lemma wp_us_GetByEmail:
  assumes "inv w"
    and "\<And>err w'. inv w' \<Longrightarrow> frame (view w) (view w') \<Longrightarrow> (err = ErrUserNotFound \<longrightarrow> (\<forall>x \<in> ran (v_users (view w)). u_Email x \<noteq> e)) \<Longrightarrow> Q (Inl err) w'"
    and "\<And>u w'. inv w' \<Longrightarrow> frame (view w) (view w') \<Longrightarrow> v_users (view w) (u_ID u) = Some u \<Longrightarrow> u_Email u = e \<Longrightarrow> Q (Inr u) w'"
  shows "wp (us_GetByEmail U e) Q w"
  by (rule wp_mono[OF us_GetByEmail[OF assms(1)]]) (auto simp: user_GetByEmail_spec_def split: sum.splits option.splits dest!: later_frame intro: assms(2-))

lemma wp_us_GetByID:
  assumes "inv w"
    and "\<And>err w'. inv w' \<Longrightarrow> frame (view w) (view w') \<Longrightarrow> (err = ErrUserNotFound \<longrightarrow> v_users (view w) i = None) \<Longrightarrow> Q (Inl err) w'"
    and "\<And>u w'. inv w' \<Longrightarrow> frame (view w) (view w') \<Longrightarrow> v_users (view w) i = Some u \<Longrightarrow> Q (Inr u) w'"
  shows "wp (us_GetByID U i) Q w"
  by (rule wp_mono[OF us_GetByID[OF assms(1)]]) (auto simp: user_GetByID_spec_def split: sum.splits option.splits dest!: later_frame intro: assms(2-))

lemma wp_us_Update:
  assumes "inv w"
    and "\<And>err w'. inv w' \<Longrightarrow> frame (view w) (view w') \<Longrightarrow> (err = ErrUserNotFound \<longrightarrow> v_users (view w) i = None) \<Longrightarrow> Q (Inl err) w'"
    and "\<And>u t w'. inv w' \<Longrightarrow> v_users (view w) i = Some u \<Longrightarrow> frame ((view w)\<lparr>v_users := (v_users (view w))(i \<mapsto> u\<lparr>u_PasswordHash := h, u_UpdatedAt := t\<rparr>)\<rparr>) (view w') \<Longrightarrow> Q (Inr ()) w'"
  shows "wp (us_UpdatePasswordHash U i h) Q w"
  by (rule wp_mono[OF us_Update[OF assms(1)]]) (auto simp: user_Update_spec_def split: sum.splits option.splits dest!: later_frame intro: assms(2-))

lemmas user_rules = wp_us_Create wp_us_GetByEmail wp_us_GetByID wp_us_Update

end

locale session_store =
  fixes inv :: "'w \<Rightarrow> bool"
    and view :: "'w \<Rightarrow> vault"
    and S :: "'w SessionStore"
    and sure :: bool
  assumes ss_Create: "inv w \<Longrightarrow> new_session (view w) s \<Longrightarrow>
      wp (ss_Create S s) (\<lambda>r w'. inv w' \<and> session_Create_spec s (view w) r (view w')) w"
    and ss_Get: "inv w \<Longrightarrow>
      wp (ss_GetByTokenHash S h) (\<lambda>r w'. inv w' \<and> session_Get_spec h (view w) r (view w')) w"
    and ss_DeleteByID: "inv w \<Longrightarrow>
      wp (ss_DeleteByID S i uid) (\<lambda>r w'. inv w' \<and> session_DeleteByID_spec i uid (view w) r (view w')) w"
    and ss_Delete: "inv w \<Longrightarrow>
      wp (ss_DeleteByTokenHash S h) (\<lambda>r w'. inv w' \<and> session_Delete_spec h (view w) r (view w')) w"
    and ss_Rotate: "inv w \<Longrightarrow> new_session (view w) s \<Longrightarrow>
      wp (ss_RotateToken S old s) (\<lambda>r w'. inv w' \<and> session_Rotate_spec old s (view w) r (view w')) w"
    and ss_Rotate_gone: "inv w \<Longrightarrow> v_sessions (view w) old = None \<Longrightarrow>
      wp (ss_RotateToken S old s) (\<lambda>r w'. inv w' \<and> later (view w) (view w') \<and> (\<exists>e. r = Inl e)) w"
    and ss_DeleteAll: "inv w \<Longrightarrow>
      wp (ss_DeleteAllByUserID S uid) (\<lambda>r w'. inv w' \<and> session_DeleteAll_spec uid {} (view w) r (view w')
        \<and> (sure \<longrightarrow> snd r = None)) w"
    and ss_DeleteAllExcept: "inv w \<Longrightarrow>
      wp (ss_DeleteAllByUserIDExcept S uid keep)
        (\<lambda>r w'. inv w' \<and> session_DeleteAll_spec uid {keep} (view w) r (view w')
          \<and> (sure \<longrightarrow> snd r = None)) w"
    and ss_List: "inv w \<Longrightarrow>
      wp (ss_ListByUserID S uid) (\<lambda>r w'. inv w' \<and> session_List_spec uid (view w) r (view w')) w"
begin

lemma wp_ss_Create:
  assumes "inv w" "new_session (view w) s"
    and "\<And>err w'. inv w' \<Longrightarrow> frame (view w) (view w') \<Longrightarrow> Q (Inl err) w'"
    and "\<And>s' st w'. inv w' \<Longrightarrow> stored_session (v_sessions (view w)) s s' st \<Longrightarrow> frame ((view w)\<lparr>v_sessions := (v_sessions (view w))(s_TokenHash s \<mapsto> st)\<rparr>) (view w') \<Longrightarrow> Q (Inr s') w'"
  shows "wp (ss_Create S s) Q w"
  by (rule wp_mono[OF ss_Create[OF assms(1) assms(2)]]) (auto simp: session_Create_spec_def split: sum.splits option.splits dest!: later_frame intro: assms(3-))

lemma wp_ss_Get:
  assumes "inv w"
    and "\<And>err w'. inv w' \<Longrightarrow> frame (view w) (view w') \<Longrightarrow> (err = ErrSessionNotFound \<longrightarrow> v_sessions (view w) h = None) \<Longrightarrow> Q (Inl err) w'"
    and "\<And>x e t w'. inv w' \<Longrightarrow> v_sessions (view w) h = Some x \<Longrightarrow> frame ((view w)\<lparr>v_sessions := (v_sessions (view w))(h \<mapsto> x\<lparr>s_LastUsedAt := t\<rparr>)\<rparr>) (view w') \<Longrightarrow> Q (Inr (x\<lparr>s_UserEmail := e, s_LastUsedAt := t\<rparr>)) w'"
  shows "wp (ss_GetByTokenHash S h) Q w"
  by (rule wp_mono[OF ss_Get[OF assms(1)]]) (auto simp: session_Get_spec_def split: sum.splits option.splits dest!: later_frame intro: assms(2-))

lemma wp_ss_DeleteByID:
  assumes "inv w"
    and "\<And>err w'. inv w' \<Longrightarrow> frame (view w) (view w') \<Longrightarrow> (err = ErrSessionNotFound \<longrightarrow> (\<forall>x \<in> ran (v_sessions (view w)). \<not> (s_ID x = i \<and> s_UserID x = uid))) \<Longrightarrow> Q (Inl err) w'"
    and "\<And>h x w'. inv w' \<Longrightarrow> v_sessions (view w) h = Some x \<Longrightarrow> s_ID x = i \<Longrightarrow> s_UserID x = uid \<Longrightarrow> frame ((view w)\<lparr>v_sessions := (v_sessions (view w))(h := None)\<rparr>) (view w') \<Longrightarrow> Q (Inr h) w'"
  shows "wp (ss_DeleteByID S i uid) Q w"
  by (rule wp_mono[OF ss_DeleteByID[OF assms(1)]]) (auto simp: session_DeleteByID_spec_def split: sum.splits option.splits dest!: later_frame intro: assms(2-))

lemma wp_ss_Delete:
  assumes "inv w"
    and "\<And>err w'. inv w' \<Longrightarrow> frame (view w) (view w') \<Longrightarrow> Q (Inl err) w'"
    and "\<And>w'. inv w' \<Longrightarrow> frame ((view w)\<lparr>v_sessions := (v_sessions (view w))(h := None)\<rparr>) (view w') \<Longrightarrow> Q (Inr ()) w'"
  shows "wp (ss_DeleteByTokenHash S h) Q w"
  by (rule wp_mono[OF ss_Delete[OF assms(1)]]) (auto simp: session_Delete_spec_def split: sum.splits option.splits dest!: later_frame intro: assms(2-))

lemma wp_ss_Rotate:
  assumes "inv w" "new_session (view w) s"
    and "\<And>err w'. inv w' \<Longrightarrow> frame (view w) (view w') \<Longrightarrow> (err = ErrSessionNotFound \<longrightarrow> v_sessions (view w) old = None) \<Longrightarrow> Q (Inl err) w'"
    and "\<And>s' st x w'. inv w' \<Longrightarrow> v_sessions (view w) old = Some x \<Longrightarrow> stored_session ((v_sessions (view w))(old := None)) s s' st \<Longrightarrow> frame ((view w)\<lparr>v_sessions := ((v_sessions (view w))(old := None))(s_TokenHash s \<mapsto> st)\<rparr>) (view w') \<Longrightarrow> Q (Inr s') w'"
  shows "wp (ss_RotateToken S old s) Q w"
  by (rule wp_mono[OF ss_Rotate[OF assms(1) assms(2)]]) (auto simp: session_Rotate_spec_def split: sum.splits option.splits dest!: later_frame intro: assms(3-))

lemma wp_ss_DeleteAll:
  assumes "inv w"
    and "\<And>hs err w'. inv w' \<Longrightarrow> frame (view w) (view w') \<Longrightarrow> set hs \<subseteq> user_hashes (v_sessions (view w)) uid \<Longrightarrow> \<not> sure \<Longrightarrow> Q (hs, Some err) w'"
    and "\<And>hs err w'. inv w' \<Longrightarrow> set hs \<subseteq> user_hashes (v_sessions (view w)) uid \<Longrightarrow> (err = None \<longrightarrow> set hs = user_hashes (v_sessions (view w)) uid \<and> distinct hs) \<Longrightarrow> (sure \<longrightarrow> err = None) \<Longrightarrow> frame ((view w)\<lparr>v_sessions := v_sessions (view w) |` (- user_hashes (v_sessions (view w)) uid)\<rparr>) (view w') \<Longrightarrow> Q (hs, err) w'"
  shows "wp (ss_DeleteAllByUserID S uid) Q w"
proof (rule wp_mono[OF ss_DeleteAll[OF assms(1)]], elim conjE)
  fix r w'
  assume "inv w'" and "session_DeleteAll_spec uid {} (view w) r (view w')" and "sure \<longrightarrow> snd r = None"
  from this(2) this(1,3) show "Q r w'"
    by (cases rule: session_DeleteAll_cases) (use assms(2,3) in \<open>simp_all del: Compl_Diff_eq\<close>)
qed

lemma wp_ss_DeleteAllExcept:
  assumes "inv w"
    and "\<And>hs err w'. inv w' \<Longrightarrow> frame (view w) (view w') \<Longrightarrow> set hs \<subseteq> user_hashes (v_sessions (view w)) uid - {keep} \<Longrightarrow> \<not> sure \<Longrightarrow> Q (hs, Some err) w'"
    and "\<And>hs err w'. inv w' \<Longrightarrow> set hs \<subseteq> user_hashes (v_sessions (view w)) uid - {keep} \<Longrightarrow> (err = None \<longrightarrow> set hs = user_hashes (v_sessions (view w)) uid - {keep} \<and> distinct hs) \<Longrightarrow> (sure \<longrightarrow> err = None) \<Longrightarrow> frame ((view w)\<lparr>v_sessions := v_sessions (view w) |` (- (user_hashes (v_sessions (view w)) uid - {keep}))\<rparr>) (view w') \<Longrightarrow> Q (hs, err) w'"
  shows "wp (ss_DeleteAllByUserIDExcept S uid keep) Q w"
proof (rule wp_mono[OF ss_DeleteAllExcept[OF assms(1)]], elim conjE)
  fix r w'
  assume "inv w'" and "session_DeleteAll_spec uid {keep} (view w) r (view w')" and "sure \<longrightarrow> snd r = None"
  from this(2) this(1,3) show "Q r w'"
    by (cases rule: session_DeleteAll_cases) (use assms(2,3) in \<open>simp_all del: Compl_Diff_eq\<close>)
qed

lemma wp_ss_List:
  assumes "inv w"
    and "\<And>xs err w'. inv w' \<Longrightarrow> frame (view w) (view w') \<Longrightarrow> (err = None \<longrightarrow> set xs = {x \<in> ran (v_sessions (view w)). s_UserID x = uid} \<and> distinct (map s_TokenHash xs)) \<Longrightarrow> Q (xs, err) w'"
  shows "wp (ss_ListByUserID S uid) Q w"
  by (rule wp_mono[OF ss_List[OF assms(1)]]) (auto simp: session_List_spec_def split: sum.splits option.splits dest!: later_frame intro: assms(2-))

lemmas session_rules = wp_ss_Create wp_ss_Get wp_ss_DeleteByID wp_ss_Delete wp_ss_Rotate
  wp_ss_DeleteAll wp_ss_DeleteAllExcept wp_ss_List

end

locale session_cache =
  fixes inv :: "'w \<Rightarrow> bool"
    and view :: "'w \<Rightarrow> vault"
    and K :: "'w SessionCache"
  assumes sc_Set: "inv w \<Longrightarrow> 0 < ttl \<Longrightarrow>
      wp (sc_Set K h c ttl) (\<lambda>r w'. inv w' \<and> cache_Set_spec h c ttl (view w) r (view w')) w"
    and sc_Get: "inv w \<Longrightarrow>
      wp (sc_Get K h) (\<lambda>r w'. inv w' \<and> cache_Get_spec h (view w) r (view w')) w"
    and sc_Delete: "inv w \<Longrightarrow>
      wp (sc_Delete K h) (\<lambda>r w'. inv w' \<and> cache_Delete_spec h (view w) r (view w')) w"
begin

lemma wp_sc_Set:
  assumes "inv w" "0 < ttl"
    and "\<And>err w'. inv w' \<Longrightarrow> frame (view w) (view w') \<Longrightarrow> Q (Some err) w'"
    and "\<And>err x w'. inv w' \<Longrightarrow> v_remote (view w) \<Longrightarrow> frame ((view w)\<lparr>v_cache := (v_cache (view w))(h \<mapsto> (c, x))\<rparr>) (view w') \<Longrightarrow> Q (Some err) w'"
    and "\<And>x w'. inv w' \<Longrightarrow> expiry (view w) ttl (view w') x \<Longrightarrow> frame ((view w)\<lparr>v_cache := (v_cache (view w))(h \<mapsto> (c, x))\<rparr>) (view w') \<Longrightarrow> Q None w'"
  shows "wp (sc_Set K h c ttl) Q w"
  by (rule wp_mono[OF sc_Set[OF assms(1) assms(2)]]) (auto simp: cache_Set_spec_def split: sum.splits option.splits dest!: later_frame intro: assms(3-))

lemma wp_sc_Get:
  assumes "inv w"
    and "\<And>err m w'. inv w' \<Longrightarrow> m \<subseteq>\<^sub>m v_cache (view w) \<Longrightarrow> frame ((view w)\<lparr>v_cache := m\<rparr>) (view w') \<Longrightarrow> Q (Inl err) w'"
    and "\<And>c x w'. inv w' \<Longrightarrow> frame (view w) (view w') \<Longrightarrow> v_cache (view w) h = Some (c, x) \<Longrightarrow> v_now (view w') \<le> x \<Longrightarrow> Q (Inr c) w'"
  shows "wp (sc_Get K h) Q w"
  by (rule wp_mono[OF sc_Get[OF assms(1)]]) (auto simp: cache_Get_spec_def split: sum.splits option.splits dest!: later_frame intro: assms(2-))

lemma wp_sc_Delete:
  assumes "inv w"
    and "\<And>err w'. inv w' \<Longrightarrow> frame (view w) (view w') \<Longrightarrow> Q (Some err) w'"
    and "\<And>err w'. inv w' \<Longrightarrow> v_remote (view w) \<Longrightarrow> frame ((view w)\<lparr>v_cache := (v_cache (view w))(h := None)\<rparr>) (view w') \<Longrightarrow> Q (Some err) w'"
    and "\<And>w'. inv w' \<Longrightarrow> frame ((view w)\<lparr>v_cache := (v_cache (view w))(h := None)\<rparr>) (view w') \<Longrightarrow> Q None w'"
  shows "wp (sc_Delete K h) Q w"
  by (rule wp_mono[OF sc_Delete[OF assms(1)]]) (auto simp: cache_Delete_spec_def split: sum.splits option.splits dest!: later_frame intro: assms(2-))

lemmas cache_rules = wp_sc_Set wp_sc_Get wp_sc_Delete

end

locale reset_store =
  fixes C :: crypto
    and inv :: "'w \<Rightarrow> bool"
    and view :: "'w \<Rightarrow> vault"
    and P :: "'w PasswordResetStore"
  assumes rs_SaveOTP: "inv w \<Longrightarrow> 0 < ttl \<Longrightarrow>
      wp (rs_SaveOTP P uid email oh ttl) (\<lambda>r w'. inv w' \<and>
        otp_Save_spec (Hash C email) \<lparr>o_UserID = uid, o_OTPHash = oh, o_Attempts = 0\<rparr> ttl (view w) r (view w')) w"
    and rs_GetOTP: "inv w \<Longrightarrow>
      wp (rs_GetOTP P email) (\<lambda>r w'. inv w' \<and> otp_Get_spec (Hash C email) (view w) r (view w')) w"
    and rs_Incr: "inv w \<Longrightarrow>
      wp (rs_IncrOTPAttempts P email) (\<lambda>r w'. inv w' \<and> otp_Incr_spec (Hash C email) (view w) r (view w')) w"
    and rs_DeleteOTP: "inv w \<Longrightarrow>
      wp (rs_DeleteOTP P email) (\<lambda>r w'. inv w' \<and> otp_Delete_spec (Hash C email) (view w) r (view w')) w"
    and rs_SaveReset: "inv w \<Longrightarrow> 0 < ttl \<Longrightarrow>
      wp (rs_SaveResetToken P h uid email ttl) (\<lambda>r w'. inv w' \<and>
        reset_Save_spec h \<lparr>t_UserID = uid, t_Email = email\<rparr> ttl (view w) r (view w')) w"
    and rs_GetReset: "inv w \<Longrightarrow>
      wp (rs_GetResetToken P h) (\<lambda>r w'. inv w' \<and> reset_Get_spec h (view w) r (view w')) w"
    and rs_DeleteReset: "inv w \<Longrightarrow>
      wp (rs_DeleteResetToken P h) (\<lambda>r w'. inv w' \<and> reset_Delete_spec h (view w) r (view w')) w"
begin

lemma wp_rs_SaveOTP:
  assumes "inv w" "0 < ttl"
    and "\<And>err w'. inv w' \<Longrightarrow> frame (view w) (view w') \<Longrightarrow> Q (Some err) w'"
    and "\<And>err x w'. inv w' \<Longrightarrow> v_remote (view w) \<Longrightarrow> frame ((view w)\<lparr>v_otps := (v_otps (view w))(Hash C email \<mapsto> (\<lparr>o_UserID = uid, o_OTPHash = oh, o_Attempts = 0\<rparr>, x))\<rparr>) (view w') \<Longrightarrow> Q (Some err) w'"
    and "\<And>x w'. inv w' \<Longrightarrow> expiry (view w) ttl (view w') x \<Longrightarrow> frame ((view w)\<lparr>v_otps := (v_otps (view w))(Hash C email \<mapsto> (\<lparr>o_UserID = uid, o_OTPHash = oh, o_Attempts = 0\<rparr>, x))\<rparr>) (view w') \<Longrightarrow> Q None w'"
  shows "wp (rs_SaveOTP P uid email oh ttl) Q w"
  by (rule wp_mono[OF rs_SaveOTP[OF assms(1) assms(2)]]) (auto simp: otp_Save_spec_def split: sum.splits option.splits dest!: later_frame intro: assms(3-))

lemma wp_rs_GetOTP:
  assumes "inv w"
    and "\<And>err m w'. inv w' \<Longrightarrow> m \<in> {v_otps (view w), (v_otps (view w))(Hash C email := None)} \<Longrightarrow> frame ((view w)\<lparr>v_otps := m\<rparr>) (view w') \<Longrightarrow> (err = ErrResetCodeNotFound \<longrightarrow> gone_or_expired (v_otps (view w)) (Hash C email) (v_now (view w') + slack (view w))) \<Longrightarrow> Q (Inl err) w'"
    and "\<And>c x w'. inv w' \<Longrightarrow> frame (view w) (view w') \<Longrightarrow> v_otps (view w) (Hash C email) = Some (c, x) \<Longrightarrow> v_now (view w') \<le> x \<Longrightarrow> Q (Inr c) w'"
  shows "wp (rs_GetOTP P email) Q w"
proof (rule wp_mono[OF rs_GetOTP[OF assms(1)]], elim conjE)
  fix r w'
  assume i: "inv w'" and sp: "otp_Get_spec (Hash C email) (view w) r (view w')"
  show "Q r w'"
  proof (cases r)
    case (Inl err)
    with sp obtain m where m: "m \<in> {v_otps (view w), (v_otps (view w))((Hash C email) := None)}"
      "later ((view w)\<lparr>v_otps := m\<rparr>) (view w')"
      "err = ErrResetCodeNotFound \<longrightarrow> gone_or_expired (v_otps (view w)) (Hash C email) (v_now (view w') + slack (view w))"
      unfolding otp_Get_spec_def by (simp only: sum.case) blast
    show ?thesis unfolding Inl by (rule assms(2)[OF i m(1) later_frame[OF m(2)] m(3)])
  next
    case (Inr c)
    with sp i show ?thesis by (auto simp: otp_Get_spec_def dest: later_frame intro: assms(3))
  qed
qed

lemma wp_rs_Incr:
  assumes "inv w"
    and "\<And>err m w'. inv w' \<Longrightarrow> m \<in> {v_otps (view w), (v_otps (view w))(Hash C email := None)} \<Longrightarrow> frame ((view w)\<lparr>v_otps := m\<rparr>) (view w') \<Longrightarrow> (err = ErrResetCodeNotFound \<longrightarrow> gone_or_expired (v_otps (view w)) (Hash C email) (v_now (view w') + slack (view w))) \<Longrightarrow> Q (Inl err) w'"
    and "\<And>err c x w'. inv w' \<Longrightarrow> v_remote (view w) \<Longrightarrow> v_otps (view w) (Hash C email) = Some (c, x) \<Longrightarrow> frame ((view w)\<lparr>v_otps := (v_otps (view w))(Hash C email \<mapsto> (c\<lparr>o_Attempts := o_Attempts c + 1\<rparr>, x))\<rparr>) (view w') \<Longrightarrow> Q (Inl err) w'"
    and "\<And>c x w'. inv w' \<Longrightarrow> v_otps (view w) (Hash C email) = Some (c, x) \<Longrightarrow> frame ((view w)\<lparr>v_otps := (v_otps (view w))(Hash C email \<mapsto> (c\<lparr>o_Attempts := o_Attempts c + 1\<rparr>, x))\<rparr>) (view w') \<Longrightarrow> Q (Inr (o_Attempts c + 1)) w'"
    and "\<And>n w'. inv w' \<Longrightarrow> v_remote (view w) \<Longrightarrow> 1000000 \<le> n \<Longrightarrow> frame ((view w)\<lparr>v_otps := (v_otps (view w))(Hash C email := None)\<rparr>) (view w') \<Longrightarrow> Q (Inr n) w'"
  shows "wp (rs_IncrOTPAttempts P email) Q w"
proof (rule wp_mono[OF rs_Incr[OF assms(1)]], elim conjE)
  fix r w'
  assume i: "inv w'" and sp: "otp_Incr_spec (Hash C email) (view w) r (view w')"
  show "Q r w'"
  proof (cases r)
    case (Inl err)
    with sp consider m where "m \<in> {v_otps (view w), (v_otps (view w))((Hash C email) := None)}"
      "later ((view w)\<lparr>v_otps := m\<rparr>) (view w')"
      "err = ErrResetCodeNotFound \<longrightarrow> gone_or_expired (v_otps (view w)) (Hash C email) (v_now (view w') + slack (view w))"
    | rec x where "v_remote (view w)" "v_otps (view w) (Hash C email) = Some (rec, x)"
        "later ((view w)\<lparr>v_otps := (v_otps (view w))(Hash C email \<mapsto> (rec\<lparr>o_Attempts := o_Attempts rec + 1\<rparr>, x))\<rparr>) (view w')"
      unfolding otp_Incr_spec_def by (simp only: sum.case) blast
    then show ?thesis unfolding Inl
      by cases (blast intro: assms(2)[OF i] assms(3)[OF i] later_frame)+
  next
    case (Inr c)
    with sp i show ?thesis by (auto simp: otp_Incr_spec_def dest: later_frame intro: assms(4,5))
  qed
qed

lemma wp_rs_DeleteOTP:
  assumes "inv w"
    and "\<And>err w'. inv w' \<Longrightarrow> frame (view w) (view w') \<Longrightarrow> Q (Some err) w'"
    and "\<And>err w'. inv w' \<Longrightarrow> v_remote (view w) \<Longrightarrow> frame ((view w)\<lparr>v_otps := (v_otps (view w))(Hash C email := None)\<rparr>) (view w') \<Longrightarrow> Q (Some err) w'"
    and "\<And>w'. inv w' \<Longrightarrow> frame ((view w)\<lparr>v_otps := (v_otps (view w))(Hash C email := None)\<rparr>) (view w') \<Longrightarrow> Q None w'"
  shows "wp (rs_DeleteOTP P email) Q w"
  by (rule wp_mono[OF rs_DeleteOTP[OF assms(1)]]) (auto simp: otp_Delete_spec_def split: sum.splits option.splits dest!: later_frame intro: assms(2-))

lemma wp_rs_SaveReset:
  assumes "inv w" "0 < ttl"
    and "\<And>err w'. inv w' \<Longrightarrow> frame (view w) (view w') \<Longrightarrow> Q (Some err) w'"
    and "\<And>err x w'. inv w' \<Longrightarrow> v_remote (view w) \<Longrightarrow> frame ((view w)\<lparr>v_resets := (v_resets (view w))(h \<mapsto> (\<lparr>t_UserID = uid, t_Email = email\<rparr>, x))\<rparr>) (view w') \<Longrightarrow> Q (Some err) w'"
    and "\<And>x w'. inv w' \<Longrightarrow> expiry (view w) ttl (view w') x \<Longrightarrow> frame ((view w)\<lparr>v_resets := (v_resets (view w))(h \<mapsto> (\<lparr>t_UserID = uid, t_Email = email\<rparr>, x))\<rparr>) (view w') \<Longrightarrow> Q None w'"
  shows "wp (rs_SaveResetToken P h uid email ttl) Q w"
  by (rule wp_mono[OF rs_SaveReset[OF assms(1) assms(2)]]) (auto simp: reset_Save_spec_def split: sum.splits option.splits dest!: later_frame intro: assms(3-))

lemma wp_rs_GetReset:
  assumes "inv w"
    and "\<And>err m w'. inv w' \<Longrightarrow> m \<in> {v_resets (view w), (v_resets (view w))(h := None)} \<Longrightarrow> frame ((view w)\<lparr>v_resets := m\<rparr>) (view w') \<Longrightarrow> (err = ErrResetTokenNotFound \<longrightarrow> gone_or_expired (v_resets (view w)) h (v_now (view w') + slack (view w))) \<Longrightarrow> Q (Inl err) w'"
    and "\<And>c x w'. inv w' \<Longrightarrow> frame (view w) (view w') \<Longrightarrow> v_resets (view w) h = Some (c, x) \<Longrightarrow> v_now (view w') \<le> x \<Longrightarrow> Q (Inr c) w'"
  shows "wp (rs_GetResetToken P h) Q w"
proof (rule wp_mono[OF rs_GetReset[OF assms(1)]], elim conjE)
  fix r w'
  assume i: "inv w'" and sp: "reset_Get_spec h (view w) r (view w')"
  show "Q r w'"
  proof (cases r)
    case (Inl err)
    with sp obtain m where m: "m \<in> {v_resets (view w), (v_resets (view w))(h := None)}"
      "later ((view w)\<lparr>v_resets := m\<rparr>) (view w')"
      "err = ErrResetTokenNotFound \<longrightarrow> gone_or_expired (v_resets (view w)) h (v_now (view w') + slack (view w))"
      unfolding reset_Get_spec_def by (simp only: sum.case) blast
    show ?thesis unfolding Inl by (rule assms(2)[OF i m(1) later_frame[OF m(2)] m(3)])
  next
    case (Inr c)
    with sp i show ?thesis by (auto simp: reset_Get_spec_def dest: later_frame intro: assms(3))
  qed
qed

lemma wp_rs_DeleteReset:
  assumes "inv w"
    and "\<And>err w'. inv w' \<Longrightarrow> frame (view w) (view w') \<Longrightarrow> Q (Some err) w'"
    and "\<And>err w'. inv w' \<Longrightarrow> v_remote (view w) \<Longrightarrow> frame ((view w)\<lparr>v_resets := (v_resets (view w))(h := None)\<rparr>) (view w') \<Longrightarrow> Q (Some err) w'"
    and "\<And>w'. inv w' \<Longrightarrow> frame ((view w)\<lparr>v_resets := (v_resets (view w))(h := None)\<rparr>) (view w') \<Longrightarrow> Q None w'"
  shows "wp (rs_DeleteResetToken P h) Q w"
  by (rule wp_mono[OF rs_DeleteReset[OF assms(1)]]) (auto simp: reset_Delete_spec_def split: sum.splits option.splits dest!: later_frame intro: assms(2-))

lemmas reset_rules = wp_rs_SaveOTP wp_rs_GetOTP wp_rs_Incr wp_rs_DeleteOTP wp_rs_SaveReset
  wp_rs_GetReset wp_rs_DeleteReset

end

locale token_manager =
  fixes inv :: "'w \<Rightarrow> bool"
    and view :: "'w \<Rightarrow> vault"
    and T :: "'w AccessTokenManager"
  assumes tm_Generate: "inv w \<Longrightarrow>
      wp (tm_GenerateAccessToken T uid email roles) (\<lambda>_ w'. inv w' \<and> later (view w) (view w')) w"
    and tm_Validate: "inv w \<Longrightarrow>
      wp (tm_ValidateAccessToken T tok) (\<lambda>_ w'. inv w' \<and> later (view w) (view w')) w"
begin

lemma wp_tm_Generate:
  assumes "inv w"
    and "\<And>r w'. inv w' \<Longrightarrow> frame (view w) (view w') \<Longrightarrow> Q r w'"
  shows "wp (tm_GenerateAccessToken T uid email roles) Q w"
  by (rule wp_mono[OF tm_Generate[OF assms(1)]]) (auto split: sum.splits option.splits dest!: later_frame intro: assms(2-))

lemma wp_tm_Validate:
  assumes "inv w"
    and "\<And>r w'. inv w' \<Longrightarrow> frame (view w) (view w') \<Longrightarrow> Q r w'"
  shows "wp (tm_ValidateAccessToken T tok) Q w"
  by (rule wp_mono[OF tm_Validate[OF assms(1)]]) (auto split: sum.splits option.splits dest!: later_frame intro: assms(2-))

lemmas token_rules = wp_tm_Generate wp_tm_Validate

end

locale login_guard =
  fixes inv :: "'w \<Rightarrow> bool"
    and view :: "'w \<Rightarrow> vault"
    and G :: "'w GuardMethods option"
  assumes bg_IsLocked: "inv w \<Longrightarrow> G = Some g \<Longrightarrow>
      wp (bg_IsLocked g e) (\<lambda>_ w'. inv w' \<and> later (view w) (view w')) w"
    and bg_RecordFailure: "inv w \<Longrightarrow> G = Some g \<Longrightarrow>
      wp (bg_RecordFailure g e) (\<lambda>_ w'. inv w' \<and> later (view w) (view w')) w"
    and bg_Reset: "inv w \<Longrightarrow> G = Some g \<Longrightarrow>
      wp (bg_Reset g e) (\<lambda>_ w'. inv w' \<and> later (view w) (view w')) w"
begin

lemma wp_bg_IsLocked:
  assumes "inv w" "G = Some g"
    and "\<And>r w'. inv w' \<Longrightarrow> frame (view w) (view w') \<Longrightarrow> Q r w'"
  shows "wp (bg_IsLocked g e) Q w"
  by (rule wp_mono[OF bg_IsLocked[OF assms(1) assms(2)]]) (auto split: sum.splits option.splits dest!: later_frame intro: assms(3-))

lemma wp_bg_RecordFailure:
  assumes "inv w" "G = Some g"
    and "\<And>r w'. inv w' \<Longrightarrow> frame (view w) (view w') \<Longrightarrow> Q r w'"
  shows "wp (bg_RecordFailure g e) Q w"
  by (rule wp_mono[OF bg_RecordFailure[OF assms(1) assms(2)]]) (auto split: sum.splits option.splits dest!: later_frame intro: assms(3-))

lemma wp_bg_Reset:
  assumes "inv w" "G = Some g"
    and "\<And>w'. inv w' \<Longrightarrow> frame (view w) (view w') \<Longrightarrow> Q () w'"
  shows "wp (bg_Reset g e) Q w"
  by (rule wp_mono[OF bg_Reset[OF assms(1) assms(2)]]) (auto split: sum.splits option.splits dest!: later_frame intro: assms(3-))

lemmas guard_rules = wp_bg_IsLocked wp_bg_RecordFailure wp_bg_Reset

end

end
