(* ===== verification/Client_Info.thy ===== *)
theory Client_Info
  imports Domain
begin

text \<open>
  How the service and the interceptors find out who is calling: the client's address and
  user agent from the request metadata or the peer (\<^verbatim>\<open>extractClientInfo\<close> of the service,
  \<^verbatim>\<open>extractIP\<close>, \<^verbatim>\<open>peerIP\<close> and \<^verbatim>\<open>shortMethod\<close> of the interceptors).
\<close>

text \<open>\<^verbatim>\<open>md.Get(k)\<close> for a lower-case key; an absent key has no values.\<close>

definition md_Get :: "(string \<Rightarrow> string list) \<Rightarrow> string \<Rightarrow> string list" where
  "md_Get md k = md k"

text \<open>The loop from the last part to the first that stops at a part that is not blank.\<close>

fun scan_from_right :: "string list \<Rightarrow> string option" where
  "scan_from_right [] = None"
| "scan_from_right (p # ps) = (let ip = TrimSpace p in if ip \<noteq> [] then Some ip else scan_from_right ps)"

definition rightmost_ip :: "string \<Rightarrow> string option" where
  "rightmost_ip xff = scan_from_right (rev (Split xff (CHR '','')))"

definition extractClientInfo :: "ctx \<Rightarrow> string \<times> string" where
  "extractClientInfo ctx =
     (let (ip, ua) =
        (case metadata ctx of
           None \<Rightarrow> ([], [])
         | Some md \<Rightarrow>
             (let ip0 = (case md_Get md ''x-forwarded-for'' of
                           [] \<Rightarrow> []
                         | xff # _ \<Rightarrow> (case rightmost_ip xff of None \<Rightarrow> [] | Some ip \<Rightarrow> ip));
                  ua = (case md_Get md ''user-agent'' of [] \<Rightarrow> [] | u # _ \<Rightarrow> u);
                  ip1 = (if ip0 = [] then (case md_Get md ''x-real-ip'' of [] \<Rightarrow> [] | x # _ \<Rightarrow> x) else ip0)
              in (ip1, ua)))
      in if ip = [] then
           (case peer ctx of
              None \<Rightarrow> (ip, ua)
            | Some addr \<Rightarrow> (case SplitHostPort addr of None \<Rightarrow> (ip, ua) | Some (host, _) \<Rightarrow> (host, ua)))
         else (ip, ua))"

definition shortMethod :: "string \<Rightarrow> string" where
  "shortMethod full = (case LastIndex full (CHR ''/'') of None \<Rightarrow> full | Some i \<Rightarrow> drop (i + 1) full)"

definition peerIP :: "ctx \<Rightarrow> string" where
  "peerIP ctx = (case peer ctx of
       None \<Rightarrow> []
     | Some addr \<Rightarrow> (case LastIndex addr (CHR '':'') of None \<Rightarrow> addr | Some i \<Rightarrow> take i addr))"

definition extractIP :: "ctx \<Rightarrow> string" where
  "extractIP ctx =
     (case metadata ctx of
        None \<Rightarrow> peerIP ctx
      | Some md \<Rightarrow>
          (case md_Get md ''x-forwarded-for'' of
             [] \<Rightarrow> peerIP ctx
           | xff # _ \<Rightarrow> (case rightmost_ip xff of None \<Rightarrow> peerIP ctx | Some ip \<Rightarrow> ip)))"

section \<open>Properties\<close>

lemma shortMethod_append: "CHR ''/'' \<notin> set m \<Longrightarrow> shortMethod (p @ CHR ''/'' # m) = m"
  by (simp add: shortMethod_def LastIndex_append)

lemma rightmost_ip_last:
  assumes "CHR '','' \<notin> set ip" and "TrimSpace ip \<noteq> []"
  shows "rightmost_ip (pre @ CHR '','' # ip) = Some (TrimSpace ip)"
proof -
  have "Split (pre @ CHR '','' # ip) (CHR '','') = Split pre (CHR '','') @ [ip]"
  proof (induction pre)
    case Nil
    then show ?case using assms by (simp add: Split_no_sep)
  next
    case (Cons c pre)
    then show ?case by (cases "Split pre (CHR '','')") auto
  qed
  then show ?thesis using assms by (simp add: rightmost_ip_def Let_def)
qed

text \<open>
  A client cannot choose the address it is rate limited and audited under: when the
  gateway appends a non-blank address to a forwarded-for header, both \<^verbatim>\<open>extractIP\<close> and
  \<^verbatim>\<open>extractClientInfo\<close> return that address whatever text the client put before it.
\<close>

theorem forwarded_for_unforgeable:
  assumes md: "metadata ctx = Some md"
    and xff: "md ''x-forwarded-for'' = (forged @ CHR '','' # appended) # rest"
    and "CHR '','' \<notin> set appended" and "TrimSpace appended \<noteq> []"
  shows "extractIP ctx = TrimSpace appended \<and> fst (extractClientInfo ctx) = TrimSpace appended"
  using rightmost_ip_last[OF assms(3,4)] assms
  by (simp add: extractIP_def extractClientInfo_def md_Get_def Let_def)

lemma TrimSpace_example: "TrimSpace '' 203.0.113.9'' = ''203.0.113.9''"
  by (simp add: TrimSpace_blank TrimSpace_graphic graphic_def)

theorem forwarded_for_unforgeable_witness:
  "extractIP \<lparr>metadata = Some (\<lambda>k. if k = ''x-forwarded-for'' then [''10.0.0.1, 203.0.113.9''] else []),
     peer = Some ''127.0.0.1:5000''\<rparr> = ''203.0.113.9''"
  using forwarded_for_unforgeable[of
      "\<lparr>metadata = Some (\<lambda>k. if k = ''x-forwarded-for'' then [''10.0.0.1, 203.0.113.9''] else []),
        peer = Some ''127.0.0.1:5000''\<rparr>"
      "\<lambda>k. if k = ''x-forwarded-for'' then [''10.0.0.1, 203.0.113.9''] else []"
      "''10.0.0.1''" "'' 203.0.113.9''" "[]"]
  by (simp add: TrimSpace_example)

end
