(* ===== verification/Auth_Service.thy ===== *)
theory Auth_Service
  imports Ports Client_Info
begin

text \<open>
  \<^verbatim>\<open>internal/service/auth/auth.go\<close>: the twelve RPC handlers and their helpers, as state-monad
  programs over the ports. The control flow is the source's: every early return is a branch,
  every port call a bind, in the source's order. Log lines are left out: they change no state.
\<close>

section \<open>The service object, requests and responses\<close>

text \<open>The packages a handler calls besides the ports.\<close>

record 'w golib =
  lib_crypto :: crypto
  lib_runtime :: "'w runtime"
  lib_unicode :: unicode

record 'w AuthService =
  userStore :: "'w UserStore"
  sessionStore :: "'w SessionStore"
  auditStore :: "'w AuditStore option"
  tokenMgr :: "'w AccessTokenManager"
  cache :: "'w SessionCache"
  resetStore :: "'w PasswordResetStore"
  hook :: "'w EventHook option"
  bruteGuard :: "'w GuardMethods option"
  refreshTTL :: duration

definition New ::
  "'w UserStore \<Rightarrow> 'w SessionStore \<Rightarrow> 'w AccessTokenManager \<Rightarrow> 'w SessionCache \<Rightarrow>
   'w PasswordResetStore \<Rightarrow> 'w AuditStore option \<Rightarrow> 'w GuardMethods option \<Rightarrow>
   'w EventHook option \<Rightarrow> duration \<Rightarrow> 'w AuthService" where
  "New us ss tm c rs as bg hk ttl =
     \<lparr>userStore = us, sessionStore = ss, auditStore = as, tokenMgr = tm, cache = c,
      resetStore = rs, hook = hk, bruteGuard = bg, refreshTTL = ttl\<rparr>"

record RegisterRequest =
  rr_Email :: string
  rr_Password :: string

record RegisterResponse =
  rr_UserId :: string

record LoginRequest =
  lr_Email :: string
  lr_Password :: string
  lr_DeviceId :: string

record LoginResponse =
  lr_AccessToken :: string
  lr_RefreshToken :: string

record ValidateTokenResponse =
  vt_Valid :: bool
  vt_UserId :: string
  vt_Roles :: "string list"

record RefreshTokenRequest =
  rt_RefreshToken :: string
  rt_DeviceId :: string

record RefreshTokenResponse =
  rt_NewAccessToken :: string
  rt_NewRefreshToken :: string

record SessionInfo =
  si_SessionId :: string
  si_DeviceId :: string
  si_UserAgent :: string
  si_IpAddress :: string
  si_CreatedAt :: int
  si_LastUsedAt :: int

record ChangePasswordRequest =
  cp_CurrentPassword :: string
  cp_NewPassword :: string
  cp_RefreshToken :: string

record VerifyResetCodeRequest =
  vr_Email :: string
  vr_Otp :: string

record ResetPasswordRequest =
  rp_ResetToken :: string
  rp_NewPassword :: string

abbreviation internal :: "rpc_error + 'a" where
  "internal \<equiv> Inl (Status Internal ''internal error'')"

abbreviation denied :: "string \<Rightarrow> rpc_error + 'a" where
  "denied msg \<equiv> Inl (Status Unauthenticated msg)"

definition locked_msg :: string where
  "locked_msg = ''account temporarily locked due to too many failed attempts, try again later''"

section \<open>Helpers\<close>

definition extractUserIDFromCtx ::
  "'w AuthService \<Rightarrow> ctx \<Rightarrow> ('w, rpc_error + string) state" where
  "extractUserIDFromCtx s ctx =
     (case metadata ctx of
        None \<Rightarrow> ret (denied ''missing metadata'')
      | Some md \<Rightarrow>
          (case md_Get md ''authorization'' of
             [] \<Rightarrow> ret (denied ''missing authorization header'')
           | header # _ \<Rightarrow>
               (case CutPrefix header ''Bearer '' of (tokenStr, ok) \<Rightarrow>
                  if \<not> ok then ret (denied ''invalid authorization header format'')
                  else do {
                    r \<leftarrow> tm_ValidateAccessToken (tokenMgr s) tokenStr;
                    ret (case r of
                       Inl err \<Rightarrow> denied ''invalid access token''
                     | Inr claims \<Rightarrow> Inr (k_UserID claims))
                  })))"

definition cacheSession ::
  "'w golib \<Rightarrow> 'w AuthService \<Rightarrow> string \<Rightarrow> CachedSession \<Rightarrow> ('w, unit) state" where
  "cacheSession L s tokenHash sess = do {
     now \<leftarrow> Now (lib_runtime L);
     let ttl = c_ExpiresAt sess - now;
     if ttl \<le> 0 then ret ()
     else do { _ \<leftarrow> sc_Set (cache s) tokenHash sess ttl; ret () }
   }"

definition getCachedSession ::
  "'w AuthService \<Rightarrow> string \<Rightarrow> ('w, port_error + CachedSession) state" where
  "getCachedSession s tokenHash = sc_Get (cache s) tokenHash"

definition deleteSessionFromCache :: "'w AuthService \<Rightarrow> string \<Rightarrow> ('w, unit) state" where
  "deleteSessionFromCache s tokenHash = do { _ \<leftarrow> sc_Delete (cache s) tokenHash; ret () }"

definition logAudit ::
  "'w golib \<Rightarrow> 'w AuthService \<Rightarrow> string option \<Rightarrow> AuditEventType \<Rightarrow> string \<Rightarrow> string \<Rightarrow> string gomap \<Rightarrow> ('w, unit) state" where
  "logAudit L s userID eventType ip ua meta =
     (case auditStore s of
        None \<Rightarrow> ret ()
      | Some _ \<Rightarrow> Go (lib_runtime L) (AuditTask
          \<lparr>a_UserID = userID, a_EventType = eventType, a_IPAddress = ip, a_UserAgent = ua, a_Metadata = meta\<rparr>))"

definition fireHook ::
  "'w golib \<Rightarrow> 'w AuthService \<Rightarrow> string \<Rightarrow> string \<Rightarrow> AuditEventType \<Rightarrow> string \<Rightarrow> string \<Rightarrow> string gomap \<Rightarrow> ('w, unit) state" where
  "fireHook L s userID email eventType ip ua meta =
     Go (lib_runtime L) (HookTask
       \<lparr>h_Type = eventType, h_UserID = userID, h_UserEmail = email, h_IPAddress = ip,
        h_UserAgent = ua, h_Metadata = meta\<rparr>)"

text \<open>
  The body of a started goroutine: \<^const>\<open>None\<close> is a panic, which \<^verbatim>\<open>s.hook.OnEvent\<close> raises
  on a nil hook and which nothing recovers. An audit task exists only when the store does.
\<close>

definition run_task :: "'w AuthService \<Rightarrow> task \<Rightarrow> ('w, unit option) state" where
  "run_task s t =
     (case t of
        AuditTask e \<Rightarrow>
          (case auditStore s of
             None \<Rightarrow> ret None
           | Some a \<Rightarrow> do { _ \<leftarrow> as_Log a e; ret (Some ()) })
      | HookTask e \<Rightarrow>
          (case hook s of
             None \<Rightarrow> ret None
           | Some h \<Rightarrow> do { _ \<leftarrow> hk_OnEvent h e; ret (Some ()) }))"

section \<open>Register\<close>

definition Register ::
  "'w golib \<Rightarrow> 'w AuthService \<Rightarrow> ctx \<Rightarrow> RegisterRequest \<Rightarrow> ('w, rpc_error + RegisterResponse) state" where
  "Register L s ctx req =
     (case Email (rr_Email req) of
        Some err \<Rightarrow> ret (Inl (Status InvalidArgument err))
      | None \<Rightarrow>
     (case Password (lib_unicode L) (rr_Password req) of
        Some err \<Rightarrow> ret (Inl (Status InvalidArgument err))
      | None \<Rightarrow> do {
     hr \<leftarrow> password_Hash (lib_crypto L) (lib_runtime L) (rr_Password req);
     case hr of
        None \<Rightarrow> ret (Inl (GoPanic ''argon2''))
      | Some hr' \<Rightarrow>
     (case hr' of
        Inl err \<Rightarrow> ret internal
      | Inr hash \<Rightarrow> do {
     ur \<leftarrow> us_Create (userStore s) (rr_Email req) hash;
     case ur of
        Inl err \<Rightarrow>
          if err = ErrUserAlreadyExists then ret (Inl (Status AlreadyExists ''email already registered''))
          else ret internal
      | Inr user \<Rightarrow> do {
     let (ipAddr, userAgent) = extractClientInfo ctx;
     _ \<leftarrow> logAudit L s (Some (u_ID user)) AuditEventRegister ipAddr userAgent [(''email'', u_Email user)];
     _ \<leftarrow> fireHook L s (u_ID user) (u_Email user) AuditEventRegister ipAddr userAgent [(''email'', u_Email user)];
     ret (Inr \<lparr>rr_UserId = u_ID user\<rparr>)
   } }) }))"

section \<open>Login\<close>

text \<open>The two guard calls of \<^verbatim>\<open>Login\<close>: a nil guard and an error both mean "not locked".\<close>

definition guard_locked :: "'w AuthService \<Rightarrow> string \<Rightarrow> ('w, bool) state" where
  "guard_locked s email =
     (case bruteGuard s of
        None \<Rightarrow> ret False
      | Some g \<Rightarrow> do {
          r \<leftarrow> bg_IsLocked g email;
          ret (case r of Inl err \<Rightarrow> False | Inr locked \<Rightarrow> locked)
        })"

definition guard_failure :: "'w AuthService \<Rightarrow> string \<Rightarrow> ('w, bool) state" where
  "guard_failure s email =
     (case bruteGuard s of
        None \<Rightarrow> ret False
      | Some g \<Rightarrow> do {
          r \<leftarrow> bg_RecordFailure g email;
          ret (case r of Inl err \<Rightarrow> False | Inr wasLocked \<Rightarrow> wasLocked)
        })"

definition guard_reset :: "'w AuthService \<Rightarrow> string \<Rightarrow> ('w, unit) state" where
  "guard_reset s email = (case bruteGuard s of None \<Rightarrow> ret () | Some g \<Rightarrow> bg_Reset g email)"

definition Login ::
  "'w golib \<Rightarrow> 'w AuthService \<Rightarrow> ctx \<Rightarrow> LoginRequest \<Rightarrow> ('w, rpc_error + LoginResponse) state" where
  "Login L s ctx req =
     (case Email (lr_Email req) of
        Some err \<Rightarrow> ret (Inl (Status InvalidArgument err))
      | None \<Rightarrow> do {
     let (ipAddr, userAgent) = extractClientInfo ctx;
     locked \<leftarrow> guard_locked s (lr_Email req);
     if locked then do {
       _ \<leftarrow> logAudit L s None AuditEventLoginBlocked ipAddr userAgent [(''email'', lr_Email req)];
       _ \<leftarrow> fireHook L s [] (lr_Email req) AuditEventLoginBlocked ipAddr userAgent [(''email'', lr_Email req)];
       ret (Inl (Status ResourceExhausted locked_msg))
     } else do {
     ur \<leftarrow> us_GetByEmail (userStore s) (lr_Email req);
     case ur of
        Inl err \<Rightarrow>
          if err = ErrUserNotFound then do {
            _ \<leftarrow> logAudit L s None AuditEventLoginFailure ipAddr userAgent [(''email'', lr_Email req)];
            _ \<leftarrow> fireHook L s [] (lr_Email req) AuditEventLoginFailure ipAddr userAgent [(''email'', lr_Email req)];
            ret (denied ''invalid credentials'')
          } else ret internal
      | Inr user \<Rightarrow>
     (case password_Verify (lib_crypto L) (lr_Password req) (u_PasswordHash user) of
        None \<Rightarrow> ret (Inl (GoPanic ''argon2''))
      | Some vr \<Rightarrow>
     (case vr of
        Inl err \<Rightarrow> ret internal
      | Inr match \<Rightarrow>
     if \<not> match then do {
       wasLocked \<leftarrow> guard_failure s (lr_Email req);
       if wasLocked then do {
         _ \<leftarrow> logAudit L s (Some (u_ID user)) AuditEventLoginBlocked ipAddr userAgent [(''email'', lr_Email req)];
         _ \<leftarrow> fireHook L s (u_ID user) (u_Email user) AuditEventLoginBlocked ipAddr userAgent [(''email'', lr_Email req)];
         ret (Inl (Status ResourceExhausted locked_msg))
       } else do {
         _ \<leftarrow> logAudit L s (Some (u_ID user)) AuditEventLoginFailure ipAddr userAgent [(''email'', lr_Email req)];
         _ \<leftarrow> fireHook L s (u_ID user) (u_Email user) AuditEventLoginFailure ipAddr userAgent [(''email'', lr_Email req)];
         ret (denied ''invalid credentials'')
       }
     } else do {
     _ \<leftarrow> guard_reset s (lr_Email req);
     ar \<leftarrow> tm_GenerateAccessToken (tokenMgr s) (u_ID user) (u_Email user) [''user''];
     case ar of
        Inl err \<Rightarrow> ret internal
      | Inr accessToken \<Rightarrow> do {
     tr \<leftarrow> token_Generate (lib_crypto L) (lib_runtime L);
     case tr of
        Inl err \<Rightarrow> ret internal
      | Inr (plainRefresh, hashedRefresh) \<Rightarrow> do {
     let deviceID = (if lr_DeviceId req = [] then userAgent else lr_DeviceId req);
     now \<leftarrow> Now (lib_runtime L);
     cr \<leftarrow> ss_Create (sessionStore s)
       \<lparr>s_ID = [], s_UserID = u_ID user, s_UserEmail = [], s_TokenHash = hashedRefresh,
        s_DeviceID = deviceID, s_UserAgent = userAgent, s_IPAddress = ipAddr,
        s_ExpiresAt = now + refreshTTL s, s_LastUsedAt = time_zero, s_CreatedAt = time_zero\<rparr>;
     case cr of
        Inl err \<Rightarrow> ret internal
      | Inr sess \<Rightarrow> do {
     _ \<leftarrow> cacheSession L s hashedRefresh
       \<lparr>c_SessionID = s_ID sess, c_UserID = u_ID user, c_UserEmail = u_Email user,
        c_DeviceID = deviceID, c_ExpiresAt = s_ExpiresAt sess\<rparr>;
     _ \<leftarrow> logAudit L s (Some (u_ID user)) AuditEventLoginSuccess ipAddr userAgent
       [(''email'', u_Email user), (''device_id'', deviceID), (''session_id'', s_ID sess)];
     _ \<leftarrow> fireHook L s (u_ID user) (u_Email user) AuditEventLoginSuccess ipAddr userAgent
       [(''email'', u_Email user), (''device_id'', deviceID), (''session_id'', s_ID sess)];
     ret (Inr \<lparr>lr_AccessToken = accessToken, lr_RefreshToken = plainRefresh\<rparr>)
   } } } })) } })"

section \<open>ValidateToken\<close>

definition ValidateToken ::
  "'w AuthService \<Rightarrow> string \<Rightarrow> ('w, rpc_error + ValidateTokenResponse) state" where
  "ValidateToken s token = do {
     r \<leftarrow> tm_ValidateAccessToken (tokenMgr s) token;
     ret (case r of
        Inl err \<Rightarrow> Inr \<lparr>vt_Valid = False, vt_UserId = [], vt_Roles = []\<rparr>
      | Inr claims \<Rightarrow> Inr \<lparr>vt_Valid = True, vt_UserId = k_UserID claims, vt_Roles = k_Roles claims\<rparr>)
   }"

section \<open>RefreshToken\<close>

text \<open>The lookup of \<^verbatim>\<open>RefreshToken\<close>: the cache first, the session store on a miss.\<close>

definition lookup_session ::
  "'w AuthService \<Rightarrow> string \<Rightarrow> ('w, rpc_error + CachedSession) state" where
  "lookup_session s tokenHash = do {
     c \<leftarrow> getCachedSession s tokenHash;
     case c of
        Inr cached \<Rightarrow> ret (Inr cached)
      | Inl err \<Rightarrow> do {
          d \<leftarrow> ss_GetByTokenHash (sessionStore s) tokenHash;
          ret (case d of
             Inl dbErr \<Rightarrow>
               if dbErr = ErrSessionNotFound then denied ''invalid refresh token'' else internal
           | Inr dbSess \<Rightarrow> Inr
               \<lparr>c_SessionID = s_ID dbSess, c_UserID = s_UserID dbSess, c_UserEmail = s_UserEmail dbSess,
                c_DeviceID = s_DeviceID dbSess, c_ExpiresAt = s_ExpiresAt dbSess\<rparr>)
        }
   }"

definition RefreshToken ::
  "'w golib \<Rightarrow> 'w AuthService \<Rightarrow> ctx \<Rightarrow> RefreshTokenRequest \<Rightarrow> ('w, rpc_error + RefreshTokenResponse) state" where
  "RefreshToken L s ctx req = do {
     let tokenHash = Hash (lib_crypto L) (rt_RefreshToken req);
     lr \<leftarrow> lookup_session s tokenHash;
     case lr of
        Inl e \<Rightarrow> ret (Inl e)
      | Inr cached \<Rightarrow> do {
     now1 \<leftarrow> Now (lib_runtime L);
     if After now1 (c_ExpiresAt cached) then do {
       _ \<leftarrow> ss_DeleteByTokenHash (sessionStore s) tokenHash;
       _ \<leftarrow> deleteSessionFromCache s tokenHash;
       ret (denied ''refresh token expired'')
     } else do {
     ar \<leftarrow> tm_GenerateAccessToken (tokenMgr s) (c_UserID cached) (c_UserEmail cached) [''user''];
     case ar of
        Inl err \<Rightarrow> ret internal
      | Inr newAccessToken \<Rightarrow> do {
     tr \<leftarrow> token_Generate (lib_crypto L) (lib_runtime L);
     case tr of
        Inl err \<Rightarrow> ret internal
      | Inr (newPlain, newHash) \<Rightarrow> do {
     let (ipAddr, userAgent) = extractClientInfo ctx;
     let deviceID = (if rt_DeviceId req = [] then c_DeviceID cached else rt_DeviceId req);
     now2 \<leftarrow> Now (lib_runtime L);
     rr \<leftarrow> ss_RotateToken (sessionStore s) tokenHash
       \<lparr>s_ID = [], s_UserID = c_UserID cached, s_UserEmail = [], s_TokenHash = newHash,
        s_DeviceID = deviceID, s_UserAgent = userAgent, s_IPAddress = ipAddr,
        s_ExpiresAt = now2 + refreshTTL s, s_LastUsedAt = time_zero, s_CreatedAt = time_zero\<rparr>;
     case rr of
        Inl err \<Rightarrow>
          if err = ErrSessionNotFound then ret (denied ''invalid refresh token'') else ret internal
      | Inr newSess \<Rightarrow> do {
     _ \<leftarrow> deleteSessionFromCache s tokenHash;
     _ \<leftarrow> cacheSession L s newHash
       \<lparr>c_SessionID = s_ID newSess, c_UserID = c_UserID cached, c_UserEmail = c_UserEmail cached,
        c_DeviceID = deviceID, c_ExpiresAt = s_ExpiresAt newSess\<rparr>;
     _ \<leftarrow> logAudit L s (Some (c_UserID cached)) AuditEventTokenRefresh ipAddr userAgent
       [(''session_id'', s_ID newSess)];
     _ \<leftarrow> fireHook L s (c_UserID cached) (c_UserEmail cached) AuditEventTokenRefresh ipAddr userAgent
       [(''session_id'', s_ID newSess)];
     ret (Inr \<lparr>rt_NewAccessToken = newAccessToken, rt_NewRefreshToken = newPlain\<rparr>)
   } } } } } }"

section \<open>Logout, LogoutAll, ListSessions, RevokeSession\<close>

definition Logout ::
  "'w golib \<Rightarrow> 'w AuthService \<Rightarrow> ctx \<Rightarrow> string \<Rightarrow> ('w, rpc_error + unit) state" where
  "Logout L s ctx refreshToken = do {
     let tokenHash = Hash (lib_crypto L) refreshToken;
     c \<leftarrow> getCachedSession s tokenHash;
     let (userID, userEmail) = (case c of
         Inl err \<Rightarrow> (None, [])
       | Inr cached \<Rightarrow> (Some (c_UserID cached), c_UserEmail cached));
     d \<leftarrow> ss_DeleteByTokenHash (sessionStore s) tokenHash;
     case d of
        Inl err \<Rightarrow> ret internal
      | Inr _ \<Rightarrow> do {
     _ \<leftarrow> deleteSessionFromCache s tokenHash;
     let (ipAddr, userAgent) = extractClientInfo ctx;
     _ \<leftarrow> logAudit L s userID AuditEventLogout ipAddr userAgent [];
     let uid = (case userID of None \<Rightarrow> [] | Some u \<Rightarrow> u);
     _ \<leftarrow> fireHook L s uid userEmail AuditEventLogout ipAddr userAgent [];
     ret (Inr ())
   } }"

text \<open>The response carries \<^verbatim>\<open>int32(len(hashes))\<close>.\<close>

definition LogoutAll ::
  "'w golib \<Rightarrow> 'w AuthService \<Rightarrow> ctx \<Rightarrow> ('w, rpc_error + 32 word) state" where
  "LogoutAll L s ctx = do {
     ur \<leftarrow> extractUserIDFromCtx s ctx;
     case ur of
        Inl err \<Rightarrow> ret (Inl err)
      | Inr userID \<Rightarrow> do {
     (hashes, err) \<leftarrow> ss_DeleteAllByUserID (sessionStore s) userID;
     if err \<noteq> None then ret internal
     else do {
     _ \<leftarrow> for_each hashes (deleteSessionFromCache s);
     let (ipAddr, userAgent) = extractClientInfo ctx;
     _ \<leftarrow> logAudit L s (Some userID) AuditEventLogoutAll ipAddr userAgent
       [(''sessions_revoked'', itoa (length hashes))];
     _ \<leftarrow> fireHook L s userID [] AuditEventLogoutAll ipAddr userAgent
       [(''sessions_revoked'', itoa (length hashes))];
     ret (Inr (word_of_nat (length hashes)))
   } } }"

definition session_info :: "Session \<Rightarrow> SessionInfo" where
  "session_info sess =
     \<lparr>si_SessionId = s_ID sess, si_DeviceId = s_DeviceID sess, si_UserAgent = s_UserAgent sess,
      si_IpAddress = s_IPAddress sess, si_CreatedAt = Unix (s_CreatedAt sess),
      si_LastUsedAt = Unix (s_LastUsedAt sess)\<rparr>"

definition ListSessions ::
  "'w AuthService \<Rightarrow> ctx \<Rightarrow> ('w, rpc_error + SessionInfo list) state" where
  "ListSessions s ctx = do {
     ur \<leftarrow> extractUserIDFromCtx s ctx;
     case ur of
        Inl err \<Rightarrow> ret (Inl err)
      | Inr userID \<Rightarrow> do {
     (sessions, err) \<leftarrow> ss_ListByUserID (sessionStore s) userID;
     if err \<noteq> None then ret internal else ret (Inr (map session_info sessions))
   } }"

definition RevokeSession ::
  "'w golib \<Rightarrow> 'w AuthService \<Rightarrow> ctx \<Rightarrow> string \<Rightarrow> ('w, rpc_error + unit) state" where
  "RevokeSession L s ctx sessionId = do {
     ur \<leftarrow> extractUserIDFromCtx s ctx;
     case ur of
        Inl err \<Rightarrow> ret (Inl err)
      | Inr userID \<Rightarrow> do {
     d \<leftarrow> ss_DeleteByID (sessionStore s) sessionId userID;
     case d of
        Inl err \<Rightarrow>
          if err = ErrSessionNotFound then ret (Inl (Status NotFound ''session not found'')) else ret internal
      | Inr tokenHash \<Rightarrow> do {
     _ \<leftarrow> deleteSessionFromCache s tokenHash;
     let (ipAddr, userAgent) = extractClientInfo ctx;
     _ \<leftarrow> logAudit L s (Some userID) AuditEventSessionRevoke ipAddr userAgent [(''session_id'', sessionId)];
     _ \<leftarrow> fireHook L s userID [] AuditEventSessionRevoke ipAddr userAgent [(''session_id'', sessionId)];
     ret (Inr ())
   } } }"

section \<open>ChangePassword\<close>

definition ChangePassword ::
  "'w golib \<Rightarrow> 'w AuthService \<Rightarrow> ctx \<Rightarrow> ChangePasswordRequest \<Rightarrow> ('w, rpc_error + unit) state" where
  "ChangePassword L s ctx req = do {
     er \<leftarrow> extractUserIDFromCtx s ctx;
     case er of
        Inl err \<Rightarrow> ret (Inl err)
      | Inr userID \<Rightarrow>
     (case Password (lib_unicode L) (cp_NewPassword req) of
        Some err \<Rightarrow> ret (Inl (Status InvalidArgument err))
      | None \<Rightarrow> do {
     ur \<leftarrow> us_GetByID (userStore s) userID;
     case ur of
        Inl err \<Rightarrow> ret internal
      | Inr user \<Rightarrow>
     (case password_Verify (lib_crypto L) (cp_CurrentPassword req) (u_PasswordHash user) of
        None \<Rightarrow> ret (Inl (GoPanic ''argon2''))
      | Some vr \<Rightarrow>
     (case vr of
        Inl err \<Rightarrow> ret internal
      | Inr match \<Rightarrow>
     if \<not> match then ret (denied ''invalid credentials'')
     else do {
     hr \<leftarrow> password_Hash (lib_crypto L) (lib_runtime L) (cp_NewPassword req);
     case hr of
        None \<Rightarrow> ret (Inl (GoPanic ''argon2''))
      | Some hr' \<Rightarrow>
     (case hr' of
        Inl err \<Rightarrow> ret internal
      | Inr newHash \<Rightarrow> do {
     pr \<leftarrow> us_UpdatePasswordHash (userStore s) userID newHash;
     case pr of
        Inl err \<Rightarrow> ret internal
      | Inr _ \<Rightarrow> do {
     let keepHash = (if cp_RefreshToken req \<noteq> [] then Hash (lib_crypto L) (cp_RefreshToken req) else []);
     (deletedHashes, err) \<leftarrow> ss_DeleteAllByUserIDExcept (sessionStore s) userID keepHash;
     _ \<leftarrow> for_each deletedHashes (deleteSessionFromCache s);
     let (ipAddr, userAgent) = extractClientInfo ctx;
     _ \<leftarrow> logAudit L s (Some userID) AuditEventPasswordChange ipAddr userAgent [];
     _ \<leftarrow> fireHook L s userID (u_Email user) AuditEventPasswordChange ipAddr userAgent [];
     ret (Inr ())
   } }) })) }) }"

section \<open>Password reset\<close>

definition otpTTL :: duration where
  "otpTTL = 15 * minute"

definition RequestPasswordReset ::
  "'w golib \<Rightarrow> 'w AuthService \<Rightarrow> ctx \<Rightarrow> string \<Rightarrow> ('w, rpc_error + unit) state" where
  "RequestPasswordReset L s ctx email =
     (case Email email of
        Some err \<Rightarrow> ret (Inl (Status InvalidArgument err))
      | None \<Rightarrow> do {
     ur \<leftarrow> us_GetByEmail (userStore s) email;
     case ur of
        Inl err \<Rightarrow> if err = ErrUserNotFound then ret (Inr ()) else ret internal
      | Inr user \<Rightarrow> do {
     cr \<leftarrow> otp_Generate (lib_runtime L);
     case cr of
        Inl err \<Rightarrow> ret internal
      | Inr code \<Rightarrow> do {
     sr \<leftarrow> rs_SaveOTP (resetStore s) (u_ID user) email (Hash (lib_crypto L) code) otpTTL;
     if sr \<noteq> None then ret internal
     else do {
     let (ipAddr, userAgent) = extractClientInfo ctx;
     _ \<leftarrow> logAudit L s (Some (u_ID user)) AuditEventPasswordResetRequest ipAddr userAgent [];
     _ \<leftarrow> fireHook L s (u_ID user) (u_Email user) AuditEventPasswordResetRequest ipAddr userAgent
       [(''otp_code'', code)];
     ret (Inr ())
   } } } })"

definition maxOTPAttempts :: int where
  "maxOTPAttempts = 5"

definition VerifyResetCode ::
  "'w golib \<Rightarrow> 'w AuthService \<Rightarrow> VerifyResetCodeRequest \<Rightarrow> ('w, rpc_error + string) state" where
  "VerifyResetCode L s req =
     (case Email (vr_Email req) of
        Some err \<Rightarrow> ret (Inl (Status InvalidArgument err))
      | None \<Rightarrow> do {
     gr \<leftarrow> rs_GetOTP (resetStore s) (vr_Email req);
     case gr of
        Inl err \<Rightarrow>
          if err = ErrResetCodeNotFound then ret (denied ''invalid or expired code'') else ret internal
      | Inr record \<Rightarrow> do {
     ir \<leftarrow> rs_IncrOTPAttempts (resetStore s) (vr_Email req);
     case ir of
        Inl err \<Rightarrow>
          if err = ErrResetCodeNotFound then ret (denied ''invalid or expired code'') else ret internal
      | Inr attempts \<Rightarrow>
     if maxOTPAttempts \<le> attempts then do {
       _ \<leftarrow> rs_DeleteOTP (resetStore s) (vr_Email req);
       ret (denied ''too many attempts'')
     } else if Hash (lib_crypto L) (vr_Otp req) \<noteq> o_OTPHash record then
       ret (denied ''invalid or expired code'')
     else do {
     _ \<leftarrow> rs_DeleteOTP (resetStore s) (vr_Email req);
     tr \<leftarrow> token_Generate (lib_crypto L) (lib_runtime L);
     case tr of
        Inl err \<Rightarrow> ret internal
      | Inr (plain, hash) \<Rightarrow> do {
     sr \<leftarrow> rs_SaveResetToken (resetStore s) hash (o_UserID record) (vr_Email req) otpTTL;
     if sr \<noteq> None then ret internal else ret (Inr plain)
   } } } })"

definition ResetPassword ::
  "'w golib \<Rightarrow> 'w AuthService \<Rightarrow> ctx \<Rightarrow> ResetPasswordRequest \<Rightarrow> ('w, rpc_error + unit) state" where
  "ResetPassword L s ctx req =
     (case Password (lib_unicode L) (rp_NewPassword req) of
        Some err \<Rightarrow> ret (Inl (Status InvalidArgument err))
      | None \<Rightarrow> do {
     gr \<leftarrow> rs_GetResetToken (resetStore s) (Hash (lib_crypto L) (rp_ResetToken req));
     case gr of
        Inl err \<Rightarrow>
          if err = ErrResetTokenNotFound then ret (denied ''invalid or expired reset token'') else ret internal
      | Inr tokenRec \<Rightarrow> do {
     dr \<leftarrow> rs_DeleteResetToken (resetStore s) (Hash (lib_crypto L) (rp_ResetToken req));
     if dr \<noteq> None then ret internal
     else do {
     hr \<leftarrow> password_Hash (lib_crypto L) (lib_runtime L) (rp_NewPassword req);
     case hr of
        None \<Rightarrow> ret (Inl (GoPanic ''argon2''))
      | Some hr' \<Rightarrow>
     (case hr' of
        Inl err \<Rightarrow> ret internal
      | Inr newHash \<Rightarrow> do {
     pr \<leftarrow> us_UpdatePasswordHash (userStore s) (t_UserID tokenRec) newHash;
     case pr of
        Inl err \<Rightarrow> ret internal
      | Inr _ \<Rightarrow> do {
     (deletedHashes, err) \<leftarrow> ss_DeleteAllByUserID (sessionStore s) (t_UserID tokenRec);
     _ \<leftarrow> for_each deletedHashes (deleteSessionFromCache s);
     let (ipAddr, userAgent) = extractClientInfo ctx;
     _ \<leftarrow> logAudit L s (Some (t_UserID tokenRec)) AuditEventPasswordReset ipAddr userAgent [];
     _ \<leftarrow> fireHook L s (t_UserID tokenRec) (t_Email tokenRec) AuditEventPasswordReset ipAddr userAgent [];
     ret (Inr ())
   } }) } } })"

section \<open>The service as a whole\<close>

text \<open>
  One remote procedure call: its context and the request message (the methods registered by
  \<^verbatim>\<open>api.RegisterAuthServiceServer\<close>).
\<close>

datatype rpc =
    RpcRegister RegisterRequest
  | RpcLogin LoginRequest
  | RpcValidateToken string
  | RpcRefreshToken RefreshTokenRequest
  | RpcLogout string
  | RpcLogoutAll
  | RpcListSessions
  | RpcRevokeSession string
  | RpcChangePassword ChangePasswordRequest
  | RpcRequestPasswordReset string
  | RpcVerifyResetCode VerifyResetCodeRequest
  | RpcResetPassword ResetPasswordRequest

datatype rpc_reply =
    ReplyRegister RegisterResponse
  | ReplyLogin LoginResponse
  | ReplyValidateToken ValidateTokenResponse
  | ReplyRefreshToken RefreshTokenResponse
  | ReplyLogoutAll "32 word"
  | ReplyListSessions "SessionInfo list"
  | ReplyVerifyResetCode string
  | ReplyEmpty

definition reply :: "('a \<Rightarrow> rpc_reply) \<Rightarrow> ('w, rpc_error + 'a) state \<Rightarrow> ('w, rpc_error + rpc_reply) state" where
  "reply f m = do { r \<leftarrow> m; ret (case r of Inl e \<Rightarrow> Inl e | Inr a \<Rightarrow> Inr (f a)) }"

fun dispatch ::
  "'w golib \<Rightarrow> 'w AuthService \<Rightarrow> ctx \<Rightarrow> rpc \<Rightarrow> ('w, rpc_error + rpc_reply) state" where
  "dispatch L s ctx (RpcRegister r) = reply ReplyRegister (Register L s ctx r)"
| "dispatch L s ctx (RpcLogin r) = reply ReplyLogin (Login L s ctx r)"
| "dispatch L s ctx (RpcValidateToken t) = reply ReplyValidateToken (ValidateToken s t)"
| "dispatch L s ctx (RpcRefreshToken r) = reply ReplyRefreshToken (RefreshToken L s ctx r)"
| "dispatch L s ctx (RpcLogout t) = reply (\<lambda>_. ReplyEmpty) (Logout L s ctx t)"
| "dispatch L s ctx RpcLogoutAll = reply ReplyLogoutAll (LogoutAll L s ctx)"
| "dispatch L s ctx RpcListSessions = reply ReplyListSessions (ListSessions s ctx)"
| "dispatch L s ctx (RpcRevokeSession i) = reply (\<lambda>_. ReplyEmpty) (RevokeSession L s ctx i)"
| "dispatch L s ctx (RpcChangePassword r) = reply (\<lambda>_. ReplyEmpty) (ChangePassword L s ctx r)"
| "dispatch L s ctx (RpcRequestPasswordReset e) = reply (\<lambda>_. ReplyEmpty) (RequestPasswordReset L s ctx e)"
| "dispatch L s ctx (RpcVerifyResetCode r) = reply ReplyVerifyResetCode (VerifyResetCode L s r)"
| "dispatch L s ctx (RpcResetPassword r) = reply (\<lambda>_. ReplyEmpty) (ResetPassword L s ctx r)"

text \<open>Requests served one after the other, with their answers.\<close>

fun serve ::
  "'w golib \<Rightarrow> 'w AuthService \<Rightarrow> (ctx \<times> rpc) list \<Rightarrow> ('w, (rpc_error + rpc_reply) list) state" where
  "serve L s [] = ret []"
| "serve L s ((ctx, r) # rs) = do { x \<leftarrow> dispatch L s ctx r; xs \<leftarrow> serve L s rs; ret (x # xs) }"

end
