(* ===== verification/Service_Invariant.thy ===== *)
theory Service_Invariant
  imports Ports
begin

text \<open>
  The invariant of the service's stores and how a request may change them. \<open>vault_ok\<close> ties
  the stores together (owners exist, digests are keys, a cached session agrees with the stored
  one); \<open>evolves\<close> bounds what any request does (no user disappears, a session or reset token
  appears only under a digest that was never used before). Both are kept by every elementary
  change of a vault, which is what the proofs about the handlers use.
\<close>

section \<open>Definitions\<close>

definition users_ok :: "(string \<rightharpoonup> User) \<Rightarrow> bool" where
  "users_ok us \<longleftrightarrow> (\<forall>i u. us i = Some u \<longrightarrow> u_ID u = i)
     \<and> (\<forall>i j u u'. us i = Some u \<longrightarrow> us j = Some u' \<longrightarrow> u_Email u = u_Email u' \<longrightarrow> i = j)"

definition sessions_ok :: "string set \<Rightarrow> (string \<rightharpoonup> User) \<Rightarrow> (string \<rightharpoonup> Session) \<Rightarrow> bool" where
  "sessions_ok un us ss \<longleftrightarrow>
     (\<forall>h s. ss h = Some s \<longrightarrow> s_TokenHash s = h \<and> h \<noteq> [] \<and> h \<notin> un \<and> s_UserID s \<in> dom us)
     \<and> (\<forall>h h' s s'. ss h = Some s \<longrightarrow> ss h' = Some s' \<longrightarrow> s_ID s = s_ID s' \<longrightarrow> h = h')"

definition agrees :: "CachedSession \<Rightarrow> Session \<Rightarrow> bool" where
  "agrees c s \<longleftrightarrow> c_SessionID c = s_ID s \<and> c_UserID c = s_UserID s \<and> c_DeviceID c = s_DeviceID s
     \<and> micro (s_ExpiresAt s) (c_ExpiresAt c)"

definition cache_ok ::
  "string set \<Rightarrow> (string \<rightharpoonup> Session) \<Rightarrow> (string \<rightharpoonup> CachedSession \<times> time) \<Rightarrow> bool" where
  "cache_ok un ss cs \<longleftrightarrow>
     (\<forall>h c x. cs h = Some (c, x) \<longrightarrow> h \<notin> un \<and> (\<forall>s. ss h = Some s \<longrightarrow> agrees c s))"

text \<open>The user with this ID exists and has an e-mail address with this digest.\<close>

definition owner_email :: "crypto \<Rightarrow> (string \<rightharpoonup> User) \<Rightarrow> string \<Rightarrow> string \<Rightarrow> bool" where
  "owner_email C us uid k \<longleftrightarrow> (\<exists>u. us uid = Some u \<and> Hash C (u_Email u) = k)"

definition otps_ok :: "crypto \<Rightarrow> (string \<rightharpoonup> User) \<Rightarrow> (string \<rightharpoonup> OTPRecord \<times> time) \<Rightarrow> bool" where
  "otps_ok C us os \<longleftrightarrow> (\<forall>k r x. os k = Some (r, x) \<longrightarrow> owner_email C us (o_UserID r) k \<and> 0 \<le> o_Attempts r)"

definition resets_ok ::
  "crypto \<Rightarrow> string set \<Rightarrow> (string \<rightharpoonup> User) \<Rightarrow> (string \<rightharpoonup> ResetTokenRecord \<times> time) \<Rightarrow> bool" where
  "resets_ok C un us rs \<longleftrightarrow>
     (\<forall>h r x. rs h = Some (r, x) \<longrightarrow> h \<notin> un \<and> owner_email C us (t_UserID r) (Hash C (t_Email r)))"

definition vault_ok :: "crypto \<Rightarrow> vault \<Rightarrow> bool" where
  "vault_ok C v \<longleftrightarrow> users_ok (v_users v)
     \<and> sessions_ok (v_unused v) (v_users v) (v_sessions v)
     \<and> cache_ok (v_unused v) (v_sessions v) (v_cache v)
     \<and> otps_ok C (v_users v) (v_otps v)
     \<and> resets_ok C (v_unused v) (v_users v) (v_resets v)"

definition evolves :: "vault \<Rightarrow> vault \<Rightarrow> bool" where
  "evolves v v' \<longleftrightarrow> v_unused v' \<subseteq> v_unused v \<and> v_now v \<le> v_now v'
     \<and> dom (v_users v) \<subseteq> dom (v_users v')
     \<and> dom (v_sessions v') \<subseteq> dom (v_sessions v) \<union> (v_unused v - v_unused v')
     \<and> dom (v_resets v') \<subseteq> dom (v_resets v) \<union> (v_unused v - v_unused v')"

lemma evolves_refl [simp]: "evolves v v"
  by (simp add: evolves_def)

lemma evolves_trans: "evolves u v \<Longrightarrow> evolves v w \<Longrightarrow> evolves u w"
  unfolding evolves_def by (elim conjE, intro conjI; blast intro: order_trans)

text \<open>A digest that is neither stored nor still to come, and that it stays so.\<close>

definition dead :: "string \<Rightarrow> vault \<Rightarrow> bool" where
  "dead h v \<longleftrightarrow> h \<notin> dom (v_sessions v) \<and> h \<notin> v_unused v"

lemma dead_evolves: "dead h v \<Longrightarrow> evolves v v' \<Longrightarrow> dead h v'"
  by (auto simp: dead_def evolves_def)

definition spent :: "string \<Rightarrow> vault \<Rightarrow> bool" where
  "spent h v \<longleftrightarrow> h \<notin> dom (v_resets v) \<and> h \<notin> v_unused v"

lemma spent_evolves: "spent h v \<Longrightarrow> evolves v v' \<Longrightarrow> spent h v'"
  by (auto simp: spent_def evolves_def)

section \<open>Elementary changes keep the invariant\<close>

named_theorems vault_changes \<open>elementary changes of a vault keep the invariant\<close>

lemma sessions_ok_mono: "sessions_ok un us ss \<Longrightarrow> un' \<subseteq> un \<Longrightarrow> sessions_ok un' us ss"
  unfolding sessions_ok_def by blast

lemma cache_ok_mono: "cache_ok un ss cs \<Longrightarrow> un' \<subseteq> un \<Longrightarrow> cache_ok un' ss cs"
  unfolding cache_ok_def by blast

lemma resets_ok_mono: "resets_ok C un us rs \<Longrightarrow> un' \<subseteq> un \<Longrightarrow> resets_ok C un' us rs"
  unfolding resets_ok_def by blast

lemma cache_ok_keeps: "cache_ok un ss cs \<Longrightarrow> keeps b t cs cs' \<Longrightarrow> cache_ok un ss cs'"
  unfolding cache_ok_def by (blast dest: keeps_Some)

lemma otps_ok_keeps: "otps_ok C us os \<Longrightarrow> keeps b t os os' \<Longrightarrow> otps_ok C us os'"
  unfolding otps_ok_def by (blast dest: keeps_Some)

lemma resets_ok_keeps: "resets_ok C un us rs \<Longrightarrow> keeps b t rs rs' \<Longrightarrow> resets_ok C un us rs'"
  unfolding resets_ok_def by (blast dest: keeps_Some)

lemma vault_ok_frame: "frame v v' \<Longrightarrow> vault_ok C v \<Longrightarrow> vault_ok C v'"
  by (auto simp: vault_ok_def frame_def
      intro: sessions_ok_mono cache_ok_mono resets_ok_mono cache_ok_keeps otps_ok_keeps resets_ok_keeps)

lemma evolves_frame: "frame v v' \<Longrightarrow> evolves v v'"
  by (auto simp: evolves_def frame_def dest: keeps_Some)

lemma owner_email_new: "owner_email C us uid k \<Longrightarrow> i \<notin> dom us \<Longrightarrow> owner_email C (us(i \<mapsto> u)) uid k"
  by (auto simp: owner_email_def)

lemma owner_email_update:
  "owner_email C us uid k \<Longrightarrow> us i = Some u \<Longrightarrow> u_Email u' = u_Email u \<Longrightarrow> owner_email C (us(i \<mapsto> u')) uid k"
  by (auto simp: owner_email_def)

lemma users_ok_new:
  "users_ok us \<Longrightarrow> u_ID u \<notin> dom us \<Longrightarrow> \<forall>x \<in> ran us. u_Email x \<noteq> u_Email u \<Longrightarrow> users_ok (us(u_ID u \<mapsto> u))"
  unfolding users_ok_def ran_def by (auto split: if_splits)

lemma users_ok_update:
  "users_ok us \<Longrightarrow> us i = Some u \<Longrightarrow> u_ID u' = i \<Longrightarrow> u_Email u' = u_Email u \<Longrightarrow> users_ok (us(i \<mapsto> u'))"
  unfolding users_ok_def by (auto split: if_splits)

lemma vault_ok_new_user [vault_changes]:
  assumes "vault_ok C v" "u_ID u \<notin> dom (v_users v)" "\<forall>x \<in> ran (v_users v). u_Email x \<noteq> u_Email u"
  shows "vault_ok C (v\<lparr>v_users := (v_users v)(u_ID u \<mapsto> u)\<rparr>)"
  using assms owner_email_new[of C "v_users v" _ _ "u_ID u" u]
  by (auto simp: vault_ok_def users_ok_new sessions_ok_def otps_ok_def resets_ok_def)

lemma vault_ok_set_password [vault_changes]:
  assumes "vault_ok C v" "v_users v i = Some u"
  shows "vault_ok C (v\<lparr>v_users := (v_users v)(i \<mapsto> u\<lparr>u_PasswordHash := h, u_UpdatedAt := t\<rparr>)\<rparr>)"
proof -
  let ?u = "u\<lparr>u_PasswordHash := h, u_UpdatedAt := t\<rparr>"
  have "u_ID u = i" using assms by (auto simp: vault_ok_def users_ok_def)
  then have "users_ok ((v_users v)(i \<mapsto> ?u))"
    using assms by (intro users_ok_update) (auto simp: vault_ok_def)
  then show ?thesis
    using assms owner_email_update[of C "v_users v" _ _ i u ?u]
    by (auto simp: vault_ok_def sessions_ok_def otps_ok_def resets_ok_def)
qed

lemma stored_session_fields:
  assumes "stored_session m s s' st"
  shows "s_TokenHash st = s_TokenHash s" "s_UserID st = s_UserID s" "s_DeviceID st = s_DeviceID s"
    "s_ID st = s_ID s'" "s_TokenHash s' = s_TokenHash s" "s_UserID s' = s_UserID s"
    "s_ExpiresAt s' = s_ExpiresAt s" "micro (s_ExpiresAt st) (s_ExpiresAt s)" "\<forall>x \<in> ran m. s_ID x \<noteq> s_ID s'"
  using assms by (auto simp: stored_session_def)

lemma vault_ok_new_session [vault_changes]:
  assumes "vault_ok C v" "stored_session (v_sessions v) s s' st"
    and "s_TokenHash s \<notin> v_unused v" "s_TokenHash s \<noteq> []" "s_UserID s \<in> dom (v_users v)"
    and "s_TokenHash s \<notin> dom (v_cache v)"
  shows "vault_ok C (v\<lparr>v_sessions := (v_sessions v)(s_TokenHash s \<mapsto> st)\<rparr>)"
proof -
  note f = stored_session_fields[OF assms(2)]
  have "sessions_ok (v_unused v) (v_users v) ((v_sessions v)(s_TokenHash s \<mapsto> st))"
    using assms(1,3,4,5) f(1,2,4,9) by (simp add: vault_ok_def sessions_ok_def ran_def) (metis f(4))
  then show ?thesis
    using assms(1,6) by (auto simp: vault_ok_def cache_ok_def)
qed

lemma vault_ok_touch [vault_changes]:
  assumes "vault_ok C v" "v_sessions v h = Some s"
  shows "vault_ok C (v\<lparr>v_sessions := (v_sessions v)(h \<mapsto> s\<lparr>s_LastUsedAt := t\<rparr>)\<rparr>)"
  using assms by (auto simp: vault_ok_def sessions_ok_def cache_ok_def agrees_def)

lemma vault_ok_fewer_sessions:
  assumes "vault_ok C v" "m \<subseteq>\<^sub>m v_sessions v"
  shows "vault_ok C (v\<lparr>v_sessions := m\<rparr>)"
proof -
  have "m h = Some s \<Longrightarrow> v_sessions v h = Some s" for h s
    using assms(2) by (metis domI map_le_def)
  with assms(1) show ?thesis
    unfolding vault_ok_def sessions_ok_def cache_ok_def by simp blast
qed

lemma map_le_delete: "m(k := None) \<subseteq>\<^sub>m m"
  by (auto simp: map_le_def)

lemma map_le_restrict: "m |` A \<subseteq>\<^sub>m m"
  by (auto simp: map_le_def)

lemmas vault_ok_drop_session [vault_changes] = vault_ok_fewer_sessions[OF _ map_le_delete]
lemmas vault_ok_drop_sessions [vault_changes] = vault_ok_fewer_sessions[OF _ map_le_restrict]

lemma vault_ok_rotate [vault_changes]:
  assumes "vault_ok C v" "stored_session ((v_sessions v)(old := None)) s s' st"
    and "s_TokenHash s \<notin> v_unused v" "s_TokenHash s \<noteq> []" "s_UserID s \<in> dom (v_users v)"
    and "s_TokenHash s \<notin> dom (v_cache v)"
  shows "vault_ok C (v\<lparr>v_sessions := ((v_sessions v)(old := None))(s_TokenHash s \<mapsto> st)\<rparr>)"
  using vault_ok_new_session[OF vault_ok_drop_session[OF assms(1), of old], of s s' st] assms(2-) by simp

lemma vault_ok_cache [vault_changes]:
  assumes "vault_ok C v" "h \<notin> v_unused v" "\<And>s. v_sessions v h = Some s \<Longrightarrow> agrees c s"
  shows "vault_ok C (v\<lparr>v_cache := (v_cache v)(h \<mapsto> (c, x))\<rparr>)"
  using assms by (auto simp: vault_ok_def cache_ok_def)

lemma vault_ok_fewer_cached [vault_changes]:
  assumes "vault_ok C v" "m \<subseteq>\<^sub>m v_cache v"
  shows "vault_ok C (v\<lparr>v_cache := m\<rparr>)"
proof -
  have "m h = Some s \<Longrightarrow> v_cache v h = Some s" for h s
    using assms(2) by (metis domI map_le_def)
  with assms(1) show ?thesis unfolding vault_ok_def cache_ok_def by simp blast
qed

lemmas vault_ok_uncache [vault_changes] = vault_ok_fewer_cached[OF _ map_le_delete]

lemma vault_ok_otp [vault_changes]:
  assumes "vault_ok C v" "owner_email C (v_users v) (o_UserID r) k" "0 \<le> o_Attempts r"
  shows "vault_ok C (v\<lparr>v_otps := (v_otps v)(k \<mapsto> (r, x))\<rparr>)"
  using assms by (auto simp: vault_ok_def otps_ok_def)

lemma vault_ok_drop_otp [vault_changes]:
  "vault_ok C v \<Longrightarrow> vault_ok C (v\<lparr>v_otps := (v_otps v)(k := None)\<rparr>)"
  by (auto simp: vault_ok_def otps_ok_def)

lemma vault_ok_reset [vault_changes]:
  assumes "vault_ok C v" "h \<notin> v_unused v" "owner_email C (v_users v) (t_UserID r) (Hash C (t_Email r))"
  shows "vault_ok C (v\<lparr>v_resets := (v_resets v)(h \<mapsto> (r, x))\<rparr>)"
  using assms by (auto simp: vault_ok_def resets_ok_def)

lemma vault_ok_drop_reset [vault_changes]:
  "vault_ok C v \<Longrightarrow> vault_ok C (v\<lparr>v_resets := (v_resets v)(h := None)\<rparr>)"
  by (auto simp: vault_ok_def resets_ok_def)

section \<open>Following a request\<close>

text \<open>
  \<open>track C I view v0 V w\<close>: in the middle of a request that started from the vault \<open>v0\<close>, the
  world \<open>w\<close> shows the vault \<open>V\<close> (up to time that passed and digests that were used up), and
  \<open>V\<close> satisfies the invariant. \<open>fresh_hash v0 h V\<close>: the digest \<open>h\<close> was drawn during the request
  and nothing is stored under it yet.
\<close>

definition track ::
  "crypto \<Rightarrow> ('w \<Rightarrow> bool) \<Rightarrow> ('w \<Rightarrow> vault) \<Rightarrow> vault \<Rightarrow> vault \<Rightarrow> 'w \<Rightarrow> bool" where
  "track C I view v0 V w \<longleftrightarrow> I w \<and> frame V (view w) \<and> vault_ok C V \<and> evolves v0 V"

definition fresh_hash :: "vault \<Rightarrow> string \<Rightarrow> vault \<Rightarrow> bool" where
  "fresh_hash v0 h v \<longleftrightarrow> h \<in> v_unused v0 - v_unused v \<and> h \<noteq> []
     \<and> h \<notin> dom (v_sessions v) \<and> h \<notin> dom (v_cache v) \<and> h \<notin> dom (v_resets v)"

lemma fresh_hash_later [simp]: "fresh_hash v0 h (v\<lparr>v_now := t\<rparr>) = fresh_hash v0 h v"
  by (simp add: fresh_hash_def)

lemma fresh_hash_otps [simp]: "fresh_hash v0 h (v\<lparr>v_otps := os\<rparr>) = fresh_hash v0 h v"
  by (simp add: fresh_hash_def)

lemma fresh_hash_drawn:
  assumes "vault_ok C v" "evolves v0 v" "h \<in> v_unused v" "h \<noteq> []"
  shows "fresh_hash v0 h (v\<lparr>v_unused := v_unused v - {h}\<rparr>)"
  using assms by (auto simp: fresh_hash_def vault_ok_def evolves_def sessions_ok_def cache_ok_def resets_ok_def)

lemma track_start: "I w \<Longrightarrow> vault_ok C (view w) \<Longrightarrow> track C I view (view w) (view w) w"
  by (simp add: track_def)

lemma trackD:
  assumes "track C I view v0 V w"
  shows "I w" "vault_ok C V" "evolves v0 V" "frame V (view w)"
  using assms by (auto simp: track_def)

definition settled :: "crypto \<Rightarrow> ('w \<Rightarrow> bool) \<Rightarrow> ('w \<Rightarrow> vault) \<Rightarrow> vault \<Rightarrow> 'w \<Rightarrow> bool" where
  "settled C I view v0 w \<longleftrightarrow> I w \<and> vault_ok C (view w) \<and> evolves v0 (view w)"

lemma track_end: "track C I view v0 V w \<Longrightarrow> settled C I view v0 w"
  by (auto simp: track_def settled_def intro: vault_ok_frame evolves_trans evolves_frame)

text \<open>
  The tables of the world are those of the vault it is tracked by, except for entries that a remote
  server has dropped since.
\<close>

lemma track_tables:
  assumes "track C I view v0 V w"
  shows "v_users (view w) = v_users V" "v_sessions (view w) = v_sessions V" "v_remote (view w) = v_remote V"
  using assms by (auto simp: track_def frame_def)

lemma track_keeps:
  assumes "track C I view v0 V w"
  shows "keeps (v_remote V) (v_now (view w)) (v_cache V) (v_cache (view w))"
    "keeps (v_remote V) (v_now (view w)) (v_otps V) (v_otps (view w))"
    "keeps (v_remote V) (v_now (view w)) (v_resets V) (v_resets (view w))"
  using assms by (auto simp: track_def frame_def)

lemma track_final:
  assumes "track C I view v0 V w"
  shows "settled C I view v0 w \<and> v_users (view w) = v_users V \<and> v_sessions (view w) = v_sessions V
    \<and> keeps (v_remote V) (v_now (view w)) (v_otps V) (v_otps (view w))
    \<and> keeps (v_remote V) (v_now (view w)) (v_resets V) (v_resets (view w))"
  using track_end[OF assms] assms by (auto simp: track_def frame_def)

lemmas track_entry = keeps_Some[OF track_keeps(1)] keeps_Some[OF track_keeps(2)] keeps_Some[OF track_keeps(3)]

lemma track_frame: "track C I view v0 V w \<Longrightarrow> I w' \<Longrightarrow> frame (view w) (view w') \<Longrightarrow> track C I view v0 V w'"
  by (auto simp: track_def intro: frame_trans)

text \<open>An update of a table on top of what the vault is tracked by.\<close>

lemma frame_users: "frame V v \<Longrightarrow> frame (v\<lparr>v_users := m\<rparr>) v' \<Longrightarrow> frame (V\<lparr>v_users := m\<rparr>) v'"
  by (auto simp: frame_def intro: keeps_trans)

lemma frame_sessions: "frame V v \<Longrightarrow> frame (v\<lparr>v_sessions := m\<rparr>) v' \<Longrightarrow> frame (V\<lparr>v_sessions := m\<rparr>) v'"
  by (auto simp: frame_def intro: keeps_trans)

lemma frame_cache: "frame V v \<Longrightarrow> frame (v\<lparr>v_cache := m\<rparr>) v' \<Longrightarrow> keeps (v_remote V) (v_now v) m0 m \<Longrightarrow> frame (V\<lparr>v_cache := m0\<rparr>) v'"
  by (auto simp: frame_def intro: keeps_trans)

lemma frame_otps: "frame V v \<Longrightarrow> frame (v\<lparr>v_otps := m\<rparr>) v' \<Longrightarrow> keeps (v_remote V) (v_now v) m0 m \<Longrightarrow> frame (V\<lparr>v_otps := m0\<rparr>) v'"
  by (auto simp: frame_def intro: keeps_trans)

lemma frame_resets: "frame V v \<Longrightarrow> frame (v\<lparr>v_resets := m\<rparr>) v' \<Longrightarrow> keeps (v_remote V) (v_now v) m0 m \<Longrightarrow> frame (V\<lparr>v_resets := m0\<rparr>) v'"
  by (auto simp: frame_def intro: keeps_trans)

lemma track_users:
  "track C I view v0 V w \<Longrightarrow> I w' \<Longrightarrow> frame ((view w)\<lparr>v_users := m\<rparr>) (view w') \<Longrightarrow>
   vault_ok C (V\<lparr>v_users := m\<rparr>) \<Longrightarrow> evolves v0 (V\<lparr>v_users := m\<rparr>) \<Longrightarrow> track C I view v0 (V\<lparr>v_users := m\<rparr>) w'"
  by (auto simp: track_def intro: frame_users)

lemma track_sessions:
  "track C I view v0 V w \<Longrightarrow> I w' \<Longrightarrow> frame ((view w)\<lparr>v_sessions := m\<rparr>) (view w') \<Longrightarrow>
   vault_ok C (V\<lparr>v_sessions := m\<rparr>) \<Longrightarrow> evolves v0 (V\<lparr>v_sessions := m\<rparr>) \<Longrightarrow>
   track C I view v0 (V\<lparr>v_sessions := m\<rparr>) w'"
  by (auto simp: track_def intro: frame_sessions)

lemma track_cached:
  "track C I view v0 V w \<Longrightarrow> I w' \<Longrightarrow> frame ((view w)\<lparr>v_cache := m\<rparr>) (view w') \<Longrightarrow>
   keeps (v_remote V) (v_now (view w)) m0 m \<Longrightarrow> vault_ok C (V\<lparr>v_cache := m0\<rparr>) \<Longrightarrow> track C I view v0 (V\<lparr>v_cache := m0\<rparr>) w'"
  by (auto simp: track_def evolves_def intro: frame_cache)

lemma track_otps:
  "track C I view v0 V w \<Longrightarrow> I w' \<Longrightarrow> frame ((view w)\<lparr>v_otps := m\<rparr>) (view w') \<Longrightarrow>
   keeps (v_remote V) (v_now (view w)) m0 m \<Longrightarrow> vault_ok C (V\<lparr>v_otps := m0\<rparr>) \<Longrightarrow> track C I view v0 (V\<lparr>v_otps := m0\<rparr>) w'"
  by (auto simp: track_def evolves_def intro: frame_otps)

lemma track_resets:
  "track C I view v0 V w \<Longrightarrow> I w' \<Longrightarrow> frame ((view w)\<lparr>v_resets := m\<rparr>) (view w') \<Longrightarrow>
   keeps (v_remote V) (v_now (view w)) m0 m \<Longrightarrow> vault_ok C (V\<lparr>v_resets := m0\<rparr>) \<Longrightarrow> evolves v0 (V\<lparr>v_resets := m0\<rparr>) \<Longrightarrow>
   track C I view v0 (V\<lparr>v_resets := m0\<rparr>) w'"
  by (auto simp: track_def intro: frame_resets)

lemma track_clock:
  "track C I view v0 V w \<Longrightarrow> I w' \<Longrightarrow> frame (view w) (view w') \<Longrightarrow>
   track C I view v0 (V\<lparr>v_now := v_now (view w')\<rparr>) w'"
  by (auto simp: track_def frame_def vault_ok_def evolves_def intro: keeps_trans)

lemma track_drawn:
  assumes "track C I view v0 V w" "I w'" "frame (view w) (view w')" "h \<in> v_unused (view w) - v_unused (view w')"
  shows "track C I view v0 (V\<lparr>v_unused := v_unused V - {h}\<rparr>) w'"
proof -
  let ?V = "V\<lparr>v_unused := v_unused V - {h}\<rparr>"
  have "vault_ok C ?V" using trackD(2)[OF assms(1)]
    by (auto simp: vault_ok_def intro: sessions_ok_mono cache_ok_mono resets_ok_mono)
  moreover have "evolves v0 ?V" using trackD(3)[OF assms(1)] unfolding evolves_def by simp blast
  ultimately show ?thesis using assms by (auto simp: track_def frame_def intro: keeps_trans)
qed

subsection \<open>How the bound on the changes is kept\<close>

lemma evolves_users: "evolves v0 v \<Longrightarrow> dom (v_users v) \<subseteq> dom us \<Longrightarrow> evolves v0 (v\<lparr>v_users := us\<rparr>)"
  unfolding evolves_def by simp blast

lemma evolves_fewer_sessions: "evolves v0 v \<Longrightarrow> dom m \<subseteq> dom (v_sessions v) \<Longrightarrow> evolves v0 (v\<lparr>v_sessions := m\<rparr>)"
  unfolding evolves_def by simp blast

lemma evolves_new_session:
  "evolves v0 v \<Longrightarrow> fresh_hash v0 h v \<Longrightarrow> dom m \<subseteq> dom (v_sessions v) \<Longrightarrow> evolves v0 (v\<lparr>v_sessions := m(h \<mapsto> st)\<rparr>)"
  unfolding evolves_def fresh_hash_def by simp blast

lemma evolves_new_reset:
  "evolves v0 v \<Longrightarrow> fresh_hash v0 h v \<Longrightarrow> evolves v0 (v\<lparr>v_resets := (v_resets v)(h \<mapsto> r)\<rparr>)"
  by (auto simp: evolves_def fresh_hash_def)

lemma evolves_drop_reset: "evolves v0 v \<Longrightarrow> evolves v0 (v\<lparr>v_resets := (v_resets v)(h := None)\<rparr>)"
  by (auto simp: evolves_def)

subsection \<open>The elementary changes, followed\<close>

lemma track_new_user:
  assumes "track C I view v0 V w" "I w'" "frame ((view w)\<lparr>v_users := (v_users V)(u_ID u \<mapsto> u)\<rparr>) (view w')"
    and "u_ID u \<notin> dom (v_users V)" "\<forall>x \<in> ran (v_users V). u_Email x \<noteq> e" "u_Email u = e"
  shows "track C I view v0 (V\<lparr>v_users := (v_users V)(u_ID u \<mapsto> u)\<rparr>) w'"
  using assms by (intro track_users[OF assms(1-3)] vault_ok_new_user evolves_users) (auto dest: trackD)

lemma track_set_password:
  assumes "track C I view v0 V w" "I w'"
    and "frame ((view w)\<lparr>v_users := (v_users V)(i \<mapsto> u\<lparr>u_PasswordHash := h, u_UpdatedAt := t\<rparr>)\<rparr>) (view w')"
    and "v_users V i = Some u"
  shows "track C I view v0 (V\<lparr>v_users := (v_users V)(i \<mapsto> u\<lparr>u_PasswordHash := h, u_UpdatedAt := t\<rparr>)\<rparr>) w'"
  using assms by (intro track_users[OF assms(1-3)] vault_ok_set_password evolves_users) (auto dest: trackD)

lemma track_touch:
  assumes "track C I view v0 V w" "I w'"
    and "frame ((view w)\<lparr>v_sessions := (v_sessions V)(h \<mapsto> x\<lparr>s_LastUsedAt := t\<rparr>)\<rparr>) (view w')"
    and "v_sessions V h = Some x"
  shows "track C I view v0 (V\<lparr>v_sessions := (v_sessions V)(h \<mapsto> x\<lparr>s_LastUsedAt := t\<rparr>)\<rparr>) w'"
  using assms by (intro track_sessions[OF assms(1-3)] vault_ok_touch evolves_fewer_sessions)
    (auto dest: trackD split: if_splits)

lemma track_fewer_sessions:
  assumes "track C I view v0 V w" "I w'" "frame ((view w)\<lparr>v_sessions := m\<rparr>) (view w')" "m \<subseteq>\<^sub>m v_sessions V"
  shows "track C I view v0 (V\<lparr>v_sessions := m\<rparr>) w'"
  using assms by (intro track_sessions[OF assms(1-3)] vault_ok_fewer_sessions evolves_fewer_sessions)
    (auto dest: trackD map_le_implies_dom_le)

lemma track_new_session:
  assumes "track C I view v0 V w" "I w'"
    and "frame ((view w)\<lparr>v_sessions := (v_sessions V)(s_TokenHash x \<mapsto> st)\<rparr>) (view w')"
    and "stored_session (v_sessions V) x x' st" "fresh_hash v0 (s_TokenHash x) V" "s_UserID x \<in> dom (v_users V)"
  shows "track C I view v0 (V\<lparr>v_sessions := (v_sessions V)(s_TokenHash x \<mapsto> st)\<rparr>) w'"
  using assms by (intro track_sessions[OF assms(1-3)] vault_ok_new_session evolves_new_session)
    (auto simp: fresh_hash_def dest: trackD)

lemma track_rotate:
  assumes "track C I view v0 V w" "I w'"
    and "frame ((view w)\<lparr>v_sessions := ((v_sessions V)(old := None))(s_TokenHash x \<mapsto> st)\<rparr>) (view w')"
    and "stored_session ((v_sessions V)(old := None)) x x' st" "fresh_hash v0 (s_TokenHash x) V"
    and "s_UserID x \<in> dom (v_users V)"
  shows "track C I view v0 (V\<lparr>v_sessions := ((v_sessions V)(old := None))(s_TokenHash x \<mapsto> st)\<rparr>) w'"
  using assms by (intro track_sessions[OF assms(1-3)] vault_ok_rotate evolves_new_session)
    (auto simp: fresh_hash_def dest: trackD split: if_splits)

lemma track_cache:
  assumes "track C I view v0 V w" "I w'" "frame ((view w)\<lparr>v_cache := (v_cache (view w))(h \<mapsto> (c, x))\<rparr>) (view w')"
    and "h \<notin> v_unused V" "\<And>s. v_sessions V h = Some s \<Longrightarrow> agrees c s"
  shows "track C I view v0 (V\<lparr>v_cache := (v_cache V)(h \<mapsto> (c, x))\<rparr>) w'"
  using assms by (intro track_cached[OF assms(1-3)] vault_ok_cache keeps_upd track_keeps) (auto dest: trackD)

lemma track_fewer_cached:
  assumes "track C I view v0 V w" "I w'" "frame ((view w)\<lparr>v_cache := m\<rparr>) (view w')" "m \<subseteq>\<^sub>m v_cache (view w)"
  shows "track C I view v0 (V\<lparr>v_cache := m\<rparr>) w'"
  by (rule track_cached[OF assms(1-3)])
    (use map_le_trans[OF assms(4) keeps_map_le[OF track_keeps(1)[OF assms(1)]]] trackD(2)[OF assms(1)] in
      \<open>auto intro: vault_ok_fewer_cached\<close>)

lemma track_uncache:
  assumes "track C I view v0 V w" "I w'" "frame ((view w)\<lparr>v_cache := (v_cache (view w))(h := None)\<rparr>) (view w')"
  shows "track C I view v0 (V\<lparr>v_cache := (v_cache V)(h := None)\<rparr>) w'"
  by (intro track_cached[OF assms] keeps_upd track_keeps[OF assms(1)] vault_ok_uncache trackD(2)[OF assms(1)])

lemma track_otp:
  assumes "track C I view v0 V w" "I w'" "frame ((view w)\<lparr>v_otps := (v_otps (view w))(k \<mapsto> (r, x))\<rparr>) (view w')"
    and "owner_email C (v_users V) (o_UserID r) k" "0 \<le> o_Attempts r"
  shows "track C I view v0 (V\<lparr>v_otps := (v_otps V)(k \<mapsto> (r, x))\<rparr>) w'"
  using assms by (intro track_otps[OF assms(1-3)] vault_ok_otp keeps_upd track_keeps) (auto dest: trackD)

lemma track_drop_otp:
  assumes "track C I view v0 V w" "I w'" "frame ((view w)\<lparr>v_otps := (v_otps (view w))(k := None)\<rparr>) (view w')"
  shows "track C I view v0 (V\<lparr>v_otps := (v_otps V)(k := None)\<rparr>) w'"
  by (intro track_otps[OF assms] keeps_upd track_keeps[OF assms(1)] vault_ok_drop_otp trackD(2)[OF assms(1)])

lemma track_maybe_drop_otp:
  assumes "track C I view v0 V w" "I w'" "frame ((view w)\<lparr>v_otps := m\<rparr>) (view w')"
    and "m \<in> {v_otps (view w), (v_otps (view w))(k := None)}"
  shows "\<exists>m0 \<in> {v_otps V, (v_otps V)(k := None)}. track C I view v0 (V\<lparr>v_otps := m0\<rparr>) w'"
  using assms track_frame[OF assms(1,2)] track_drop_otp[OF assms(1,2)] by auto

lemma track_reset:
  assumes "track C I view v0 V w" "I w'" "frame ((view w)\<lparr>v_resets := (v_resets (view w))(h \<mapsto> (r, x))\<rparr>) (view w')"
    and "fresh_hash v0 h V" "owner_email C (v_users V) (t_UserID r) (Hash C (t_Email r))"
  shows "track C I view v0 (V\<lparr>v_resets := (v_resets V)(h \<mapsto> (r, x))\<rparr>) w'"
  using assms by (intro track_resets[OF assms(1-3)] vault_ok_reset evolves_new_reset keeps_upd track_keeps)
    (auto simp: fresh_hash_def dest: trackD)

lemma track_drop_reset:
  assumes "track C I view v0 V w" "I w'" "frame ((view w)\<lparr>v_resets := (v_resets (view w))(k := None)\<rparr>) (view w')"
  shows "track C I view v0 (V\<lparr>v_resets := (v_resets V)(k := None)\<rparr>) w'"
  by (intro track_resets[OF assms] keeps_upd track_keeps[OF assms(1)] vault_ok_drop_reset evolves_drop_reset
      trackD(2,3)[OF assms(1)])

lemma track_maybe_drop_reset:
  assumes "track C I view v0 V w" "I w'" "frame ((view w)\<lparr>v_resets := m\<rparr>) (view w')"
    and "m \<in> {v_resets (view w), (v_resets (view w))(k := None)}"
  shows "\<exists>m0 \<in> {v_resets V, (v_resets V)(k := None)}. track C I view v0 (V\<lparr>v_resets := m0\<rparr>) w'"
  using assms track_frame[OF assms(1,2)] track_drop_reset[OF assms(1,2)] by auto

lemmas track_changes = track_frame track_new_user track_set_password track_touch
  track_new_session track_rotate track_fewer_sessions[OF _ _ _ map_le_delete]
  track_fewer_sessions[OF _ _ _ map_le_restrict] track_cache track_uncache track_fewer_cached
  track_otp track_drop_otp track_reset track_drop_reset

end
