(* ===== verification/Auth_Backend.thy ===== *)
theory Auth_Backend
  imports Auth_Service Service_Invariant
begin

section \<open>Symbolic execution\<close>

text \<open>
  The structural rules of a branch, as introduction rules: a known constructor picks its
  branch, anything else gives one goal per branch.
\<close>

lemma branch_known:
  "P e \<Longrightarrow> case Inl e of Inl e \<Rightarrow> P e | Inr y \<Rightarrow> Q y"
  "Q y \<Longrightarrow> case Inr y of Inl e \<Rightarrow> P e | Inr y \<Rightarrow> Q y"
  "R \<Longrightarrow> case None of None \<Rightarrow> R | Some y \<Rightarrow> Q y"
  "Q y \<Longrightarrow> case Some y of None \<Rightarrow> R | Some y \<Rightarrow> Q y"
  "S a b \<Longrightarrow> case (a, b) of (a, b) \<Rightarrow> S a b"
  by simp_all

lemma branch_split:
  "(c \<Longrightarrow> R) \<Longrightarrow> (\<not> c \<Longrightarrow> R') \<Longrightarrow> if c then R else R'"
  "(x = None \<Longrightarrow> R) \<Longrightarrow> (\<And>y. x = Some y \<Longrightarrow> Q y) \<Longrightarrow> case x of None \<Rightarrow> R | Some y \<Rightarrow> Q y"
  "(\<And>e. z = Inl e \<Longrightarrow> P e) \<Longrightarrow> (\<And>y. z = Inr y \<Longrightarrow> Q y) \<Longrightarrow> case z of Inl e \<Rightarrow> P e | Inr y \<Rightarrow> Q y"
  "(\<And>a b. p = (a, b) \<Longrightarrow> S a b) \<Longrightarrow> case p of (a, b) \<Rightarrow> S a b"
  by (auto split: option.split sum.split prod.split)

lemmas branches = branch_known branch_split

text \<open>What a request sees of a session it stored: the fields it gave, and the ID it got back.\<close>

definition kept_session :: "Session \<Rightarrow> Session \<Rightarrow> Session \<Rightarrow> bool" where
  "kept_session x x' st \<longleftrightarrow> s_TokenHash st = s_TokenHash x \<and> s_UserID st = s_UserID x
     \<and> s_DeviceID st = s_DeviceID x \<and> s_ID st = s_ID x' \<and> s_ExpiresAt x' = s_ExpiresAt x
     \<and> micro (s_ExpiresAt st) (s_ExpiresAt x)"

lemma stored_kept: "stored_session m x x' st \<Longrightarrow> kept_session x x' st"
  by (auto simp: stored_session_def kept_session_def)

section \<open>The interface of a whole backend\<close>

text \<open>The caller of a request: the user ID that \<^verbatim>\<open>extractUserIDFromCtx\<close> finds, or its error.\<close>

definition caller :: "'w AuthService \<Rightarrow> ctx \<Rightarrow> 'w \<Rightarrow> rpc_error + string" where
  "caller s ctx w = fst (run_state (extractUserIDFromCtx s ctx) w)"

locale auth_backend =
  runtime_env "lib_crypto L" inv view "lib_runtime L" +
  user_store inv view "userStore s" +
  session_store inv view "sessionStore s" sure +
  session_cache inv view "cache s" +
  reset_store "lib_crypto L" inv view "resetStore s" +
  token_manager inv view "tokenMgr s" +
  login_guard inv view "bruteGuard s"
  for L :: "'w golib" and s :: "'w AuthService" and inv :: "'w \<Rightarrow> bool" and view :: "'w \<Rightarrow> vault" and sure :: bool
begin

abbreviation tracks :: "vault \<Rightarrow> vault \<Rightarrow> 'w \<Rightarrow> bool" where
  "tracks \<equiv> track (lib_crypto L) inv view"

abbreviation settles :: "vault \<Rightarrow> 'w \<Rightarrow> bool" where
  "settles \<equiv> settled (lib_crypto L) inv view"

subsection \<open>Clock, random source, goroutines, tokens, guard\<close>

lemma go_Now:
  assumes "tracks v0 V w"
    and "\<And>t w'. v_now V \<le> t \<Longrightarrow> tracks v0 (V\<lparr>v_now := t\<rparr>) w' \<Longrightarrow> Q t w'"
  shows "wp (Now (lib_runtime L)) Q w"
proof (rule wp_Now[OF trackD(1)[OF assms(1)]])
  fix w' assume w': "inv w'" "frame (view w) (view w')"
  then have "v_now V \<le> v_now (view w')" using trackD(4)[OF assms(1)] by (auto simp: frame_def)
  then show "Q (v_now (view w')) w'" by (rule assms(2)) (rule track_clock[OF assms(1) w'])
qed

lemma go_token_Generate:
  assumes "tracks v0 V w"
    and "\<And>err w'. tracks v0 V w' \<Longrightarrow> Q (Inl err) w'"
    and "\<And>plain w'. tracks v0 (V\<lparr>v_unused := v_unused V - {Hash (lib_crypto L) plain}\<rparr>) w' \<Longrightarrow>
      fresh_hash v0 (Hash (lib_crypto L) plain) (V\<lparr>v_unused := v_unused V - {Hash (lib_crypto L) plain}\<rparr>) \<Longrightarrow>
      Q (Inr (plain, Hash (lib_crypto L) plain)) w'"
  shows "wp (token_Generate (lib_crypto L) (lib_runtime L)) Q w"
proof (rule wp_token_Generate_new[OF trackD(1)[OF assms(1)]])
  fix plain w'
  assume w': "inv w'" "frame (view w) (view w')"
    and h: "Hash (lib_crypto L) plain \<in> v_unused (view w) - v_unused (view w')"
  then have "Hash (lib_crypto L) plain \<in> v_unused V"
    using trackD(4)[OF assms(1)] by (auto simp: frame_def)
  then show "Q (Inr (plain, Hash (lib_crypto L) plain)) w'"
    by (rule assms(3)[OF track_drawn[OF assms(1) w' h]
          fresh_hash_drawn[OF trackD(2,3)[OF assms(1)] _ Hash_nonempty[OF w'(1)]]])
qed (blast intro: assms(2) track_frame[OF assms(1)])

lemma go_otp_Generate:
  assumes "tracks v0 V w" and "\<And>err w'. tracks v0 V w' \<Longrightarrow> Q (Inl err) w'" and "\<And>otp w'. tracks v0 V w' \<Longrightarrow> Q (Inr otp) w'"
  shows "wp (otp_Generate (lib_runtime L)) Q w"
  by (rule wp_otp_Generate_frame[OF trackD(1)[OF assms(1)]]) (blast intro: assms track_frame)+

lemma go_password_Hash:
  assumes "tracks v0 V w"
    and "\<And>err w'. tracks v0 V w' \<Longrightarrow> Q (Some (Inl err)) w'"
    and "\<And>h w'. tracks v0 V w' \<Longrightarrow> password_Verify (lib_crypto L) p h = Some (Inr True) \<Longrightarrow> Q (Some (Inr h)) w'"
  shows "wp (password_Hash (lib_crypto L) (lib_runtime L) p) Q w"
  by (rule wp_password_Hash_frame[OF trackD(1)[OF assms(1)]]) (blast intro: assms track_frame)+

lemma go_logAudit:
  assumes "tracks v0 V w" and "\<And>w'. tracks v0 V w' \<Longrightarrow> Q () w'"
  shows "wp (logAudit L s u e ip ua m) Q w"
proof (cases "auditStore s")
  case None
  with assms show ?thesis by (simp add: logAudit_def wp_simps)
next
  case (Some a)
  show ?thesis unfolding logAudit_def Some option.case
    by (rule wp_Go[OF trackD(1)[OF assms(1)]]) (blast intro: assms track_frame)
qed

lemma go_fireHook:
  assumes "tracks v0 V w" and "\<And>w'. tracks v0 V w' \<Longrightarrow> Q () w'"
  shows "wp (fireHook L s u em e ip ua m) Q w"
  unfolding fireHook_def
  by (rule wp_Go[OF trackD(1)[OF assms(1)]]) (blast intro: assms track_frame)

lemma go_GenerateAccessToken:
  assumes "tracks v0 V w" and "\<And>r w'. tracks v0 V w' \<Longrightarrow> Q r w'"
  shows "wp (tm_GenerateAccessToken (tokenMgr s) u e rs) Q w"
  by (rule wp_tm_Generate[OF trackD(1)[OF assms(1)]]) (blast intro: assms track_frame)

lemma go_ValidateAccessToken:
  assumes "tracks v0 V w" and "\<And>r w'. tracks v0 V w' \<Longrightarrow> Q r w'"
  shows "wp (tm_ValidateAccessToken (tokenMgr s) tok) Q w"
  by (rule wp_tm_Validate[OF trackD(1)[OF assms(1)]]) (blast intro: assms track_frame)

lemma go_extractUserIDFromCtx:
  assumes "tracks v0 V w" and "\<And>w'. tracks v0 V w' \<Longrightarrow> Q (caller s ctx w) w'"
  shows "wp (extractUserIDFromCtx s ctx) Q w"
proof -
  have "wp (extractUserIDFromCtx s ctx) (\<lambda>_. tracks v0 V) w"
    unfolding extractUserIDFromCtx_def
    by (auto simp: wp_simps assms split: option.split list.split prod.split
        intro!: go_ValidateAccessToken[OF assms(1)])
  then show ?thesis using assms(2) by (auto simp: wp_def caller_def split: prod.splits)
qed

lemma go_guard_locked:
  assumes "tracks v0 V w" and "\<And>b w'. tracks v0 V w' \<Longrightarrow> Q b w'"
  shows "wp (guard_locked s e) Q w"
  unfolding guard_locked_def using assms track_frame[OF assms(1)]
  by (auto simp: wp_simps split: option.split intro!: wp_bg_IsLocked dest: trackD)

lemma go_guard_failure:
  assumes "tracks v0 V w" and "\<And>b w'. tracks v0 V w' \<Longrightarrow> Q b w'"
  shows "wp (guard_failure s e) Q w"
  unfolding guard_failure_def using assms track_frame[OF assms(1)]
  by (auto simp: wp_simps split: option.split intro!: wp_bg_RecordFailure dest: trackD)

lemma go_guard_reset:
  assumes "tracks v0 V w" and "\<And>w'. tracks v0 V w' \<Longrightarrow> Q () w'"
  shows "wp (guard_reset s e) Q w"
  unfolding guard_reset_def using assms track_frame[OF assms(1)]
  by (auto simp: wp_simps split: option.split intro!: wp_bg_Reset dest: trackD)

subsection \<open>Users\<close>

lemma go_us_Create:
  assumes "tracks v0 V w"
    and "\<And>err w'. tracks v0 V w' \<Longrightarrow>
      (err = ErrUserAlreadyExists \<longrightarrow> (\<exists>x \<in> ran (v_users V). u_Email x = e)) \<Longrightarrow> Q (Inl err) w'"
    and "\<And>u w'. tracks v0 (V\<lparr>v_users := (v_users V)(u_ID u \<mapsto> u)\<rparr>) w' \<Longrightarrow> u_Email u = e \<Longrightarrow> u_PasswordHash u = h \<Longrightarrow>
      u_ID u \<notin> dom (v_users V) \<Longrightarrow> (\<forall>x \<in> ran (v_users V). u_Email x \<noteq> e) \<Longrightarrow> Q (Inr u) w'"
  shows "wp (us_Create (userStore s) e h) Q w"
  by (rule wp_us_Create[OF trackD(1)[OF assms(1)], unfolded track_tables[OF assms(1)]])
    (rule assms; (assumption | (rule track_changes[OF assms(1)]; assumption)))+

lemma go_us_GetByEmail:
  assumes "tracks v0 V w"
    and "\<And>err w'. tracks v0 V w' \<Longrightarrow>
      (err = ErrUserNotFound \<longrightarrow> (\<forall>x \<in> ran (v_users V). u_Email x \<noteq> e)) \<Longrightarrow> Q (Inl err) w'"
    and "\<And>u w'. tracks v0 V w' \<Longrightarrow> v_users V (u_ID u) = Some u \<Longrightarrow> u_Email u = e \<Longrightarrow> Q (Inr u) w'"
  shows "wp (us_GetByEmail (userStore s) e) Q w"
  by (rule wp_us_GetByEmail[OF trackD(1)[OF assms(1)], unfolded track_tables[OF assms(1)]])
    (rule assms; (assumption | (rule track_changes[OF assms(1)]; assumption)))+

lemma go_us_GetByID:
  assumes "tracks v0 V w"
    and "\<And>err w'. tracks v0 V w' \<Longrightarrow> (err = ErrUserNotFound \<longrightarrow> v_users V i = None) \<Longrightarrow> Q (Inl err) w'"
    and "\<And>u w'. tracks v0 V w' \<Longrightarrow> v_users V i = Some u \<Longrightarrow> Q (Inr u) w'"
  shows "wp (us_GetByID (userStore s) i) Q w"
  by (rule wp_us_GetByID[OF trackD(1)[OF assms(1)], unfolded track_tables[OF assms(1)]])
    (rule assms; (assumption | (rule track_changes[OF assms(1)]; assumption)))+

lemma go_us_Update:
  assumes "tracks v0 V w"
    and "\<And>err w'. tracks v0 V w' \<Longrightarrow> (err = ErrUserNotFound \<longrightarrow> v_users V i = None) \<Longrightarrow> Q (Inl err) w'"
    and "\<And>u t w'. tracks v0 (V\<lparr>v_users := (v_users V)(i \<mapsto> u\<lparr>u_PasswordHash := h, u_UpdatedAt := t\<rparr>)\<rparr>) w' \<Longrightarrow>
      v_users V i = Some u \<Longrightarrow> Q (Inr ()) w'"
  shows "wp (us_UpdatePasswordHash (userStore s) i h) Q w"
  by (rule wp_us_Update[OF trackD(1)[OF assms(1)], unfolded track_tables[OF assms(1)]])
    (rule assms; (assumption | (rule track_changes[OF assms(1)]; assumption)))+

subsection \<open>Sessions\<close>

lemma fresh_new_session:
  "tracks v0 V w \<Longrightarrow> fresh_hash v0 (s_TokenHash x) V \<Longrightarrow> s_ID x = [] \<and> s_UserEmail x = [] \<Longrightarrow> new_session (view w) x"
  by (simp add: new_session_def fresh_hash_def track_tables)

lemma go_ss_Create:
  assumes "tracks v0 V w" "fresh_hash v0 (s_TokenHash x) V" "s_ID x = [] \<and> s_UserEmail x = []" "s_UserID x \<in> dom (v_users V)"
    and "\<And>err w'. tracks v0 V w' \<Longrightarrow> Q (Inl err) w'"
    and "\<And>x' st w'. tracks v0 (V\<lparr>v_sessions := (v_sessions V)(s_TokenHash x \<mapsto> st)\<rparr>) w' \<Longrightarrow>
      kept_session x x' st \<Longrightarrow> Q (Inr x') w'"
  shows "wp (ss_Create (sessionStore s) x) Q w"
  by (rule wp_ss_Create[OF trackD(1)[OF assms(1)] fresh_new_session[OF assms(1-3)], unfolded track_tables[OF assms(1)]])
    (rule assms; (assumption | erule stored_kept
       | (rule track_changes[OF assms(1)]; (assumption | rule assms))))+

lemma go_ss_Get:
  assumes "tracks v0 V w"
    and "\<And>err w'. tracks v0 V w' \<Longrightarrow> (err = ErrSessionNotFound \<longrightarrow> v_sessions V h = None) \<Longrightarrow> Q (Inl err) w'"
    and "\<And>x e t w'. tracks v0 (V\<lparr>v_sessions := (v_sessions V)(h \<mapsto> x\<lparr>s_LastUsedAt := t\<rparr>)\<rparr>) w' \<Longrightarrow>
      v_sessions V h = Some x \<Longrightarrow> Q (Inr (x\<lparr>s_UserEmail := e, s_LastUsedAt := t\<rparr>)) w'"
  shows "wp (ss_GetByTokenHash (sessionStore s) h) Q w"
  by (rule wp_ss_Get[OF trackD(1)[OF assms(1)], unfolded track_tables[OF assms(1)]])
    (rule assms; (assumption | (rule track_changes[OF assms(1)]; assumption)))+

lemma go_ss_DeleteByID:
  assumes "tracks v0 V w"
    and "\<And>err w'. tracks v0 V w' \<Longrightarrow> (err = ErrSessionNotFound \<longrightarrow>
      (\<forall>x \<in> ran (v_sessions V). \<not> (s_ID x = i \<and> s_UserID x = uid))) \<Longrightarrow> Q (Inl err) w'"
    and "\<And>h x w'. tracks v0 (V\<lparr>v_sessions := (v_sessions V)(h := None)\<rparr>) w' \<Longrightarrow>
      v_sessions V h = Some x \<Longrightarrow> s_ID x = i \<Longrightarrow> s_UserID x = uid \<Longrightarrow> Q (Inr h) w'"
  shows "wp (ss_DeleteByID (sessionStore s) i uid) Q w"
  by (rule wp_ss_DeleteByID[OF trackD(1)[OF assms(1)], unfolded track_tables[OF assms(1)]])
    (rule assms; (assumption | (rule track_changes[OF assms(1)]; assumption)))+

lemma go_ss_Delete:
  assumes "tracks v0 V w"
    and "\<And>err w'. tracks v0 V w' \<Longrightarrow> Q (Inl err) w'"
    and "\<And>w'. tracks v0 (V\<lparr>v_sessions := (v_sessions V)(h := None)\<rparr>) w' \<Longrightarrow> Q (Inr ()) w'"
  shows "wp (ss_DeleteByTokenHash (sessionStore s) h) Q w"
  by (rule wp_ss_Delete[OF trackD(1)[OF assms(1)], unfolded track_tables[OF assms(1)]])
    (rule assms; (assumption | (rule track_changes[OF assms(1)]; assumption)))+

lemma go_ss_Rotate:
  assumes "tracks v0 V w" "fresh_hash v0 (s_TokenHash x) V" "s_ID x = [] \<and> s_UserEmail x = []"
    and "\<And>y. v_sessions V old = Some y \<Longrightarrow> s_UserID x \<in> dom (v_users V)"
    and "\<And>err w'. tracks v0 V w' \<Longrightarrow> (err = ErrSessionNotFound \<longrightarrow> v_sessions V old = None) \<Longrightarrow> Q (Inl err) w'"
    and "\<And>x' st y w'. tracks v0 (V\<lparr>v_sessions := ((v_sessions V)(old := None))(s_TokenHash x \<mapsto> st)\<rparr>) w' \<Longrightarrow>
      v_sessions V old = Some y \<Longrightarrow> kept_session x x' st \<Longrightarrow> Q (Inr x') w'"
  shows "wp (ss_RotateToken (sessionStore s) old x) Q w"
  by (rule wp_ss_Rotate[OF trackD(1)[OF assms(1)] fresh_new_session[OF assms(1-3)], unfolded track_tables[OF assms(1)]])
    (rule assms; (assumption | erule stored_kept
       | (rule track_changes[OF assms(1)]; (assumption | (rule assms; assumption?)))))+

lemma go_ss_DeleteAll:
  assumes "tracks v0 V w"
    and "\<And>hs err w'. tracks v0 V w' \<Longrightarrow> \<not> sure \<Longrightarrow> Q (hs, Some err) w'"
    and "\<And>hs err w'. tracks v0 (V\<lparr>v_sessions := v_sessions V |` (- user_hashes (v_sessions V) uid)\<rparr>) w' \<Longrightarrow>
      (err = None \<longrightarrow> set hs = user_hashes (v_sessions V) uid \<and> distinct hs) \<Longrightarrow> (sure \<longrightarrow> err = None) \<Longrightarrow> Q (hs, err) w'"
  shows "wp (ss_DeleteAllByUserID (sessionStore s) uid) Q w"
  by (rule wp_ss_DeleteAll[OF trackD(1)[OF assms(1)], unfolded track_tables[OF assms(1)]])
    (rule assms; (assumption | (rule track_changes[OF assms(1)]; assumption)))+

lemma go_ss_DeleteAllExcept:
  assumes "tracks v0 V w"
    and "\<And>hs err w'. tracks v0 V w' \<Longrightarrow> \<not> sure \<Longrightarrow> Q (hs, Some err) w'"
    and "\<And>hs err w'. tracks v0 (V\<lparr>v_sessions := v_sessions V |` (- (user_hashes (v_sessions V) uid - {keep}))\<rparr>) w' \<Longrightarrow>
      (err = None \<longrightarrow> set hs = user_hashes (v_sessions V) uid - {keep} \<and> distinct hs) \<Longrightarrow> (sure \<longrightarrow> err = None) \<Longrightarrow> Q (hs, err) w'"
  shows "wp (ss_DeleteAllByUserIDExcept (sessionStore s) uid keep) Q w"
  by (rule wp_ss_DeleteAllExcept[OF trackD(1)[OF assms(1)], unfolded track_tables[OF assms(1)]])
    (rule assms; (assumption | (rule track_changes[OF assms(1)]; assumption)))+

lemma go_ss_List:
  assumes "tracks v0 V w"
    and "\<And>xs err w'. tracks v0 V w' \<Longrightarrow>
      (err = None \<longrightarrow> set xs = {x \<in> ran (v_sessions V). s_UserID x = uid} \<and> distinct (map s_TokenHash xs)) \<Longrightarrow>
      Q (xs, err) w'"
  shows "wp (ss_ListByUserID (sessionStore s) uid) Q w"
  by (rule wp_ss_List[OF trackD(1)[OF assms(1)], unfolded track_tables[OF assms(1)]])
    (rule assms; (assumption | (rule track_changes[OF assms(1)]; assumption)))+

subsection \<open>The session cache\<close>

lemma go_getCachedSession:
  assumes "tracks v0 V w"
    and "\<And>err m w'. tracks v0 (V\<lparr>v_cache := m\<rparr>) w' \<Longrightarrow> Q (Inl err) w'"
    and "\<And>c x w'. tracks v0 V w' \<Longrightarrow> v_cache V h = Some (c, x) \<Longrightarrow> Q (Inr c) w'"
  shows "wp (getCachedSession s h) Q w"
  unfolding getCachedSession_def
  by (rule wp_sc_Get[OF trackD(1)[OF assms(1)]])
    (blast intro: assms(2,3) track_changes[OF assms(1)] track_entry[OF assms(1)])+

lemma tracks_same_cache: "tracks v0 V w \<Longrightarrow> tracks v0 (V\<lparr>v_cache := v_cache V\<rparr>) w"
  by simp

lemma go_deleteSessionFromCache:
  assumes "tracks v0 V w" and "\<And>m w'. tracks v0 (V\<lparr>v_cache := m\<rparr>) w' \<Longrightarrow> Q () w'"
  shows "wp (deleteSessionFromCache s h) Q w"
  unfolding deleteSessionFromCache_def wp_simps
  by (rule wp_sc_Delete[OF trackD(1)[OF assms(1)]])
    (rule assms, (rule tracks_same_cache[OF track_frame[OF assms(1)]] track_uncache[OF assms(1)]; assumption))+

lemma go_uncache_all:
  assumes "tracks v0 V w" and "\<And>m w'. tracks v0 (V\<lparr>v_cache := m\<rparr>) w' \<Longrightarrow> Q () w'"
  shows "wp (for_each hs (deleteSessionFromCache s)) Q w"
proof -
  let ?I = "\<lambda>_ w'. \<exists>m. tracks v0 (V\<lparr>v_cache := m\<rparr>) w'"
  have "?I [] w" using tracks_same_cache[OF assms(1)] by blast
  then have "wp (for_each hs (deleteSessionFromCache s)) (\<lambda>_. ?I hs) w"
  proof (rule wp_for_each)
    fix ys x w1
    assume "?I ys w1"
    then obtain m where "tracks v0 (V\<lparr>v_cache := m\<rparr>) w1" ..
    then show "wp (deleteSessionFromCache s x) (\<lambda>_. ?I (ys @ [x])) w1"
      by (rule go_deleteSessionFromCache) auto
  qed
  then show ?thesis by (rule wp_mono) (auto intro: assms(2))
qed

lemma go_cacheSession:
  assumes "tracks v0 V w" "h \<notin> v_unused V" "\<And>x. v_sessions V h = Some x \<Longrightarrow> agrees c x"
    and "\<And>m t w'. tracks v0 (V\<lparr>v_now := t, v_cache := m\<rparr>) w' \<Longrightarrow> Q () w'"
  shows "wp (cacheSession L s h c) Q w"
  unfolding cacheSession_def Let_def wp_simps
proof (rule go_Now[OF assms(1)], intro branches)
  fix t w1
  assume w1: "tracks v0 (V\<lparr>v_now := t\<rparr>) w1"
  show "Q () w1" using assms(4)[OF tracks_same_cache[OF w1]] .
  assume "\<not> c_ExpiresAt c - t \<le> 0"
  then show "wp (sc_Set (cache s) h c (c_ExpiresAt c - t)) (\<lambda>_. Q ()) w1"
  proof (intro wp_sc_Set[OF trackD(1)[OF w1]])
    fix w' assume "inv w'" "frame (view w1) (view w')"
    then show "Q () w'" by (rule assms(4)[OF tracks_same_cache[OF track_frame[OF w1]]])
  next
    fix x w' assume "inv w'" "frame ((view w1)\<lparr>v_cache := (v_cache (view w1))(h \<mapsto> (c, x))\<rparr>) (view w')"
    from assms(4)[OF track_cache[OF w1 this]] assms(2,3) show q: "Q () w'" by simp
    show "Q () w'" by (rule q)
  qed simp
qed

subsection \<open>Reset codes and reset tokens\<close>

lemma go_rs_SaveOTP:
  assumes "tracks v0 V w" "0 < ttl" "owner_email (lib_crypto L) (v_users V) uid (Hash (lib_crypto L) e)"
    and "\<And>err w'. tracks v0 V w' \<Longrightarrow> Q (Some err) w'"
    and "\<And>r x w'. tracks v0 (V\<lparr>v_otps := (v_otps V)(Hash (lib_crypto L) e \<mapsto>
        (\<lparr>o_UserID = uid, o_OTPHash = oh, o_Attempts = 0\<rparr>, x))\<rparr>) w' \<Longrightarrow> r = None \<or> v_remote V \<Longrightarrow> Q r w'"
  shows "wp (rs_SaveOTP (resetStore s) uid e oh ttl) Q w"
  by (rule wp_rs_SaveOTP[OF trackD(1)[OF assms(1)] assms(2), unfolded track_tables[OF assms(1)]])
    (blast intro: assms(4) track_frame[OF assms(1)] | rule assms(5), erule (1) track_otp[OF assms(1)]; simp add: assms(3))+

lemma go_rs_GetOTP:
  assumes "tracks v0 V w"
    and "\<And>err m w'. tracks v0 (V\<lparr>v_otps := m\<rparr>) w' \<Longrightarrow> m \<in> {v_otps V, (v_otps V)(Hash (lib_crypto L) e := None)} \<Longrightarrow>
      Q (Inl err) w'"
    and "\<And>r x w'. tracks v0 V w' \<Longrightarrow> v_otps V (Hash (lib_crypto L) e) = Some (r, x) \<Longrightarrow> Q (Inr r) w'"
  shows "wp (rs_GetOTP (resetStore s) e) Q w"
  by (rule wp_rs_GetOTP[OF trackD(1)[OF assms(1)]])
    (blast intro: assms(2,3) track_frame[OF assms(1)] track_entry[OF assms(1)] dest: track_maybe_drop_otp[OF assms(1)])+

lemma tracked_otp:
  assumes "tracks v0 V w" "v_otps V k = Some (r, x)"
  shows "owner_email (lib_crypto L) (v_users V) (o_UserID r) k" "0 \<le> o_Attempts r"
  using assms trackD(2)[OF assms(1)] by (auto simp: vault_ok_def otps_ok_def)

lemma go_rs_Incr:
  assumes "tracks v0 V w"
    and "\<And>err m w'. tracks v0 (V\<lparr>v_otps := m\<rparr>) w' \<Longrightarrow> Q (Inl err) w'"
    and "\<And>r x w'. tracks v0 (V\<lparr>v_otps := (v_otps V)(Hash (lib_crypto L) e \<mapsto>
        (r\<lparr>o_Attempts := o_Attempts r + 1\<rparr>, x))\<rparr>) w' \<Longrightarrow>
      v_otps V (Hash (lib_crypto L) e) = Some (r, x) \<Longrightarrow> Q (Inr (o_Attempts r + 1)) w'"
    and "\<And>n w'. tracks v0 (V\<lparr>v_otps := (v_otps V)(Hash (lib_crypto L) e := None)\<rparr>) w' \<Longrightarrow> 1000000 \<le> n \<Longrightarrow> Q (Inr n) w'"
  shows "wp (rs_IncrOTPAttempts (resetStore s) e) Q w"
proof -
  have incr: "tracks v0 (V\<lparr>v_otps := (v_otps V)(Hash (lib_crypto L) e \<mapsto> (r\<lparr>o_Attempts := o_Attempts r + 1\<rparr>, x))\<rparr>) w'"
    "v_otps V (Hash (lib_crypto L) e) = Some (r, x)"
    if r: "v_otps (view w) (Hash (lib_crypto L) e) = Some (r, x)" and w': "inv w'"
      "frame ((view w)\<lparr>v_otps := (v_otps (view w))(Hash (lib_crypto L) e \<mapsto> (r\<lparr>o_Attempts := o_Attempts r + 1\<rparr>, x))\<rparr>) (view w')"
    for r x w'
  proof -
    show V: "v_otps V (Hash (lib_crypto L) e) = Some (r, x)" by (rule track_entry(2)[OF assms(1) r])
    show "tracks v0 (V\<lparr>v_otps := (v_otps V)(Hash (lib_crypto L) e \<mapsto> (r\<lparr>o_Attempts := o_Attempts r + 1\<rparr>, x))\<rparr>) w'"
      by (rule track_otp[OF assms(1) w']) (use tracked_otp[OF assms(1) V] in auto)
  qed
  show ?thesis
    by (rule wp_rs_Incr[OF trackD(1)[OF assms(1)]])
      (blast intro: assms(2-4) incr track_drop_otp[OF assms(1)] dest: track_maybe_drop_otp[OF assms(1)])+
qed

lemma go_rs_DeleteOTP:
  assumes "tracks v0 V w"
    and "\<And>err w'. tracks v0 V w' \<Longrightarrow> Q (Some err) w'"
    and "\<And>r w'. tracks v0 (V\<lparr>v_otps := (v_otps V)(Hash (lib_crypto L) e := None)\<rparr>) w' \<Longrightarrow> Q r w'"
  shows "wp (rs_DeleteOTP (resetStore s) e) Q w"
  by (rule wp_rs_DeleteOTP[OF trackD(1)[OF assms(1)]]) (blast intro: assms(2,3) track_changes[OF assms(1)])+

lemma go_rs_SaveReset:
  assumes "tracks v0 V w" "0 < ttl" "fresh_hash v0 h V" "owner_email (lib_crypto L) (v_users V) uid (Hash (lib_crypto L) e)"
    and "\<And>err w'. tracks v0 V w' \<Longrightarrow> Q (Some err) w'"
    and "\<And>r x w'. tracks v0 (V\<lparr>v_resets := (v_resets V)(h \<mapsto> (\<lparr>t_UserID = uid, t_Email = e\<rparr>, x))\<rparr>) w' \<Longrightarrow>
      r = None \<or> v_remote V \<Longrightarrow> Q r w'"
  shows "wp (rs_SaveResetToken (resetStore s) h uid e ttl) Q w"
  by (rule wp_rs_SaveReset[OF trackD(1)[OF assms(1)] assms(2), unfolded track_tables[OF assms(1)]])
    (blast intro: assms(5) track_frame[OF assms(1)] | rule assms(6), erule (1) track_reset[OF assms(1)]; simp add: assms(3,4))+

lemma go_rs_GetReset:
  assumes "tracks v0 V w"
    and "\<And>err m w'. tracks v0 (V\<lparr>v_resets := m\<rparr>) w' \<Longrightarrow> m \<in> {v_resets V, (v_resets V)(h := None)} \<Longrightarrow> Q (Inl err) w'"
    and "\<And>r x w'. tracks v0 V w' \<Longrightarrow> v_resets V h = Some (r, x) \<Longrightarrow> Q (Inr r) w'"
  shows "wp (rs_GetResetToken (resetStore s) h) Q w"
  by (rule wp_rs_GetReset[OF trackD(1)[OF assms(1)]])
    (blast intro: assms(2,3) track_frame[OF assms(1)] track_entry[OF assms(1)] dest: track_maybe_drop_reset[OF assms(1)])+

lemma go_rs_DeleteReset:
  assumes "tracks v0 V w"
    and "\<And>err w'. tracks v0 V w' \<Longrightarrow> Q (Some err) w'"
    and "\<And>r w'. tracks v0 (V\<lparr>v_resets := (v_resets V)(h := None)\<rparr>) w' \<Longrightarrow> r = None \<or> v_remote V \<Longrightarrow> Q r w'"
  shows "wp (rs_DeleteResetToken (resetStore s) h) Q w"
  by (rule wp_rs_DeleteReset[OF trackD(1)[OF assms(1)], unfolded track_tables[OF assms(1)]])
    (blast intro: assms(2,3) track_changes[OF assms(1)])+

lemmas step_rules = go_Now go_token_Generate go_otp_Generate go_password_Hash go_logAudit go_fireHook
  go_GenerateAccessToken go_ValidateAccessToken go_extractUserIDFromCtx go_guard_locked go_guard_failure
  go_guard_reset go_us_Create go_us_GetByEmail go_us_GetByID go_us_Update go_ss_Create go_ss_Get
  go_ss_DeleteByID go_ss_Delete go_ss_Rotate go_ss_DeleteAll go_ss_DeleteAllExcept go_ss_List
  go_getCachedSession go_deleteSessionFromCache go_uncache_all go_cacheSession
  go_rs_SaveOTP go_rs_GetOTP go_rs_Incr go_rs_DeleteOTP go_rs_SaveReset go_rs_GetReset go_rs_DeleteReset

end

end
