(* ===== verification/Handler_Proofs.thy ===== *)
theory Handler_Proofs
  imports Auth_Backend
begin

text \<open>
  The twelve handlers, proved once against the contract of a backend: each keeps the
  invariant of the stores, changes no more than its lemma says, and answers with success only
  when the lemma's conditions hold. The proofs run the handlers symbolically with the rules of
  \<^verbatim>\<open>Auth_Backend\<close>.
\<close>

context auth_backend
begin

lemmas leaf = track_tables track_end fresh_hash_def kept_session_def agrees_def


lemma Register_spec:
  assumes "tracks v0 V w"
  shows "wp (Register L s ctx req) (\<lambda>r w'. settles v0 w' \<and> v_sessions (view w') = v_sessions V \<and>
    (case r of
       Inr resp \<Rightarrow> \<exists>u. u_ID u = rr_UserId resp \<and> u_Email u = rr_Email req
         \<and> password_Verify (lib_crypto L) (rr_Password req) (u_PasswordHash u) = Some (Inr True)
         \<and> u_ID u \<notin> dom (v_users V) \<and> (\<forall>x \<in> ran (v_users V). u_Email x \<noteq> rr_Email req)
         \<and> v_users (view w') = (v_users V)(u_ID u \<mapsto> u)
         \<and> Email (rr_Email req) = None \<and> Password (lib_unicode L) (rr_Password req) = None
     | Inl e \<Rightarrow> v_users (view w') = v_users V
         \<and> (e = Status AlreadyExists ''email already registered'' \<longrightarrow>
              (\<exists>x \<in> ran (v_users V). u_Email x = rr_Email req)))) w"
  unfolding Register_def Let_def wp_simps
  using assms by - (erule step_rules | rule branches | (auto simp: leaf; fail))+

lemma Login_spec:
  assumes "tracks v0 V w"
  shows "wp (Login L s ctx req) (\<lambda>r w'. settles v0 w' \<and> v_users (view w') = v_users V \<and>
    (case r of
       Inr resp \<Rightarrow> \<exists>u st. u_Email u = lr_Email req \<and> v_users V (u_ID u) = Some u
         \<and> password_Verify (lib_crypto L) (lr_Password req) (u_PasswordHash u) = Some (Inr True)
         \<and> Hash (lib_crypto L) (lr_RefreshToken resp) \<in> v_unused v0
         \<and> Hash (lib_crypto L) (lr_RefreshToken resp) \<notin> dom (v_sessions V)
         \<and> s_UserID st = u_ID u \<and> s_TokenHash st = Hash (lib_crypto L) (lr_RefreshToken resp)
         \<and> v_sessions (view w') = (v_sessions V)(Hash (lib_crypto L) (lr_RefreshToken resp) \<mapsto> st)
     | Inl e \<Rightarrow> v_sessions (view w') = v_sessions V)) w"
  unfolding Login_def Let_def wp_simps
  using assms by - (erule step_rules | rule branches
    | (auto simp: leaf; fail))+


lemma lookup_session_spec:
  assumes "tracks v0 V w"
    and "\<And>m x w'. tracks v0 (V\<lparr>v_cache := m\<rparr>) w' \<Longrightarrow> Q (Inl x) w'"
    and "\<And>c w'. tracks v0 V w' \<Longrightarrow> (\<And>x. v_sessions V h = Some x \<Longrightarrow> agrees c x) \<Longrightarrow> Q (Inr c) w'"
    and "\<And>c m x t w'. tracks v0 (V\<lparr>v_cache := m, v_sessions := (v_sessions V)(h \<mapsto> x\<lparr>s_LastUsedAt := t\<rparr>)\<rparr>) w' \<Longrightarrow>
      v_sessions V h = Some x \<Longrightarrow> agrees c x \<Longrightarrow> Q (Inr c) w'"
  shows "wp (lookup_session s h) Q w"
  unfolding lookup_session_def wp_simps
proof (rule go_getCachedSession[OF assms(1)], goal_cases)
  case (1 err m w')
  show ?case unfolding sum.case
    by (rule go_ss_Get[OF 1]) (auto intro!: assms(2,4) simp: agrees_def)
next
  case (2 c x w')
  then have "cache_ok (v_unused V) (v_sessions V) (v_cache V)" using trackD(2)[OF assms(1)] by (simp add: vault_ok_def)
  with 2 show ?case by (auto intro!: assms(3) simp: cache_ok_def)
qed

lemma tracked_session:
  assumes "tracks v0 V w" "v_sessions V h = Some x"
  shows "s_UserID x \<in> dom (v_users V)" "s_TokenHash x = h" "h \<noteq> []" "h \<notin> v_unused V"
  using assms trackD(2)[OF assms(1)] by (auto simp: vault_ok_def sessions_ok_def)

lemma RefreshToken_spec:
  assumes "tracks v0 V w"
  shows "wp (RefreshToken L s ctx req) (\<lambda>r w'. settles v0 w' \<and> v_users (view w') = v_users V \<and>
    (case r of
       Inr resp \<Rightarrow> \<exists>x st. v_sessions V (Hash (lib_crypto L) (rt_RefreshToken req)) = Some x
         \<and> v_now V < s_ExpiresAt x + 1000
         \<and> Hash (lib_crypto L) (rt_NewRefreshToken resp) \<in> v_unused v0
         \<and> s_UserID st = s_UserID x \<and> s_TokenHash st = Hash (lib_crypto L) (rt_NewRefreshToken resp)
         \<and> v_sessions (view w') = (v_sessions V)(Hash (lib_crypto L) (rt_RefreshToken req) := None,
             Hash (lib_crypto L) (rt_NewRefreshToken resp) \<mapsto> st)
     | Inl e \<Rightarrow> \<forall>h. h \<noteq> Hash (lib_crypto L) (rt_RefreshToken req) \<longrightarrow> v_sessions (view w') h = v_sessions V h)) w"
  unfolding RefreshToken_def Let_def wp_simps
  using assms tracked_session(1)[OF assms] by - (erule step_rules lookup_session_spec | rule branches
    | (auto simp: leaf After_def micro_def; fail))+

lemma Logout_spec:
  assumes "tracks v0 V w"
  shows "wp (Logout L s ctx tok) (\<lambda>r w'. settles v0 w' \<and> v_users (view w') = v_users V \<and>
    v_sessions (view w') = (case r of Inr _ \<Rightarrow> (v_sessions V)(Hash (lib_crypto L) tok := None)
       | Inl _ \<Rightarrow> v_sessions V)) w"
  unfolding Logout_def Let_def wp_simps
  using assms by - (erule step_rules | rule branches | (auto simp: leaf; fail))+

lemma ValidateToken_spec:
  assumes "tracks v0 V w"
  shows "wp (ValidateToken s tok) (\<lambda>r w'. settles v0 w' \<and> v_users (view w') = v_users V
    \<and> v_sessions (view w') = v_sessions V) w"
  unfolding ValidateToken_def Let_def wp_simps
  using assms by - (erule step_rules | rule branches | (auto simp: leaf; fail))+

lemma LogoutAll_spec:
  assumes "tracks v0 V w"
  shows "wp (LogoutAll L s ctx) (\<lambda>r w'. settles v0 w' \<and> v_users (view w') = v_users V \<and>
    (case caller s ctx w of
       Inl e \<Rightarrow> r = Inl e \<and> v_sessions (view w') = v_sessions V
     | Inr uid \<Rightarrow> (case r of
         Inr n \<Rightarrow> n = word_of_nat (card (user_hashes (v_sessions V) uid))
           \<and> v_sessions (view w') = v_sessions V |` (- user_hashes (v_sessions V) uid)
       | Inl e \<Rightarrow> \<not> sure))) w"
  unfolding LogoutAll_def Let_def wp_simps
  using assms by - (erule step_rules | rule branches | (auto simp: leaf dest!: distinct_card; fail))+

lemma listed_sessions:
  assumes "tracks v0 V w" "set xs = {x \<in> ran (v_sessions V). s_UserID x = uid}" "distinct (map s_TokenHash xs)"
  shows "length xs = card (user_hashes (v_sessions V) uid)"
proof -
  have "user_hashes (v_sessions V) uid = s_TokenHash ` set xs"
    using tracked_session(2)[OF assms(1)] by (auto simp: user_hashes_def assms(2) ran_def image_iff)
  then show ?thesis using assms(3) by (metis distinct_card length_map set_map)
qed

lemma ListSessions_spec:
  assumes "tracks v0 V w"
  shows "wp (ListSessions s ctx) (\<lambda>r w'. settles v0 w' \<and> v_users (view w') = v_users V
    \<and> v_sessions (view w') = v_sessions V \<and>
    (case r of Inl _ \<Rightarrow> True
     | Inr xs \<Rightarrow> \<exists>uid. caller s ctx w = Inr uid \<and> length xs = card (user_hashes (v_sessions V) uid)
        \<and> set xs = session_info ` {x \<in> ran (v_sessions V). s_UserID x = uid})) w"
  unfolding ListSessions_def Let_def wp_simps
  using assms listed_sessions[OF assms] by - (erule step_rules | rule branches | (auto simp: leaf; fail))+

lemma RevokeSession_spec:
  assumes "tracks v0 V w"
  shows "wp (RevokeSession L s ctx i) (\<lambda>r w'. settles v0 w' \<and> v_users (view w') = v_users V \<and>
    (case r of
       Inr _ \<Rightarrow> \<exists>uid h x. caller s ctx w = Inr uid \<and> v_sessions V h = Some x \<and> s_ID x = i \<and> s_UserID x = uid
         \<and> v_sessions (view w') = (v_sessions V)(h := None)
     | Inl e \<Rightarrow> v_sessions (view w') = v_sessions V
         \<and> (\<forall>uid. e = Status NotFound ''session not found'' \<longrightarrow> caller s ctx w = Inr uid \<longrightarrow>
              (\<forall>x \<in> ran (v_sessions V). \<not> (s_ID x = i \<and> s_UserID x = uid))))) w"
  unfolding RevokeSession_def Let_def wp_simps
  using assms by - (erule step_rules | rule branches | (auto simp: leaf; fail))+

lemma ChangePassword_spec:
  assumes "tracks v0 V w"
  shows "wp (ChangePassword L s ctx req) (\<lambda>r w'. settles v0 w' \<and>
    (case r of
       Inr _ \<Rightarrow> \<exists>uid u h t. caller s ctx w = Inr uid \<and> v_users V uid = Some u
         \<and> password_Verify (lib_crypto L) (cp_CurrentPassword req) (u_PasswordHash u) = Some (Inr True)
         \<and> password_Verify (lib_crypto L) (cp_NewPassword req) h = Some (Inr True)
         \<and> Password (lib_unicode L) (cp_NewPassword req) = None
         \<and> v_users (view w') = (v_users V)(uid \<mapsto> u\<lparr>u_PasswordHash := h, u_UpdatedAt := t\<rparr>)
         \<and> (sure \<longrightarrow> v_sessions (view w') = v_sessions V |` (- (user_hashes (v_sessions V) uid -
              {if cp_RefreshToken req = [] then [] else Hash (lib_crypto L) (cp_RefreshToken req)})))
     | Inl e \<Rightarrow> v_users (view w') = v_users V \<and> v_sessions (view w') = v_sessions V)) w"
  unfolding ChangePassword_def Let_def wp_simps
  using assms by - (erule step_rules | rule branches | (auto simp: leaf; fail))+

text \<open>The password reset also says what is in the codes and tokens, up to what a remote store has dropped.\<close>

abbreviation left_of :: "vault \<Rightarrow> 'w \<Rightarrow> (string \<rightharpoonup> 'a \<times> time) \<Rightarrow> (string \<rightharpoonup> 'a \<times> time) \<Rightarrow> bool" where
  "left_of V w \<equiv> keeps (v_remote V) (v_now (view w))"

lemma RequestPasswordReset_spec:
  assumes "tracks v0 V w"
  shows "wp (RequestPasswordReset L s ctx e) (\<lambda>r w'. settles v0 w' \<and> v_users (view w') = v_users V
    \<and> v_sessions (view w') = v_sessions V \<and> left_of V w' (v_resets V) (v_resets (view w'))
    \<and> (left_of V w' (v_otps V) (v_otps (view w')) \<or> (\<exists>u oh x. (r = Inr () \<or> v_remote V) \<and> v_users V (u_ID u) = Some u
        \<and> u_Email u = e \<and> left_of V w' ((v_otps V)(Hash (lib_crypto L) e \<mapsto>
            (\<lparr>o_UserID = u_ID u, o_OTPHash = oh, o_Attempts = 0\<rparr>, x))) (v_otps (view w'))))) w"
  unfolding RequestPasswordReset_def Let_def wp_simps
  using assms by - (erule step_rules | rule branches | (auto simp: otpTTL_def owner_email_def; fail)
    | (drule track_final; auto; fail))+

lemma VerifyResetCode_spec:
  assumes "tracks v0 V w"
  shows "wp (VerifyResetCode L s req) (\<lambda>r w'. settles v0 w' \<and> v_users (view w') = v_users V
    \<and> v_sessions (view w') = v_sessions V \<and>
    (case r of
       Inr plain \<Rightarrow> \<exists>rec x y. v_otps V (Hash (lib_crypto L) (vr_Email req)) = Some (rec, x)
         \<and> Hash (lib_crypto L) (vr_Otp req) = o_OTPHash rec \<and> o_Attempts rec + 1 < maxOTPAttempts
         \<and> owner_email (lib_crypto L) (v_users V) (o_UserID rec) (Hash (lib_crypto L) (vr_Email req))
         \<and> Hash (lib_crypto L) plain \<in> v_unused v0
         \<and> left_of V w' ((v_resets V)(Hash (lib_crypto L) plain \<mapsto>
             (\<lparr>t_UserID = o_UserID rec, t_Email = vr_Email req\<rparr>, y))) (v_resets (view w'))
     | Inl e \<Rightarrow> \<not> v_remote V \<longrightarrow> v_resets (view w') = v_resets V)) w"
  unfolding VerifyResetCode_def Let_def wp_simps
  using assms tracked_otp(1)[OF assms]
  by - (erule step_rules | rule branches | (auto simp: otpTTL_def maxOTPAttempts_def; fail)
    | (drule track_final; auto simp: fresh_hash_def maxOTPAttempts_def; fail))+

lemma ResetPassword_spec:
  assumes "tracks v0 V w"
  shows "wp (ResetPassword L s ctx req) (\<lambda>r w'. settles v0 w' \<and>
    (case r of
       Inr _ \<Rightarrow> \<exists>rec x u h t. v_resets V (Hash (lib_crypto L) (rp_ResetToken req)) = Some (rec, x)
         \<and> v_users V (t_UserID rec) = Some u
         \<and> password_Verify (lib_crypto L) (rp_NewPassword req) h = Some (Inr True)
         \<and> Password (lib_unicode L) (rp_NewPassword req) = None
         \<and> v_users (view w') = (v_users V)(t_UserID rec \<mapsto> u\<lparr>u_PasswordHash := h, u_UpdatedAt := t\<rparr>)
         \<and> left_of V w' ((v_resets V)(Hash (lib_crypto L) (rp_ResetToken req) := None)) (v_resets (view w'))
         \<and> (sure \<longrightarrow> v_sessions (view w') = v_sessions V |` (- user_hashes (v_sessions V) (t_UserID rec)))
     | Inl e \<Rightarrow> v_users (view w') = v_users V \<and> v_sessions (view w') = v_sessions V)) w"
  unfolding ResetPassword_def Let_def wp_simps
  using assms by - (erule step_rules | rule branches | (auto; fail) | (drule track_final; auto; fail))+

section \<open>The service as a whole\<close>

lemma reply_settles: "wp m (\<lambda>_. settles v0) w \<Longrightarrow> wp (reply f m) (\<lambda>_. settles v0) w"
  by (auto simp: reply_def wp_simps elim!: wp_mono)

lemmas handler_specs = Register_spec Login_spec ValidateToken_spec RefreshToken_spec Logout_spec
  LogoutAll_spec ListSessions_spec RevokeSession_spec ChangePassword_spec RequestPasswordReset_spec
  VerifyResetCode_spec ResetPassword_spec

lemma dispatch_settles:
  assumes "tracks v0 V w"
  shows "wp (dispatch L s ctx r) (\<lambda>_. settles v0) w"
  by (cases r; simp only: dispatch.simps; intro reply_settles;
      rule handler_specs[OF assms, THEN wp_mono]; elim conjE; assumption)

lemma settles_tracks: "settles v0 w \<Longrightarrow> tracks (view w) (view w) w"
  by (simp add: settled_def track_def)

lemma settles_trans: "evolves v0 v1 \<Longrightarrow> settles v1 w \<Longrightarrow> settles v0 w"
  by (auto simp: settled_def intro: evolves_trans)

lemma settles_evolves: "settles v0 w \<Longrightarrow> evolves v0 (view w)"
  by (simp add: settled_def)

lemma serve_settles:
  assumes "settles v0 w"
  shows "wp (serve L s rs) (\<lambda>_. settles v0) w"
  using assms
proof (induction rs arbitrary: w)
  case Nil
  then show ?case by (simp add: wp_simps)
next
  case (Cons x rs)
  obtain ctx r where x: "x = (ctx, r)" by (cases x)
  have "wp (dispatch L s ctx r) (\<lambda>_. settles (view w)) w"
    by (rule dispatch_settles[OF settles_tracks[OF Cons.prems]])
  then have "wp (dispatch L s ctx r) (\<lambda>_ w'. wp (serve L s rs) (\<lambda>_. settles v0) w') w"
    by (rule wp_mono) (rule Cons.IH, rule settles_trans[OF settles_evolves[OF Cons.prems]])
  then show ?case by (auto simp: x wp_simps elim!: wp_mono)
qed

text \<open>A dead refresh token is refused, now and after any further requests.\<close>

lemma dead_refused:
  assumes "settles v0 w" "dead (Hash (lib_crypto L) (rt_RefreshToken req)) (view w)"
  shows "wp (RefreshToken L s ctx req) (\<lambda>r _. \<exists>e. r = Inl e) w"
  by (rule wp_mono[OF RefreshToken_spec[OF settles_tracks[OF assms(1)]]])
    (use assms(2) in \<open>auto simp: dead_def split: sum.splits\<close>)

lemma dead_stays_refused:
  assumes "settles v0 w" "dead (Hash (lib_crypto L) (rt_RefreshToken req)) (view w)"
  shows "wp (do { _ \<leftarrow> serve L s rs; RefreshToken L s ctx req }) (\<lambda>r _. \<exists>e. r = Inl e) w"
  unfolding wp_simps
proof (rule wp_mono[OF serve_settles[of "view w"]])
  show "settles (view w) w" using assms(1) by (simp add: settled_def)
  fix r w' assume "settles (view w) w'"
  then show "wp (RefreshToken L s ctx req) (\<lambda>r _. \<exists>e. r = Inl e) w'"
    using assms(2) by (intro dead_refused[of "view w"]) (auto simp: settled_def intro: dead_evolves)
qed

lemma spent_refused:
  assumes "settles v0 w" "spent (Hash (lib_crypto L) (rp_ResetToken req)) (view w)"
  shows "wp (ResetPassword L s ctx req) (\<lambda>r _. \<exists>e. r = Inl e) w"
  by (rule wp_mono[OF ResetPassword_spec[OF settles_tracks[OF assms(1)]]])
    (use assms(2) in \<open>auto simp: spent_def split: sum.splits\<close>)

lemma spent_stays_refused:
  assumes "settles v0 w" "spent (Hash (lib_crypto L) (rp_ResetToken req)) (view w)"
  shows "wp (do { _ \<leftarrow> serve L s rs; ResetPassword L s ctx req }) (\<lambda>r _. \<exists>e. r = Inl e) w"
  unfolding wp_simps
proof (rule wp_mono[OF serve_settles[of "view w"]])
  show "settles (view w) w" using assms(1) by (simp add: settled_def)
  fix r w' assume "settles (view w) w'"
  then show "wp (ResetPassword L s ctx req) (\<lambda>r _. \<exists>e. r = Inl e) w'"
    using assms(2) by (intro spent_refused[of "view w"]) (auto simp: settled_def intro: spent_evolves)
qed

text \<open>A refresh, a logout, a password change each leave dead tokens behind.\<close>

lemma stored_not_unused:
  "settles v0 w \<Longrightarrow> evolves (view w) v \<Longrightarrow> h \<in> dom (v_sessions (view w)) \<Longrightarrow> h \<notin> v_unused v"
  by (auto simp: settled_def vault_ok_def sessions_ok_def evolves_def)

lemma refresh_kills_token:
  assumes "settles v0 w"
  shows "wp (RefreshToken L s ctx req) (\<lambda>r w'. settles (view w) w' \<and>
    ((\<exists>x. r = Inr x) \<longrightarrow> dead (Hash (lib_crypto L) (rt_RefreshToken req)) (view w'))) w"
proof (rule wp_mono[OF RefreshToken_spec[OF settles_tracks[OF assms], of ctx req]], elim conjE, intro conjI impI, assumption, elim exE, goal_cases)
  case (1 r w' resp)
  let ?h = "Hash (lib_crypto L) (rt_RefreshToken req)"
  from 1(3,4) have "?h \<in> dom (v_sessions (view w))" "?h \<notin> dom (v_sessions (view w')) \<or> ?h \<in> v_unused (view w)"
    by (auto split: if_splits)
  moreover from this(1) have "?h \<notin> v_unused (view w)" "?h \<notin> v_unused (view w')"
    using stored_not_unused[OF assms] 1(1) by (auto simp: settled_def)
  ultimately show ?case by (simp add: dead_def)
qed

lemma refresh_spends_token:
  assumes "settles v0 w" "rt_RefreshToken req' = rt_RefreshToken req"
  shows "wp (do { r \<leftarrow> RefreshToken L s ctx req; _ \<leftarrow> serve L s rs;
                  r' \<leftarrow> RefreshToken L s ctx' req'; ret (r, r') })
    (\<lambda>(r, r') _. (\<exists>x. r = Inr x) \<longrightarrow> (\<exists>e. r' = Inl e)) w"
  unfolding wp_simps
proof (rule wp_mono[OF refresh_kills_token[OF assms(1), of ctx req]], elim conjE, goal_cases)
  case (1 r w')
  show ?case
  proof (cases r)
    case (Inr resp)
    with 1(2) have "dead (Hash (lib_crypto L) (rt_RefreshToken req')) (view w')" by (simp add: assms(2))
    then have "wp (do { _ \<leftarrow> serve L s rs; RefreshToken L s ctx' req' }) (\<lambda>r _. \<exists>e. r = Inl e) w'"
      by (rule dead_stays_refused[OF 1(1)])
    then show ?thesis by (simp add: wp_simps wp_mono)
  next
    case (Inl e)
    then show ?thesis by (auto intro!: wp_mono[OF wp_True])
  qed
qed

lemma logout_kills:
  assumes "settles v0 w" "Hash (lib_crypto L) tok \<in> dom (v_sessions (view w))"
  shows "wp (Logout L s ctx tok) (\<lambda>r w'. settles (view w) w' \<and> (r = Inr () \<longrightarrow> dead (Hash (lib_crypto L) tok) (view w'))) w"
  by (rule wp_mono[OF Logout_spec[OF settles_tracks[OF assms(1)], of ctx tok]])
    (use stored_not_unused[OF assms(1) _ assms(2)] in \<open>auto simp: dead_def settled_def\<close>)

lemma logout_kills_token:
  assumes "settles v0 w" "Hash (lib_crypto L) tok \<in> dom (v_sessions (view w))" "rt_RefreshToken req = tok"
  shows "wp (do { r \<leftarrow> Logout L s ctx tok; _ \<leftarrow> serve L s rs; r' \<leftarrow> RefreshToken L s ctx' req; ret (r, r') })
    (\<lambda>(r, r') _. r = Inr () \<longrightarrow> (\<exists>e. r' = Inl e)) w"
  unfolding wp_simps
proof (rule wp_mono[OF logout_kills[OF assms(1,2), of ctx]], elim conjE, goal_cases)
  case (1 r w')
  show ?case
  proof (cases r)
    case (Inr u)
    with 1(2) have "dead (Hash (lib_crypto L) (rt_RefreshToken req)) (view w')" by (simp add: assms(3))
    then have "wp (do { _ \<leftarrow> serve L s rs; RefreshToken L s ctx' req }) (\<lambda>r _. \<exists>e. r = Inl e) w'"
      by (rule dead_stays_refused[OF 1(1)])
    then show ?thesis by (simp add: wp_simps wp_mono)
  next
    case (Inl e)
    then show ?thesis by (auto intro!: wp_mono[OF wp_True])
  qed
qed

lemma reset_spends:
  assumes "settles v0 w"
  shows "wp (ResetPassword L s ctx req) (\<lambda>r w'. settles (view w) w' \<and>
    (r = Inr () \<longrightarrow> spent (Hash (lib_crypto L) (rp_ResetToken req)) (view w'))) w"
proof (rule wp_mono[OF ResetPassword_spec[OF settles_tracks[OF assms], of ctx req]], elim conjE, intro conjI impI, assumption, goal_cases)
  case (1 r w')
  let ?h = "Hash (lib_crypto L) (rp_ResetToken req)"
  have "resets_ok (lib_crypto L) (v_unused (view w)) (v_users (view w)) (v_resets (view w))"
    using assms by (simp add: settled_def vault_ok_def)
  with 1 have "?h \<notin> v_unused (view w')" "v_resets (view w') ?h = None"
    by (auto simp: resets_ok_def settled_def evolves_def intro: keeps_None)
  then show ?case by (auto simp: spent_def)
qed

lemma reset_spends_token:
  assumes "settles v0 w" "rp_ResetToken req' = rp_ResetToken req"
  shows "wp (do { r \<leftarrow> ResetPassword L s ctx req; _ \<leftarrow> serve L s rs; r' \<leftarrow> ResetPassword L s ctx' req'; ret (r, r') })
    (\<lambda>(r, r') _. r = Inr () \<longrightarrow> (\<exists>e. r' = Inl e)) w"
  unfolding wp_simps
proof (rule wp_mono[OF reset_spends[OF assms(1), of ctx req]], elim conjE, goal_cases)
  case (1 r w')
  show ?case
  proof (cases r)
    case (Inr u)
    with 1(2) have "spent (Hash (lib_crypto L) (rp_ResetToken req')) (view w')" by (simp add: assms(2))
    then have "wp (do { _ \<leftarrow> serve L s rs; ResetPassword L s ctx' req' }) (\<lambda>r _. \<exists>e. r = Inl e) w'"
      by (rule spent_stays_refused[OF 1(1)])
    then show ?thesis by (simp add: wp_simps wp_mono)
  next
    case (Inl e)
    then show ?thesis by (auto intro!: wp_mono[OF wp_True])
  qed
qed

end

end
