(* ===== verification/Heap_Index.thy ===== *)
theory Heap_Index
  imports Prelude
begin

text \<open>
  Objects on a heap reached through two maps of pointers, the representation both in-memory
  stores use. \<open>linked k1 k2 heap m1 m2\<close>: the maps index the same objects, each under its
  key, and nothing dangles. Allocation, a write that keeps the keys, and deletion under both
  keys preserve it; through either map they look like an update of one entry.
\<close>

definition half_linked :: "('a \<Rightarrow> string) \<Rightarrow> ('a \<Rightarrow> string) \<Rightarrow> 'a list \<Rightarrow> nat gomap \<Rightarrow> nat gomap \<Rightarrow> bool" where
  "half_linked k1 k2 heap m1 m2 \<longleftrightarrow> gomap_ok m1 \<and> (\<forall>i a. map_of m1 i = Some a \<longrightarrow>
     a < length heap \<and> k1 (heap ! a) = i \<and> map_of m2 (k2 (heap ! a)) = Some a)"

definition linked :: "('a \<Rightarrow> string) \<Rightarrow> ('a \<Rightarrow> string) \<Rightarrow> 'a list \<Rightarrow> nat gomap \<Rightarrow> nat gomap \<Rightarrow> bool" where
  "linked k1 k2 heap m1 m2 \<longleftrightarrow> half_linked k1 k2 heap m1 m2 \<and> half_linked k2 k1 heap m2 m1"

definition deref :: "'a list \<Rightarrow> nat gomap \<Rightarrow> string \<rightharpoonup> 'a" where
  "deref heap m = (\<lambda>k. map_option (nth heap) (map_of m k))"

lemma deref_Some: "deref heap m k = Some x \<longleftrightarrow> (\<exists>a. map_of m k = Some a \<and> heap ! a = x)"
  by (auto simp: deref_def)

lemma deref_None: "deref heap m k = None \<longleftrightarrow> map_of m k = None"
  by (auto simp: deref_def)

lemma linked_sym: "linked k1 k2 heap m1 m2 \<Longrightarrow> linked k2 k1 heap m2 m1"
  by (auto simp: linked_def)

lemma linked_Nil [simp]: "linked k1 k2 heap [] []"
  by (simp add: linked_def half_linked_def)

lemma linkedD:
  assumes "linked k1 k2 heap m1 m2" "map_of m1 i = Some a"
  shows "a < length heap" "k1 (heap ! a) = i" "map_of m2 (k2 (heap ! a)) = Some a"
  using assms by (auto simp: linked_def half_linked_def)

lemma linkedD2:
  assumes "linked k1 k2 heap m1 m2" "map_of m2 j = Some a"
  shows "a < length heap" "k2 (heap ! a) = j" "map_of m1 (k1 (heap ! a)) = Some a"
  using linkedD[OF linked_sym[OF assms(1)] assms(2)] by auto

lemma linked_gomap_ok: "linked k1 k2 heap m1 m2 \<Longrightarrow> gomap_ok m1 \<and> gomap_ok m2"
  by (simp add: linked_def half_linked_def)

section \<open>Allocation\<close>

lemma half_linked_alloc:
  assumes "half_linked k1 k2 heap m1 m2" "map_of m2 (k2 x) = None"
  shows "half_linked k1 k2 (heap @ [x]) (AList.update (k1 x) (length heap) m1) (AList.update (k2 x) (length heap) m2)"
proof -
  have "a < length heap \<and> k1 (heap ! a) = i \<and> map_of m2 (k2 (heap ! a)) = Some a \<and> k2 (heap ! a) \<noteq> k2 x"
    if "map_of m1 i = Some a" for i a
    using assms that by (force simp: half_linked_def)
  with assms(1) show ?thesis
    by (simp add: half_linked_def gomap_simps nth_append split: if_splits) (metis less_Suc_eq)
qed

lemma linked_alloc:
  assumes "linked k1 k2 heap m1 m2" "map_of m1 (k1 x) = None" "map_of m2 (k2 x) = None"
  shows "linked k1 k2 (heap @ [x]) (AList.update (k1 x) (length heap) m1) (AList.update (k2 x) (length heap) m2)"
  using assms by (simp add: linked_def half_linked_alloc)

lemma deref_alloc:
  assumes "linked k1 k2 heap m1 m2"
  shows "deref (heap @ [x]) (AList.update (k1 x) (length heap) m1) = (deref heap m1)(k1 x \<mapsto> x)"
proof
  fix k
  show "deref (heap @ [x]) (AList.update (k1 x) (length heap) m1) k = ((deref heap m1)(k1 x \<mapsto> x)) k"
    using linkedD(1)[OF assms, of k]
    by (cases "map_of m1 k") (auto simp: deref_def gomap_simps nth_append)
qed

section \<open>Writing through a pointer\<close>

lemma nth_write:
  assumes "\<And>x. k (f x) = k x"
  shows "k (heap[a := f (heap ! a)] ! b) = k (heap ! b)"
  by (cases "a < length heap"; cases "b = a"; simp add: assms nth_list_update not_less list_update_beyond)

lemma linked_write:
  assumes "linked k1 k2 heap m1 m2" "\<And>x. k1 (f x) = k1 x" "\<And>x. k2 (f x) = k2 x"
  shows "linked k1 k2 (heap[a := f (heap ! a)]) m1 m2"
  using assms by (simp add: linked_def half_linked_def nth_write)

lemma deref_write:
  assumes "linked k1 k2 heap m1 m2" "map_of m1 k = Some a" "k1 x = k"
  shows "deref (heap[a := x]) m1 = (deref heap m1)(k \<mapsto> x)"
proof
  fix k'
  show "deref (heap[a := x]) m1 k' = ((deref heap m1)(k \<mapsto> x)) k'"
    using linkedD(1,2)[OF assms(1,2)] linkedD(2)[OF assms(1), of k'] assms(2)
    by (cases "map_of m1 k'") (auto simp: deref_def nth_list_update)
qed

section \<open>Deletion\<close>

lemma half_linked_delete:
  assumes "linked k1 k2 heap m1 m2" "map_of m1 (k1 (heap ! a)) = Some a"
  shows "half_linked k1 k2 heap (AList.delete (k1 (heap ! a)) m1) (AList.delete (k2 (heap ! a)) m2)"
proof -
  have ne: "k2 (heap ! b) \<noteq> k2 (heap ! a)" if "map_of m1 i = Some b" "i \<noteq> k1 (heap ! a)" for i b
  proof
    assume "k2 (heap ! b) = k2 (heap ! a)"
    moreover have "map_of m2 (k2 (heap ! b)) = Some b" by (rule linkedD(3)[OF assms(1) that(1)])
    moreover have "map_of m2 (k2 (heap ! a)) = Some a" by (rule linkedD(3)[OF assms])
    ultimately have "b = a" by (metis option.inject)
    then show False using linkedD(2)[OF assms(1) that(1)] that(2) by simp
  qed
  have "gomap_ok (AList.delete (k1 (heap ! a)) m1)" using linked_gomap_ok[OF assms(1)] by simp
  then show ?thesis
    unfolding half_linked_def gomap_simps using linkedD[OF assms(1)] ne by (simp add: fun_upd_def)
qed

lemma linked_delete:
  assumes "linked k1 k2 heap m1 m2" "map_of m1 (k1 (heap ! a)) = Some a"
  shows "linked k1 k2 heap (AList.delete (k1 (heap ! a)) m1) (AList.delete (k2 (heap ! a)) m2)"
  using half_linked_delete[OF assms]
    half_linked_delete[OF linked_sym[OF assms(1)] linkedD(3)[OF assms]]
  by (simp add: linked_def)

lemma deref_delete: "deref heap (AList.delete k m) = (deref heap m)(k := None)"
  by (auto simp: deref_def gomap_simps fun_eq_iff)

section \<open>The two ways to an object\<close>

lemma ran_deref:
  assumes "linked k1 k2 heap m1 m2"
  shows "ran (deref heap m1) = ran (deref heap m2)"
proof -
  have "ran (deref heap m1) \<subseteq> ran (deref heap m2)" if "linked k1 k2 heap m1 m2" for k1 k2 :: "'a \<Rightarrow> string" and m1 m2
  proof
    fix x assume "x \<in> ran (deref heap m1)"
    then obtain i a where "map_of m1 i = Some a" "heap ! a = x" by (auto simp: ran_def deref_Some)
    with linkedD(3)[OF that] show "x \<in> ran (deref heap m2)" by (auto simp: ran_def deref_Some)
  qed
  from this[OF assms] this[OF linked_sym[OF assms]] show ?thesis by blast
qed

lemma ran_deref_key:
  assumes "linked k1 k2 heap m1 m2"
  shows "x \<in> ran (deref heap m1) \<longleftrightarrow> deref heap m1 (k1 x) = Some x"
  using linkedD(2)[OF assms] by (auto simp: ran_def deref_Some)

lemma deref_other:
  assumes "linked k1 k2 heap m1 m2"
  shows "deref heap m2 j = Some x \<longleftrightarrow> k2 x = j \<and> deref heap m1 (k1 x) = Some x"
  using linkedD2[OF assms] linkedD[OF assms] by (auto simp: deref_Some)

end
