(* ===== verification/World.thy ===== *)
theory World
  imports Auth_Backend Heap_Index
begin

text \<open>
  The state of a service process with its in-memory adapters: the clock, the random source,
  the supply of UUIDs, the started goroutines, the objects and maps of
  \<^verbatim>\<open>internal/adapters/storage/memory\<close> and \<^verbatim>\<open>internal/adapters/cache/memory\<close>, the fallback
  map of \<^verbatim>\<open>internal/lib/bruteforce\<close>, and the state \<open>'r\<close> of a Redis server. The invariant of
  that state, its abstraction to a \<open>vault\<close>, and the interpretation of the run-time contract.
\<close>

section \<open>State\<close>

text \<open>
  A store keeps pointers to its objects in two maps. The objects live on a heap, a list that
  only grows, and a pointer is an index: a change through one map shows through the other.
\<close>

record UserStore_state =
  us_heap :: "User list"
  us_byID :: "nat gomap"
  us_byEmail :: "nat gomap"

record SessionStore_state =
  ss_heap :: "Session list"
  ss_byID :: "nat gomap"
  ss_byHash :: "nat gomap"

type_synonym Cache_state = "(CachedSession \<times> time) gomap"

record ResetStore_state =
  rs_otps :: "(OTPRecord \<times> time) gomap"
  rs_resetTokens :: "(ResetTokenRecord \<times> time) gomap"

record localEntry =
  e_count :: int
  e_windowEnd :: time
  e_lockedUntil :: time

text \<open>
  The clock is read at arbitrary, never decreasing instants: \<open>w_ticks n\<close> nanoseconds pass before
  reading \<open>n\<close>. \<open>w_rand\<close> are the bytes the random source will produce, \<open>w_order\<close> is the order in
  which a \<^verbatim>\<open>range\<close> loop visits a map.
\<close>

record 'r world =
  w_now :: time
  w_ticks :: "nat \<Rightarrow> nat"
  w_reads :: nat
  w_rand :: string
  w_uuid :: "nat \<Rightarrow> string"
  w_uuids :: nat
  w_order :: "nat gomap \<Rightarrow> nat gomap"
  w_tasks :: "task list"
  w_users :: UserStore_state
  w_sessions :: SessionStore_state
  w_cache :: Cache_state
  w_resets :: ResetStore_state
  w_local :: "localEntry gomap"
  w_services :: 'r

section \<open>Run-time operations\<close>

definition time_Now :: "('r world, time) state" where
  "time_Now = State (\<lambda>w. let t = w_now w + int (w_ticks w (w_reads w))
     in (t, w\<lparr>w_now := t, w_reads := Suc (w_reads w)\<rparr>))"

definition rand_Read :: "nat \<Rightarrow> ('r world, string + string) state" where
  "rand_Read n = State (\<lambda>w. if n \<le> length (w_rand w)
     then (Inr (take n (w_rand w)), w\<lparr>w_rand := drop n (w_rand w)\<rparr>)
     else (Inl ''unexpected EOF'', w))"

definition uuid_NewString :: "('r world, string) state" where
  "uuid_NewString = State (\<lambda>w. (w_uuid w (w_uuids w), w\<lparr>w_uuids := Suc (w_uuids w)\<rparr>))"

definition go_stmt :: "task \<Rightarrow> ('r world, unit) state" where
  "go_stmt t = State (\<lambda>w. ((), w\<lparr>w_tasks := w_tasks w @ [t]\<rparr>))"

definition world_runtime :: "'r world runtime" where
  "world_runtime = \<lparr>Now = time_Now, Read = rand_Read, Go = go_stmt\<rparr>"

lemma wp_time_Now [wp_simps]:
  "wp time_Now Q w = (let t = w_now w + int (w_ticks w (w_reads w))
     in Q t (w\<lparr>w_now := t, w_reads := Suc (w_reads w)\<rparr>))"
  by (simp add: time_Now_def wp_simps Let_def)

lemma wp_rand_Read [wp_simps]:
  "wp (rand_Read n) Q w = (if n \<le> length (w_rand w)
     then Q (Inr (take n (w_rand w))) (w\<lparr>w_rand := drop n (w_rand w)\<rparr>) else Q (Inl ''unexpected EOF'') w)"
  by (simp add: rand_Read_def wp_simps)

lemma wp_uuid_NewString [wp_simps]:
  "wp uuid_NewString Q w = Q (w_uuid w (w_uuids w)) (w\<lparr>w_uuids := Suc (w_uuids w)\<rparr>)"
  by (simp add: uuid_NewString_def wp_simps)

lemma wp_go_stmt [wp_simps]: "wp (go_stmt t) Q w = Q () (w\<lparr>w_tasks := w_tasks w @ [t]\<rparr>)"
  by (simp add: go_stmt_def wp_simps)

section \<open>Abstraction\<close>

text \<open>The digests of the tokens that the remaining random bytes can produce.\<close>

definition token_at :: "crypto \<Rightarrow> string \<Rightarrow> nat \<Rightarrow> string" where
  "token_at C bs i = Hash C (b64_padded b64_url (take 32 (drop i bs)))"

definition to_come :: "crypto \<Rightarrow> string \<Rightarrow> string set" where
  "to_come C bs = token_at C bs ` {i. i + 32 \<le> length bs}"

definition mem_view :: "crypto \<Rightarrow> 'r world \<Rightarrow> vault" where
  "mem_view C w =
     \<lparr>v_remote = False,
      v_now = w_now w,
      v_users = deref (us_heap (w_users w)) (us_byID (w_users w)),
      v_sessions = deref (ss_heap (w_sessions w)) (ss_byHash (w_sessions w)),
      v_cache = map_of (w_cache w),
      v_otps = map_of (rs_otps (w_resets w)),
      v_resets = map_of (rs_resetTokens (w_resets w)),
      v_tasks = w_tasks w,
      v_unused = to_come C (w_rand w)\<rparr>"

lemma mem_view_sel [simp]:
  "v_remote (mem_view C w) = False"
  "v_now (mem_view C w) = w_now w"
  "v_users (mem_view C w) = deref (us_heap (w_users w)) (us_byID (w_users w))"
  "v_sessions (mem_view C w) = deref (ss_heap (w_sessions w)) (ss_byHash (w_sessions w))"
  "v_cache (mem_view C w) = map_of (w_cache w)"
  "v_otps (mem_view C w) = map_of (rs_otps (w_resets w))"
  "v_resets (mem_view C w) = map_of (rs_resetTokens (w_resets w))"
  "v_tasks (mem_view C w) = w_tasks w"
  "v_unused (mem_view C w) = to_come C (w_rand w)"
  by (simp_all add: mem_view_def)

section \<open>Invariant\<close>

definition users_inv :: "string set \<Rightarrow> UserStore_state \<Rightarrow> bool" where
  "users_inv ids u \<longleftrightarrow> linked u_ID u_Email (us_heap u) (us_byID u) (us_byEmail u)
     \<and> dom (map_of (us_byID u)) \<subseteq> ids"

definition sessions_inv :: "string set \<Rightarrow> SessionStore_state \<Rightarrow> bool" where
  "sessions_inv ids s \<longleftrightarrow> linked s_ID s_TokenHash (ss_heap s) (ss_byID s) (ss_byHash s)
     \<and> dom (map_of (ss_byID s)) \<subseteq> ids"

definition used_ids :: "'r world \<Rightarrow> string set" where
  "used_ids w = w_uuid w ` {..<w_uuids w}"

definition crypto_ok :: "crypto \<Rightarrow> bool" where
  "crypto_ok C \<longleftrightarrow> (\<forall>s. length (sha256 C s) = 32) \<and> argon2_total C"

definition supplies_ok :: "crypto \<Rightarrow> 'r world \<Rightarrow> bool" where
  "supplies_ok C w \<longleftrightarrow> inj (w_uuid w) \<and> [] \<notin> range (w_uuid w)
     \<and> inj_on (token_at C (w_rand w)) {i. i + 32 \<le> length (w_rand w)}
     \<and> (\<forall>m. mset (w_order w m) = mset m)"

definition mem_inv :: "crypto \<Rightarrow> 'r world \<Rightarrow> bool" where
  "mem_inv C w \<longleftrightarrow> crypto_ok C \<and> supplies_ok C w
     \<and> users_inv (used_ids w) (w_users w) \<and> sessions_inv (used_ids w) (w_sessions w)"

lemma token_at_drop: "token_at C (drop n bs) i = token_at C bs (n + i)"
  by (simp add: token_at_def add.commute)

lemma to_come_drop: "to_come C (drop n bs) \<subseteq> to_come C bs"
  unfolding to_come_def by (auto simp: token_at_drop intro!: imageI)

lemma token_at_inj_drop:
  assumes "inj_on (token_at C bs) {i. i + 32 \<le> length bs}"
  shows "inj_on (token_at C (drop n bs)) {i. i + 32 \<le> length (drop n bs)}"
proof (rule inj_onI, unfold token_at_drop mem_Collect_eq length_drop)
  fix x y assume "x + 32 \<le> length bs - n" "y + 32 \<le> length bs - n" "token_at C bs (n + x) = token_at C bs (n + y)"
  then show "x = y" using inj_onD[OF assms, of "n + x" "n + y"] by fastforce
qed

lemma drawn_not_to_come:
  assumes "inj_on (token_at C bs) {i. i + 32 \<le> length bs}" "32 \<le> length bs"
  shows "token_at C bs 0 \<in> to_come C bs - to_come C (drop 32 bs)"
proof -
  have "token_at C bs 0 \<noteq> token_at C bs (32 + i)" if "i + 32 \<le> length (drop 32 bs)" for i
  proof -
    have "32 + i + 32 \<le> length bs" using that assms(2) by simp
    then show ?thesis using inj_onD[OF assms(1), of 0 "32 + i"] assms(2) by auto
  qed
  moreover have "token_at C bs 0 \<in> to_come C bs" using assms(2) by (auto simp: to_come_def)
  ultimately show ?thesis unfolding to_come_def[of C "drop 32 bs"] token_at_drop by auto
qed

lemma rand_drawn:
  assumes "inj_on (token_at C bs) {i. i + 32 \<le> length bs}" "n \<le> length bs"
  shows "inj_on (token_at C (drop n bs)) {i. i + 32 \<le> length (drop n bs)}" "to_come C (drop n bs) \<subseteq> to_come C bs"
    "n = 32 \<longrightarrow> Hash C (b64_padded b64_url (take n bs)) \<in> to_come C bs - to_come C (drop n bs)"
  using token_at_inj_drop[OF assms(1)] to_come_drop drawn_not_to_come[OF assms(1)] assms(2)
  by (auto simp: token_at_def)

lemma ids_mono: "users_inv A u \<Longrightarrow> A \<subseteq> B \<Longrightarrow> users_inv B u" "sessions_inv A s \<Longrightarrow> A \<subseteq> B \<Longrightarrow> sessions_inv B s"
  unfolding users_inv_def sessions_inv_def by blast+

text \<open>The invariant by its parts, and the steps that touch only clock and UUID supply.\<close>

lemma mem_invD:
  assumes "mem_inv C w"
  shows "crypto_ok C" "supplies_ok C w" "users_inv (used_ids w) (w_users w)" "sessions_inv (used_ids w) (w_sessions w)"
  using assms by (auto simp: mem_inv_def)

lemma fresh_uuid: "supplies_ok C w \<Longrightarrow> w_uuid w (w_uuids w) \<notin> used_ids w"
  by (auto simp: supplies_ok_def used_ids_def dest: injD)

lemma unused_key: "dom m \<subseteq> A \<Longrightarrow> i \<notin> A \<Longrightarrow> m i = None"
  by blast

lemma used_ids_simps [simp]:
  "used_ids (w\<lparr>w_now := t\<rparr>) = used_ids w" "used_ids (w\<lparr>w_reads := n\<rparr>) = used_ids w"
  "used_ids (w\<lparr>w_users := u\<rparr>) = used_ids w" "used_ids (w\<lparr>w_sessions := s\<rparr>) = used_ids w"
  "used_ids (w\<lparr>w_cache := c\<rparr>) = used_ids w" "used_ids (w\<lparr>w_resets := r\<rparr>) = used_ids w"
  "used_ids (w\<lparr>w_uuids := Suc (w_uuids w)\<rparr>) = insert (w_uuid w (w_uuids w)) (used_ids w)"
  by (simp_all add: used_ids_def lessThan_Suc)

lemma supplies_ok_simps [simp]:
  "supplies_ok C (w\<lparr>w_now := t\<rparr>) = supplies_ok C w" "supplies_ok C (w\<lparr>w_reads := n\<rparr>) = supplies_ok C w"
  "supplies_ok C (w\<lparr>w_users := u\<rparr>) = supplies_ok C w" "supplies_ok C (w\<lparr>w_sessions := s\<rparr>) = supplies_ok C w"
  "supplies_ok C (w\<lparr>w_cache := c\<rparr>) = supplies_ok C w" "supplies_ok C (w\<lparr>w_resets := r\<rparr>) = supplies_ok C w"
  "supplies_ok C (w\<lparr>w_uuids := k\<rparr>) = supplies_ok C w"
  by (simp_all add: supplies_ok_def)

section \<open>The run-time contract\<close>

lemma later_mem_view:
  assumes "w_now w \<le> w_now w'" "mem_view C (w'\<lparr>w_now := w_now w\<rparr>) = V"
    and "v_now V = w_now w"
  shows "later V (mem_view C w')"
  using assms by (auto simp: mem_view_def later_def)

interpretation mem: runtime_env C "mem_inv C" "mem_view C" "world_runtime :: 'r world runtime" for C
proof (unfold_locales, goal_cases)
  case (1 w s)
  then show ?case by (simp add: mem_inv_def crypto_ok_def)
next
  case (2 w)
  then show ?case by (simp add: mem_inv_def crypto_ok_def)
next
  case (3 w)
  then show ?case
    by (auto simp: world_runtime_def wp_simps Let_def mem_inv_def supplies_ok_def used_ids_def
        intro!: later_mem_view[of w])
next
  case (4 w n)
  then have inj: "inj_on (token_at C (w_rand w)) {i. i + 32 \<le> length (w_rand w)}"
    by (simp add: mem_inv_def supplies_ok_def)
  show ?case
  proof (cases "n \<le> length (w_rand w)")
    case True
    note d = rand_drawn[OF inj True]
    have "mem_inv C (w\<lparr>w_rand := drop n (w_rand w)\<rparr>)"
      using 4 d(1) by (simp add: mem_inv_def supplies_ok_def used_ids_def)
    moreover have "later ((mem_view C w)\<lparr>v_unused := to_come C (drop n (w_rand w))\<rparr>)
        (mem_view C (w\<lparr>w_rand := drop n (w_rand w)\<rparr>))"
      by (simp add: mem_view_def)
    ultimately show ?thesis
      using True d(2,3) by (auto simp: world_runtime_def wp_simps intro!: exI[of _ "to_come C (drop n (w_rand w))"])
  next
    case False
    have "later ((mem_view C w)\<lparr>v_unused := to_come C (w_rand w)\<rparr>) (mem_view C w)"
      by (simp add: mem_view_def)
    with False 4 show ?thesis
      by (auto simp: world_runtime_def wp_simps intro!: exI[of _ "to_come C (w_rand w)"])
  qed
next
  case (5 w t)
  then show ?case
    by (simp add: world_runtime_def wp_simps mem_inv_def supplies_ok_def used_ids_def)
      (simp add: mem_view_def)
qed

end
