(* ===== verification/Memory_Users.thy ===== *)
theory Memory_Users
  imports World
begin

text \<open>
  \<^verbatim>\<open>internal/adapters/storage/memory/user.go\<close>: users on a heap, reached through the maps
  \<^verbatim>\<open>byID\<close> and \<^verbatim>\<open>byEmail\<close>. \<^verbatim>\<open>UpdatePasswordHash\<close> writes through a \<^verbatim>\<open>byID\<close> pointer and the new hash
  is read through \<^verbatim>\<open>byEmail\<close>. Each method runs under the store's mutex, so it is one step.
\<close>

section \<open>Operations\<close>

definition NewUserStore :: UserStore_state where
  "NewUserStore = \<lparr>us_heap = [], us_byID = [], us_byEmail = []\<rparr>"

definition alloc_user :: "User \<Rightarrow> UserStore_state \<Rightarrow> UserStore_state" where
  "alloc_user u s = (let a = length (us_heap s) in
     \<lparr>us_heap = us_heap s @ [u],
      us_byID = AList.update (u_ID u) a (us_byID s),
      us_byEmail = AList.update (u_Email u) a (us_byEmail s)\<rparr>)"

definition mem_user_Create :: "string \<Rightarrow> string \<Rightarrow> ('r world, port_error + User) state" where
  "mem_user_Create email passwordHash = do {
     byEmail \<leftarrow> gets (\<lambda>w. us_byEmail (w_users w));
     if map_of byEmail email \<noteq> None then ret (Inl ErrUserAlreadyExists)
     else do {
     i \<leftarrow> uuid_NewString;
     created \<leftarrow> time_Now;
     updated \<leftarrow> time_Now;
     let u = \<lparr>u_ID = i, u_Email = email, u_PasswordHash = passwordHash,
              u_CreatedAt = created, u_UpdatedAt = updated\<rparr>;
     _ \<leftarrow> modify (\<lambda>w. w\<lparr>w_users := alloc_user u (w_users w)\<rparr>);
     ret (Inr u)
   } }"

definition mem_user_GetByEmail :: "string \<Rightarrow> ('r world, port_error + User) state" where
  "mem_user_GetByEmail email = do {
     s \<leftarrow> gets w_users;
     ret (case map_of (us_byEmail s) email of
        None \<Rightarrow> Inl ErrUserNotFound
      | Some u \<Rightarrow> Inr (us_heap s ! u))
   }"

definition mem_user_GetByID :: "string \<Rightarrow> ('r world, port_error + User) state" where
  "mem_user_GetByID i = do {
     s \<leftarrow> gets w_users;
     ret (case map_of (us_byID s) i of
        None \<Rightarrow> Inl ErrUserNotFound
      | Some u \<Rightarrow> Inr (us_heap s ! u))
   }"

definition write_user :: "nat \<Rightarrow> (User \<Rightarrow> User) \<Rightarrow> UserStore_state \<Rightarrow> UserStore_state" where
  "write_user a f s = s\<lparr>us_heap := (us_heap s)[a := f (us_heap s ! a)]\<rparr>"

definition mem_user_UpdatePasswordHash :: "string \<Rightarrow> string \<Rightarrow> ('r world, port_error + unit) state" where
  "mem_user_UpdatePasswordHash userID passwordHash = do {
     byID \<leftarrow> gets (\<lambda>w. us_byID (w_users w));
     case map_of byID userID of
        None \<Rightarrow> ret (Inl ErrUserNotFound)
      | Some u \<Rightarrow> do {
     _ \<leftarrow> modify (\<lambda>w. w\<lparr>w_users := write_user u (u_PasswordHash_update (\<lambda>_. passwordHash)) (w_users w)\<rparr>);
     now \<leftarrow> time_Now;
     _ \<leftarrow> modify (\<lambda>w. w\<lparr>w_users := write_user u (u_UpdatedAt_update (\<lambda>_. now)) (w_users w)\<rparr>);
     ret (Inr ())
   } }"

definition mem_UserStore :: "'r world UserStore" where
  "mem_UserStore = \<lparr>us_Create = mem_user_Create, us_GetByEmail = mem_user_GetByEmail,
     us_GetByID = mem_user_GetByID, us_UpdatePasswordHash = mem_user_UpdatePasswordHash\<rparr>"

section \<open>The two maps stay in step\<close>

lemma users_inv_alloc:
  assumes "users_inv ids s" "map_of (us_byEmail s) (u_Email u) = None" "u_ID u \<notin> ids"
  shows "users_inv (insert (u_ID u) ids) (alloc_user u s)"
proof -
  have "map_of (us_byID s) (u_ID u) = None" using assms(1,3) by (auto simp: users_inv_def)
  then show ?thesis
    using assms(1,2) by (auto simp: users_inv_def alloc_user_def Let_def linked_alloc gomap_simps)
qed

lemma users_inv_write:
  assumes "users_inv ids s" "\<And>u. u_ID (f u) = u_ID u" "\<And>u. u_Email (f u) = u_Email u"
  shows "users_inv ids (write_user a f s)"
  using assms by (simp add: users_inv_def write_user_def linked_write)

lemma email_taken:
  assumes "users_inv ids s"
  shows "(\<exists>x \<in> ran (deref (us_heap s) (us_byID s)). u_Email x = e) \<longleftrightarrow> map_of (us_byEmail s) e \<noteq> None"
proof -
  have l: "linked u_ID u_Email (us_heap s) (us_byID s) (us_byEmail s)" using assms by (simp add: users_inv_def)
  show ?thesis unfolding ran_deref[OF l] ran_deref_key[OF linked_sym[OF l]] Bex_def
    using linkedD2(2)[OF l] by (auto simp: deref_Some)
qed

lemma view_alloc:
  assumes "users_inv ids s"
  shows "deref (us_heap (alloc_user u s)) (us_byID (alloc_user u s)) = (deref (us_heap s) (us_byID s))(u_ID u \<mapsto> u)"
  using assms by (simp add: users_inv_def alloc_user_def Let_def deref_alloc[where ?k1.0 = u_ID and ?k2.0 = u_Email and ?m2.0 = "us_byEmail s"])

lemma view_write:
  assumes "users_inv ids s" "map_of (us_byID s) i = Some a" "\<And>u. u_ID (f u) = u_ID u"
  shows "deref (us_heap (write_user a f s)) (us_byID (write_user a f s)) =
    (deref (us_heap s) (us_byID s))(i \<mapsto> f (us_heap s ! a))"
proof -
  have l: "linked u_ID u_Email (us_heap s) (us_byID s) (us_byEmail s)" using assms(1) by (simp add: users_inv_def)
  then show ?thesis
    using deref_write[OF l assms(2)] linkedD(2)[OF l assms(2)] by (simp add: write_user_def assms(3))
qed

section \<open>The contract\<close>

lemma mem_user_Create_new:
  assumes "mem_inv C w" "map_of (us_byEmail (w_users w)) (u_Email u) = None" "u_ID u = w_uuid w (w_uuids w)"
  shows "mem_inv C (w\<lparr>w_uuids := Suc (w_uuids w), w_now := t, w_reads := n, w_users := alloc_user u (w_users w)\<rparr>)"
proof -
  note inv = mem_invD[OF assms(1)]
  have "users_inv (insert (u_ID u) (used_ids w)) (alloc_user u (w_users w))"
    using assms(2,3) fresh_uuid[OF inv(2)] by (intro users_inv_alloc inv(3)) auto
  moreover have "sessions_inv (insert (u_ID u) (used_ids w)) (w_sessions w)"
    by (rule ids_mono(2)[OF inv(4)]) blast
  ultimately show ?thesis using inv by (simp add: mem_inv_def assms(3))
qed

interpretation mem: user_store "mem_inv C" "mem_view C" "mem_UserStore :: 'r world UserStore" for C
proof (unfold_locales, goal_cases)
  case (1 w e h)
  note inv = mem_invD[OF 1]
  show ?case
  proof (cases "map_of (us_byEmail (w_users w)) e")
    case None
    have "w_uuid w (w_uuids w) \<notin> dom (deref (us_heap (w_users w)) (us_byID (w_users w)))"
      using unused_key[OF _ fresh_uuid[OF inv(2)], of "map_of (us_byID (w_users w))"] inv(3)
      by (auto simp: users_inv_def deref_Some)
    with None 1 email_taken[OF inv(3), of e] show ?thesis
      by (simp add: mem_UserStore_def mem_user_Create_def wp_simps Let_def user_Create_spec_def
            mem_user_Create_new)
        (intro later_mem_view[of w]; simp add: mem_view_def view_alloc[OF inv(3)])
  next
    case (Some a)
    then show ?thesis using 1 email_taken[OF inv(3), of e]
      by (simp add: mem_UserStore_def mem_user_Create_def wp_simps user_Create_spec_def)
  qed
next
  case (2 w e)
  note inv = mem_invD[OF 2]
  show ?case
    using 2 email_taken[OF inv(3), of e] inv(3)
    by (auto simp: mem_UserStore_def mem_user_GetByEmail_def wp_simps user_GetByEmail_spec_def users_inv_def
        deref_Some split: option.split dest: linkedD2)
next
  case (3 w i)
  then show ?case
    by (auto simp: mem_UserStore_def mem_user_GetByID_def wp_simps user_GetByID_spec_def deref_Some deref_None
        split: option.split)
next
  case (4 w i h)
  note inv = mem_invD[OF 4]
  show ?case
  proof (cases "map_of (us_byID (w_users w)) i")
    case None
    then show ?thesis using 4
      by (simp add: mem_UserStore_def mem_user_UpdatePasswordHash_def wp_simps user_Update_spec_def deref_None)
  next
    case (Some a)
    let ?t = "w_now w + int (w_ticks w (w_reads w))"
    let ?s1 = "write_user a (u_PasswordHash_update (\<lambda>_. h)) (w_users w)"
    let ?s2 = "write_user a (u_UpdatedAt_update (\<lambda>_. ?t)) ?s1"
    have i1: "users_inv (used_ids w) ?s1" and i2: "users_inv (used_ids w) ?s2"
      using inv(3) by (simp_all add: users_inv_write)
    have a: "map_of (us_byID ?s1) i = Some a" "a < length (us_heap (w_users w))"
      using Some inv(3) linkedD(1) by (auto simp: write_user_def users_inv_def)
    have "deref (us_heap ?s2) (us_byID ?s2) = (deref (us_heap (w_users w)) (us_byID (w_users w)))
        (i \<mapsto> (us_heap (w_users w) ! a)\<lparr>u_PasswordHash := h, u_UpdatedAt := ?t\<rparr>)"
      using view_write[OF i1 a(1), of "u_UpdatedAt_update (\<lambda>_. ?t)"]
        view_write[OF inv(3) Some, of "u_PasswordHash_update (\<lambda>_. h)"] a(2)
      by (simp add: write_user_def)
    then have "later ((mem_view C w)\<lparr>v_users := (v_users (mem_view C w))
        (i \<mapsto> (us_heap (w_users w) ! a)\<lparr>u_PasswordHash := h, u_UpdatedAt := ?t\<rparr>)\<rparr>)
       (mem_view C (w\<lparr>w_now := ?t, w_reads := Suc (w_reads w), w_users := ?s2\<rparr>))"
      by (intro later_mem_view[of w]) (simp_all add: mem_view_def)
    moreover have "mem_inv C (w\<lparr>w_now := ?t, w_reads := Suc (w_reads w), w_users := ?s2\<rparr>)"
      using inv i2 by (simp add: mem_inv_def)
    moreover have "v_users (mem_view C w) i = Some (us_heap (w_users w) ! a)" using Some by (simp add: deref_Some)
    ultimately show ?thesis using Some
      by (auto simp: mem_UserStore_def mem_user_UpdatePasswordHash_def wp_simps user_Update_spec_def Let_def)
  qed
qed

end
