(* ===== verification/Memory_Sessions.thy ===== *)
theory Memory_Sessions
  imports World
begin

text \<open>
  \<^verbatim>\<open>internal/adapters/storage/memory/session.go\<close>: sessions on a heap, reached through \<^verbatim>\<open>byID\<close>
  and \<^verbatim>\<open>byHash\<close>. Lookup updates \<^verbatim>\<open>LastUsedAt\<close> through the pointer; the bulk operations range
  over \<^verbatim>\<open>byID\<close> in an arbitrary order. Each method runs under the store's mutex, so it is one
  step. A \<^verbatim>\<open>*models.Session\<close> argument that the method fills in is returned.
\<close>

section \<open>Operations\<close>

definition NewSessionStore :: SessionStore_state where
  "NewSessionStore = \<lparr>ss_heap = [], ss_byID = [], ss_byHash = []\<rparr>"

definition alloc_session :: "Session \<Rightarrow> SessionStore_state \<Rightarrow> SessionStore_state" where
  "alloc_session x s = (let a = length (ss_heap s) in
     \<lparr>ss_heap = ss_heap s @ [x],
      ss_byID = AList.update (s_ID x) a (ss_byID s),
      ss_byHash = AList.update (s_TokenHash x) a (ss_byHash s)\<rparr>)"

definition session_ID_or_new :: "Session \<Rightarrow> ('r world, string) state" where
  "session_ID_or_new sess = (if s_ID sess = [] then uuid_NewString else ret (s_ID sess))"

definition mem_session_Create :: "Session \<Rightarrow> ('r world, port_error + Session) state" where
  "mem_session_Create sess = do {
     i \<leftarrow> session_ID_or_new sess;
     now \<leftarrow> time_Now;
     let sess' = sess\<lparr>s_ID := i, s_CreatedAt := now, s_LastUsedAt := now\<rparr>;
     _ \<leftarrow> modify (\<lambda>w. w\<lparr>w_sessions := alloc_session sess' (w_sessions w)\<rparr>);
     ret (Inr sess')
   }"

definition write_session :: "nat \<Rightarrow> (Session \<Rightarrow> Session) \<Rightarrow> SessionStore_state \<Rightarrow> SessionStore_state" where
  "write_session a f s = s\<lparr>ss_heap := (ss_heap s)[a := f (ss_heap s ! a)]\<rparr>"

definition mem_session_GetByTokenHash :: "string \<Rightarrow> ('r world, port_error + Session) state" where
  "mem_session_GetByTokenHash tokenHash = do {
     s \<leftarrow> gets w_sessions;
     case map_of (ss_byHash s) tokenHash of
        None \<Rightarrow> ret (Inl ErrSessionNotFound)
      | Some a \<Rightarrow> do {
     now \<leftarrow> time_Now;
     _ \<leftarrow> modify (\<lambda>w. w\<lparr>w_sessions := write_session a (s_LastUsedAt_update (\<lambda>_. now)) (w_sessions w)\<rparr>);
     cp \<leftarrow> gets (\<lambda>w. ss_heap (w_sessions w) ! a);
     ret (Inr cp)
   } }"

definition delete_session :: "string \<Rightarrow> string \<Rightarrow> SessionStore_state \<Rightarrow> SessionStore_state" where
  "delete_session i h s = s\<lparr>ss_byID := AList.delete i (ss_byID s), ss_byHash := AList.delete h (ss_byHash s)\<rparr>"

definition mem_session_DeleteByID :: "string \<Rightarrow> string \<Rightarrow> ('r world, port_error + string) state" where
  "mem_session_DeleteByID sessionID userID = do {
     s \<leftarrow> gets w_sessions;
     case map_of (ss_byID s) sessionID of
        None \<Rightarrow> ret (Inl ErrSessionNotFound)
      | Some a \<Rightarrow>
     if s_UserID (ss_heap s ! a) \<noteq> userID then ret (Inl ErrSessionNotFound)
     else do {
     let hash = s_TokenHash (ss_heap s ! a);
     _ \<leftarrow> modify (\<lambda>w. w\<lparr>w_sessions := delete_session sessionID hash (w_sessions w)\<rparr>);
     ret (Inr hash)
   } }"

definition mem_session_DeleteByTokenHash :: "string \<Rightarrow> ('r world, port_error + unit) state" where
  "mem_session_DeleteByTokenHash tokenHash = do {
     s \<leftarrow> gets w_sessions;
     case map_of (ss_byHash s) tokenHash of
        None \<Rightarrow> ret (Inr ())
      | Some a \<Rightarrow> do {
     _ \<leftarrow> modify (\<lambda>w. w\<lparr>w_sessions := delete_session (s_ID (ss_heap s ! a)) tokenHash (w_sessions w)\<rparr>);
     ret (Inr ())
   } }"

definition mem_session_RotateToken :: "string \<Rightarrow> Session \<Rightarrow> ('r world, port_error + Session) state" where
  "mem_session_RotateToken oldHash newSess = do {
     s \<leftarrow> gets w_sessions;
     case map_of (ss_byHash s) oldHash of
        None \<Rightarrow> ret (Inl ErrSessionNotFound)
      | Some old \<Rightarrow> do {
     _ \<leftarrow> modify (\<lambda>w. w\<lparr>w_sessions := delete_session (s_ID (ss_heap s ! old)) oldHash (w_sessions w)\<rparr>);
     i \<leftarrow> session_ID_or_new newSess;
     now \<leftarrow> time_Now;
     let newSess' = newSess\<lparr>s_ID := i, s_CreatedAt := now, s_LastUsedAt := now\<rparr>;
     _ \<leftarrow> modify (\<lambda>w. w\<lparr>w_sessions := alloc_session newSess' (w_sessions w)\<rparr>);
     ret (Inr newSess')
   } }"

text \<open>The loop of the two bulk deletions, over the entries in the order they are visited.\<close>

fun delete_matching ::
  "(Session \<Rightarrow> bool) \<Rightarrow> nat gomap \<Rightarrow> SessionStore_state \<Rightarrow> string list \<times> SessionStore_state" where
  "delete_matching P [] s = ([], s)"
| "delete_matching P ((i, a) # es) s =
     (let sess = ss_heap s ! a in
      if P sess then
        (case delete_matching P es (delete_session i (s_TokenHash sess) s) of
           (hashes, s') \<Rightarrow> (s_TokenHash sess # hashes, s'))
      else delete_matching P es s)"

definition mem_delete_matching ::
  "(Session \<Rightarrow> bool) \<Rightarrow> ('r world, string list \<times> port_error option) state" where
  "mem_delete_matching P = do {
     s \<leftarrow> gets w_sessions;
     order \<leftarrow> gets w_order;
     let (hashes, s') = delete_matching P (order (ss_byID s)) s;
     _ \<leftarrow> modify (\<lambda>w. w\<lparr>w_sessions := s'\<rparr>);
     ret (hashes, None)
   }"

definition mem_session_DeleteAllByUserID :: "string \<Rightarrow> ('r world, string list \<times> port_error option) state" where
  "mem_session_DeleteAllByUserID userID = mem_delete_matching (\<lambda>sess. s_UserID sess = userID)"

definition mem_session_DeleteAllByUserIDExcept ::
  "string \<Rightarrow> string \<Rightarrow> ('r world, string list \<times> port_error option) state" where
  "mem_session_DeleteAllByUserIDExcept userID keepTokenHash =
     mem_delete_matching (\<lambda>sess. s_UserID sess = userID \<and> s_TokenHash sess \<noteq> keepTokenHash)"

definition mem_session_ListByUserID :: "string \<Rightarrow> ('r world, Session list \<times> port_error option) state" where
  "mem_session_ListByUserID userID = do {
     s \<leftarrow> gets w_sessions;
     order \<leftarrow> gets w_order;
     let sessions = map (\<lambda>(_, a). ss_heap s ! a) (order (ss_byID s));
     ret (filter (\<lambda>sess. s_UserID sess = userID) sessions, None)
   }"

definition mem_SessionStore :: "'r world SessionStore" where
  "mem_SessionStore = \<lparr>ss_Create = mem_session_Create, ss_GetByTokenHash = mem_session_GetByTokenHash,
     ss_DeleteByID = mem_session_DeleteByID, ss_DeleteByTokenHash = mem_session_DeleteByTokenHash,
     ss_RotateToken = mem_session_RotateToken, ss_DeleteAllByUserID = mem_session_DeleteAllByUserID,
     ss_DeleteAllByUserIDExcept = mem_session_DeleteAllByUserIDExcept,
     ss_ListByUserID = mem_session_ListByUserID\<rparr>"

section \<open>The store's state\<close>

abbreviation by_hash :: "SessionStore_state \<Rightarrow> string \<rightharpoonup> Session" where
  "by_hash s \<equiv> deref (ss_heap s) (ss_byHash s)"

lemma sessions_invD: "sessions_inv ids s \<Longrightarrow> linked s_ID s_TokenHash (ss_heap s) (ss_byID s) (ss_byHash s)"
  by (simp add: sessions_inv_def)

lemma alloc_session_ok:
  assumes "sessions_inv ids s" "s_ID x \<notin> ids" "by_hash s (s_TokenHash x) = None"
  shows "sessions_inv (insert (s_ID x) ids) (alloc_session x s)"
    and "by_hash (alloc_session x s) = (by_hash s)(s_TokenHash x \<mapsto> x)"
proof -
  note l = sessions_invD[OF assms(1)]
  have "map_of (ss_byID s) (s_ID x) = None"
    using assms(1,2) unused_key[of "map_of (ss_byID s)" ids "s_ID x"] by (simp add: sessions_inv_def)
  with linked_alloc[OF l, of x] assms(1,3) show "sessions_inv (insert (s_ID x) ids) (alloc_session x s)"
    by (auto simp: sessions_inv_def alloc_session_def Let_def deref_None gomap_simps)
  show "by_hash (alloc_session x s) = (by_hash s)(s_TokenHash x \<mapsto> x)"
    using deref_alloc[OF linked_sym[OF l], of x] by (simp add: alloc_session_def Let_def)
qed

lemma write_session_ok:
  assumes "sessions_inv ids s" "map_of (ss_byHash s) h = Some a"
    and "\<And>x. s_ID (f x) = s_ID x" "\<And>x. s_TokenHash (f x) = s_TokenHash x"
  shows "sessions_inv ids (write_session a f s)"
    and "by_hash (write_session a f s) = (by_hash s)(h \<mapsto> f (ss_heap s ! a))"
    and "ss_heap (write_session a f s) ! a = f (ss_heap s ! a)"
proof -
  note l = sessions_invD[OF assms(1)]
  show "sessions_inv ids (write_session a f s)"
    using assms(1) linked_write[OF l, of f a] by (simp add: sessions_inv_def write_session_def assms(3,4))
  show "by_hash (write_session a f s) = (by_hash s)(h \<mapsto> f (ss_heap s ! a))"
    using deref_write[OF linked_sym[OF l] assms(2), of "f (ss_heap s ! a)"] linkedD2(2)[OF l assms(2)]
    by (simp add: write_session_def assms(4))
  show "ss_heap (write_session a f s) ! a = f (ss_heap s ! a)"
    using linkedD2(1)[OF l assms(2)] by (simp add: write_session_def)
qed

lemma delete_session_ok:
  assumes "sessions_inv ids s" "map_of (ss_byID s) i = Some a" "h = s_TokenHash (ss_heap s ! a)"
  shows "sessions_inv ids (delete_session i h s)" "by_hash (delete_session i h s) = (by_hash s)(h := None)"
proof -
  note l = sessions_invD[OF assms(1)]
  have i: "i = s_ID (ss_heap s ! a)" using linkedD(2)[OF l assms(2)] by simp
  show "sessions_inv ids (delete_session i h s)"
    using assms(1) linked_delete[OF l, of a] assms(2)
    by (auto simp: sessions_inv_def delete_session_def i assms(3) gomap_simps)
  show "by_hash (delete_session i h s) = (by_hash s)(h := None)"
    by (simp add: delete_session_def deref_delete)
qed

section \<open>Ranging over the sessions\<close>

definition matching :: "(Session \<Rightarrow> bool) \<Rightarrow> nat gomap \<Rightarrow> SessionStore_state \<Rightarrow> string set" where
  "matching P es s = {s_TokenHash (ss_heap s ! a) | i a. (i, a) \<in> set es \<and> P (ss_heap s ! a)}"

lemma matching_Cons:
  "matching P ((i, a) # es) s = (if P (ss_heap s ! a) then {s_TokenHash (ss_heap s ! a)} else {}) \<union> matching P es s"
  by (auto simp: matching_def)

lemma delete_matching_ok:
  assumes "sessions_inv ids s" "distinct (map fst es)" "\<And>i a. (i, a) \<in> set es \<Longrightarrow> map_of (ss_byID s) i = Some a"
  shows "\<exists>hs s'. delete_matching P es s = (hs, s') \<and> sessions_inv ids s' \<and> distinct hs
    \<and> set hs = matching P es s \<and> by_hash s' = by_hash s |` (- set hs)"
  using assms
proof (induction es arbitrary: s)
  case Nil
  then show ?case by (simp add: matching_def restrict_map_def)
next
  case (Cons e es)
  obtain i a where e: "e = (i, a)" by (cases e)
  let ?h = "s_TokenHash (ss_heap s ! a)" and ?s = "delete_session i (s_TokenHash (ss_heap s ! a)) s"
  have a: "map_of (ss_byID s) i = Some a" using Cons.prems(3) e by auto
  note l = sessions_invD[OF Cons.prems(1)]
  show ?case
  proof (cases "P (ss_heap s ! a)")
    case False
    with Cons.IH[OF Cons.prems(1)] Cons.prems show ?thesis by (simp add: e matching_Cons)
  next
    case True
    note d = delete_session_ok[OF Cons.prems(1) a refl]
    have rest: "map_of (ss_byID ?s) j = Some b" if "(j, b) \<in> set es" for j b
    proof -
      have "j \<noteq> i" using Cons.prems(2) that by (force simp: e)
      then show ?thesis using Cons.prems(3)[of j b] that by (simp add: e delete_session_def gomap_simps)
    qed
    obtain hs s' where IH: "delete_matching P es ?s = (hs, s')" "sessions_inv ids s'" "distinct hs"
      "set hs = matching P es ?s" "by_hash s' = by_hash ?s |` (- set hs)"
      using Cons.IH[OF d(1) _ rest] Cons.prems(2) by (auto simp: e)
    have same: "matching P es ?s = matching P es s" by (simp add: matching_def delete_session_def)
    have "?h \<notin> matching P es s"
    proof
      assume "?h \<in> matching P es s"
      then obtain j b where b: "(j, b) \<in> set es" "?h = s_TokenHash (ss_heap s ! b)" by (auto simp: matching_def)
      then have "map_of (ss_byID s) j = Some b" using Cons.prems(3) by auto
      from linkedD(3)[OF l this] linkedD(3)[OF l a] b(2) have "b = a" by (metis option.inject)
      then have "j = i" using linkedD(2)[OF l a] linkedD(2)[OF l \<open>map_of (ss_byID s) j = Some b\<close>] by simp
      then show False using Cons.prems(2) b(1) by (force simp: e)
    qed
    moreover have "by_hash s' = by_hash s |` (- set (?h # hs))"
      unfolding IH(5) d(2) by (auto simp: restrict_map_def fun_eq_iff)
    ultimately show ?thesis
      using True IH by (simp add: e Let_def matching_Cons same)
  qed
qed

lemma visited_sessions:
  assumes "mem_inv C w"
  shows "distinct (map fst (w_order w (ss_byID (w_sessions w))))"
    "(i, a) \<in> set (w_order w (ss_byID (w_sessions w))) \<longleftrightarrow> map_of (ss_byID (w_sessions w)) i = Some a"
proof -
  note inv = mem_invD[OF assms]
  have p: "mset (w_order w (ss_byID (w_sessions w))) = mset (ss_byID (w_sessions w))"
    using inv(2) by (simp add: supplies_ok_def)
  have ok: "gomap_ok (ss_byID (w_sessions w))" using linked_gomap_ok[OF sessions_invD[OF inv(4)]] by simp
  show "distinct (map fst (w_order w (ss_byID (w_sessions w))))"
    using gomap_ok_perm[OF p ok] by (simp add: gomap_ok_def)
  show "(i, a) \<in> set (w_order w (ss_byID (w_sessions w))) \<longleftrightarrow> map_of (ss_byID (w_sessions w)) i = Some a"
    using gomap_entry[OF ok] mset_eq_setD[OF p] by simp
qed

lemma matching_all:
  assumes "mem_inv C w"
  shows "matching P (w_order w (ss_byID (w_sessions w))) (w_sessions w)
    = {h. \<exists>x. by_hash (w_sessions w) h = Some x \<and> P x}"
proof -
  note l = sessions_invD[OF mem_invD(4)[OF assms]]
  show ?thesis unfolding matching_def visited_sessions(2)[OF assms]
    using linkedD[OF l] linkedD2[OF l] by (auto simp: deref_Some) metis+
qed

lemma mem_delete_matching_ok:
  assumes "mem_inv C w"
  shows "wp (mem_delete_matching P) (\<lambda>r w'. mem_inv C w' \<and> snd r = None \<and> distinct (fst r)
    \<and> set (fst r) = {h. \<exists>x. v_sessions (mem_view C w) h = Some x \<and> P x}
    \<and> mem_view C w' = (mem_view C w)\<lparr>v_sessions := v_sessions (mem_view C w) |` (- set (fst r))\<rparr>) w"
proof -
  note inv = mem_invD[OF assms]
  obtain hs s' where "delete_matching P (w_order w (ss_byID (w_sessions w))) (w_sessions w) = (hs, s')"
    "sessions_inv (used_ids w) s'" "distinct hs"
    "set hs = matching P (w_order w (ss_byID (w_sessions w))) (w_sessions w)"
    "by_hash s' = by_hash (w_sessions w) |` (- set hs)"
    using delete_matching_ok[OF inv(4) visited_sessions(1)[OF assms], of P] visited_sessions(2)[OF assms] by metis
  then show ?thesis
    using inv by (simp add: mem_delete_matching_def wp_simps Let_def mem_inv_def matching_all[OF assms])
qed

section \<open>The contract\<close>

text \<open>A session gets a new ID and is stored under an unused digest.\<close>

lemma mem_alloc_session:
  assumes "mem_inv C w" "by_hash s (s_TokenHash x) = None" "sessions_inv (used_ids w) s" "s_ID x = w_uuid w (w_uuids w)"
  shows "sessions_inv (insert (s_ID x) (used_ids w)) (alloc_session x s)"
    and "users_inv (insert (s_ID x) (used_ids w)) (w_users w)"
    and "by_hash (alloc_session x s) = (by_hash s)(s_TokenHash x \<mapsto> x)"
    and "\<forall>y \<in> ran (by_hash s). s_ID y \<noteq> s_ID x"
proof -
  note inv = mem_invD[OF assms(1)]
  have new: "s_ID x \<notin> used_ids w" using fresh_uuid[OF inv(2)] by (simp add: assms(4))
  note a = alloc_session_ok[OF assms(3) new assms(2)]
  show "users_inv (insert (s_ID x) (used_ids w)) (w_users w)" by (rule ids_mono(1)[OF inv(3)]) blast
  show "sessions_inv (insert (s_ID x) (used_ids w)) (alloc_session x s)" by (rule a(1))
  show "by_hash (alloc_session x s) = (by_hash s)(s_TokenHash x \<mapsto> x)" by (rule a(2))
  show "\<forall>y \<in> ran (by_hash s). s_ID y \<noteq> s_ID x"
  proof
    fix y assume "y \<in> ran (by_hash s)"
    then have "deref (ss_heap s) (ss_byID s) (s_ID y) = Some y"
      using ran_deref[OF sessions_invD[OF assms(3)]] ran_deref_key[OF sessions_invD[OF assms(3)]] by simp
    then have "s_ID y \<in> used_ids w" using assms(3) by (auto simp: sessions_inv_def deref_Some)
    with new show "s_ID y \<noteq> s_ID x" by auto
  qed
qed

lemma mem_session_Create_ok:
  assumes "mem_inv C w" "new_session (mem_view C w) s"
  shows "wp (mem_session_Create s) (\<lambda>r w'. mem_inv C w' \<and> session_Create_spec s (mem_view C w) r (mem_view C w')) w"
proof -
  note inv = mem_invD[OF assms(1)]
  let ?t = "w_now w + int (w_ticks w (w_reads w))"
  let ?x = "s\<lparr>s_ID := w_uuid w (w_uuids w), s_CreatedAt := ?t, s_LastUsedAt := ?t\<rparr>"
  have "by_hash (w_sessions w) (s_TokenHash ?x) = None" "s_ID s = []"
    using assms(2) by (auto simp: new_session_def dom_def)
  note a = mem_alloc_session[OF assms(1) this(1) inv(4)] and [simp] = \<open>s_ID s = []\<close>
  have "later ((mem_view C w)\<lparr>v_sessions := (v_sessions (mem_view C w))(s_TokenHash s \<mapsto> ?x)\<rparr>)
    (mem_view C (w\<lparr>w_uuids := Suc (w_uuids w), w_now := ?t, w_reads := Suc (w_reads w),
       w_sessions := alloc_session ?x (w_sessions w)\<rparr>))"
    using a by (intro later_mem_view[of w]) (simp_all add: mem_view_def)
  with a inv show ?thesis
    by (auto simp: mem_session_Create_def session_ID_or_new_def wp_simps Let_def session_Create_spec_def mem_inv_def
        intro!: exI[of _ ?x] stored_session_exact)
qed

lemma mem_session_Get_ok:
  assumes "mem_inv C w"
  shows "wp (mem_session_GetByTokenHash h)
    (\<lambda>r w'. mem_inv C w' \<and> session_Get_spec h (mem_view C w) r (mem_view C w')) w"
proof (cases "map_of (ss_byHash (w_sessions w)) h")
  case None
  with assms show ?thesis
    by (simp add: mem_session_GetByTokenHash_def wp_simps session_Get_spec_def deref_None)
next
  case (Some a)
  note inv = mem_invD[OF assms]
  let ?t = "w_now w + int (w_ticks w (w_reads w))" and ?x = "ss_heap (w_sessions w) ! a"
  let ?s = "write_session a (s_LastUsedAt_update (\<lambda>_. ?t)) (w_sessions w)"
  note d = write_session_ok[OF inv(4) Some, of "s_LastUsedAt_update (\<lambda>_. ?t)", simplified]
  have "later ((mem_view C w)\<lparr>v_sessions := (v_sessions (mem_view C w))(h \<mapsto> ?x\<lparr>s_LastUsedAt := ?t\<rparr>)\<rparr>)
    (mem_view C (w\<lparr>w_now := ?t, w_reads := Suc (w_reads w), w_sessions := ?s\<rparr>))"
    using d(2) by (intro later_mem_view[of w]) (simp_all add: mem_view_def)
  moreover have "?x\<lparr>s_LastUsedAt := ?t\<rparr> = ?x\<lparr>s_UserEmail := s_UserEmail ?x, s_LastUsedAt := ?t\<rparr>" by simp
  moreover have "by_hash (w_sessions w) h = Some ?x" using Some by (simp add: deref_Some)
  ultimately have "session_Get_spec h (mem_view C w) (Inr (?x\<lparr>s_LastUsedAt := ?t\<rparr>))
    (mem_view C (w\<lparr>w_now := ?t, w_reads := Suc (w_reads w), w_sessions := ?s\<rparr>))"
    unfolding session_Get_spec_def sum.case mem_view_sel by blast
  then show ?thesis
    using Some d(1,3) inv by (simp add: mem_session_GetByTokenHash_def wp_simps Let_def mem_inv_def)
qed

lemma mem_session_Rotate_ok:
  assumes "mem_inv C w" "new_session (mem_view C w) s"
  shows "wp (mem_session_RotateToken old s)
    (\<lambda>r w'. mem_inv C w' \<and> session_Rotate_spec old s (mem_view C w) r (mem_view C w')) w"
proof (cases "map_of (ss_byHash (w_sessions w)) old")
  case None
  with assms(1) show ?thesis
    by (simp add: mem_session_RotateToken_def wp_simps session_Rotate_spec_def deref_None)
next
  case (Some a)
  note inv = mem_invD[OF assms(1)]
  note l = sessions_invD[OF inv(4)]
  let ?t = "w_now w + int (w_ticks w (w_reads w))"
  let ?x = "s\<lparr>s_ID := w_uuid w (w_uuids w), s_CreatedAt := ?t, s_LastUsedAt := ?t\<rparr>"
  let ?s = "delete_session (s_ID (ss_heap (w_sessions w) ! a)) old (w_sessions w)"
  note d = delete_session_ok[OF inv(4) linkedD2(3)[OF l Some], unfolded linkedD2(2)[OF l Some], OF refl]
  have "by_hash ?s (s_TokenHash ?x) = None" "s_ID s = []"
    using assms(2) d(2) by (auto simp: new_session_def dom_def)
  note a = mem_alloc_session[OF assms(1) this(1) d(1)] and [simp] = \<open>s_ID s = []\<close>
  have "later ((mem_view C w)\<lparr>v_sessions := ((v_sessions (mem_view C w))(old := None))(s_TokenHash s \<mapsto> ?x)\<rparr>)
    (mem_view C (w\<lparr>w_uuids := Suc (w_uuids w), w_now := ?t, w_reads := Suc (w_reads w),
       w_sessions := alloc_session ?x ?s\<rparr>))"
    using a d(2) by (intro later_mem_view[of w]) (simp_all add: mem_view_def)
  moreover have "old \<in> dom (by_hash (w_sessions w))" using Some by (auto simp: deref_Some)
  ultimately show ?thesis using a d inv Some
    by (auto simp: mem_session_RotateToken_def session_ID_or_new_def wp_simps Let_def session_Rotate_spec_def mem_inv_def
        intro!: exI[of _ ?x] stored_session_exact)
qed

lemma mem_session_DeleteAll_ok:
  assumes "mem_inv C w" "\<And>h x. v_sessions (mem_view C w) h = Some x \<Longrightarrow> P x \<longleftrightarrow> s_UserID x = uid \<and> h \<notin> keep"
  shows "wp (mem_delete_matching P)
    (\<lambda>r w'. mem_inv C w' \<and> session_DeleteAll_spec uid keep (mem_view C w) r (mem_view C w') \<and> (True \<longrightarrow> snd r = None)) w"
proof -
  have "{h. \<exists>x. v_sessions (mem_view C w) h = Some x \<and> P x} = user_hashes (v_sessions (mem_view C w)) uid - keep"
    using assms(2) by (auto simp: user_hashes_def)
  with wp_mono[OF mem_delete_matching_ok[OF assms(1), of P]] show ?thesis
    by (auto simp: session_DeleteAll_spec_def Let_def split: prod.split)
qed

lemma mem_session_List_ok:
  assumes "mem_inv C w"
  shows "wp (mem_session_ListByUserID uid)
    (\<lambda>r w'. mem_inv C w' \<and> session_List_spec uid (mem_view C w) r (mem_view C w')) w"
proof -
  note l = sessions_invD[OF mem_invD(4)[OF assms]]
  let ?es = "w_order w (ss_byID (w_sessions w))" and ?f = "\<lambda>(_ :: string, a). ss_heap (w_sessions w) ! a"
  have "?f ` set ?es = ran (by_hash (w_sessions w))"
    unfolding ran_deref[OF l, symmetric] using visited_sessions(2)[OF assms] by (force simp: ran_def deref_Some)
  moreover have "distinct (map (s_TokenHash \<circ> ?f) ?es)"
  proof -
    have "inj_on (s_TokenHash \<circ> ?f) (set ?es)"
    proof (rule inj_onI)
      fix e e' assume e: "e \<in> set ?es" "e' \<in> set ?es" "(s_TokenHash \<circ> ?f) e = (s_TokenHash \<circ> ?f) e'"
      then have m: "map_of (ss_byID (w_sessions w)) (fst e) = Some (snd e)" "map_of (ss_byID (w_sessions w)) (fst e') = Some (snd e')"
        using visited_sessions(2)[OF assms] by (metis prod.collapse)+
      have "s_TokenHash (ss_heap (w_sessions w) ! snd e) = s_TokenHash (ss_heap (w_sessions w) ! snd e')"
        using e(3) by (simp add: case_prod_beta)
      with linkedD(3)[OF l m(1)] linkedD(3)[OF l m(2)] have "snd e = snd e'" by (metis option.inject)
      with linkedD(2)[OF l m(1)] linkedD(2)[OF l m(2)] show "e = e'" by (simp add: prod_eq_iff)
    qed
    then show ?thesis using visited_sessions(1)[OF assms] by (simp add: distinct_map)
  qed
  ultimately show ?thesis using assms
    by (auto simp: mem_session_ListByUserID_def wp_simps Let_def session_List_spec_def distinct_map_filter)
qed

interpretation mem: session_store "mem_inv C" "mem_view C" "mem_SessionStore :: 'r world SessionStore" True for C
proof (unfold_locales, goal_cases)
  case (1 w s)
  then show ?case using mem_session_Create_ok by (simp add: mem_SessionStore_def)
next
  case (2 w h)
  then show ?case using mem_session_Get_ok by (simp add: mem_SessionStore_def)
next
  case (3 w i uid)
  note inv = mem_invD[OF 3]
  note l = sessions_invD[OF inv(4)]
  show ?case
  proof (cases "\<exists>a. map_of (ss_byID (w_sessions w)) i = Some a \<and> s_UserID (ss_heap (w_sessions w) ! a) = uid")
    case True
    then obtain a where a: "map_of (ss_byID (w_sessions w)) i = Some a" "s_UserID (ss_heap (w_sessions w) ! a) = uid" by blast
    note d = delete_session_ok[OF inv(4) a(1) refl]
    show ?thesis using a d inv linkedD[OF l a(1)]
      by (simp add: mem_SessionStore_def mem_session_DeleteByID_def wp_simps Let_def session_DeleteByID_spec_def
          mem_inv_def deref_Some) (simp add: mem_view_def)
  next
    case False
    have "\<not> (s_ID x = i \<and> s_UserID x = uid)" if "x \<in> ran (by_hash (w_sessions w))" for x
      using that False unfolding ran_deref[OF l, symmetric] ran_deref_key[OF l] by (auto simp: deref_Some)
    with False 3 show ?thesis
      by (auto simp: mem_SessionStore_def mem_session_DeleteByID_def wp_simps session_DeleteByID_spec_def split: option.split)
  qed
next
  case (4 w h)
  note inv = mem_invD[OF 4]
  note l = sessions_invD[OF inv(4)]
  show ?case
  proof (cases "map_of (ss_byHash (w_sessions w)) h")
    case None
    then have "(by_hash (w_sessions w))(h := None) = by_hash (w_sessions w)" by (simp add: fun_upd_idem deref_None)
    with None 4 show ?thesis
      by (simp add: mem_SessionStore_def mem_session_DeleteByTokenHash_def wp_simps session_Delete_spec_def)
        (simp add: mem_view_def)
  next
    case (Some a)
    note d = delete_session_ok[OF inv(4) linkedD2(3)[OF l Some], unfolded linkedD2(2)[OF l Some], OF refl]
    with Some inv show ?thesis
      by (simp add: mem_SessionStore_def mem_session_DeleteByTokenHash_def wp_simps session_Delete_spec_def mem_inv_def)
        (simp add: mem_view_def)
  qed
next
  case (5 w s old)
  then show ?case using mem_session_Rotate_ok by (simp add: mem_SessionStore_def)
next
  case (6 w old s)
  then show ?case by (simp add: mem_SessionStore_def mem_session_RotateToken_def wp_simps deref_None)
next
  case (7 w uid)
  then show ?case using mem_session_DeleteAll_ok[OF 7, of "\<lambda>x. s_UserID x = uid" uid "{}"]
    by (simp add: mem_SessionStore_def mem_session_DeleteAllByUserID_def)
next
  case (8 w uid keep)
  have "s_TokenHash x = h" if "v_sessions (mem_view C w) h = Some x" for h x
    using that linkedD2(2)[OF sessions_invD[OF mem_invD(4)[OF 8]]] by (auto simp: deref_Some)
  then show ?case
    using mem_session_DeleteAll_ok[OF 8, of "\<lambda>x. s_UserID x = uid \<and> s_TokenHash x \<noteq> keep" uid "{keep}"]
    by (auto simp: mem_SessionStore_def mem_session_DeleteAllByUserIDExcept_def)
next
  case (9 w uid)
  then show ?case using mem_session_List_ok by (simp add: mem_SessionStore_def)
qed

end
