(* ===== verification/Memory_Cache.thy ===== *)
theory Memory_Cache
  imports World
begin

text \<open>
  \<^verbatim>\<open>internal/adapters/cache/memory\<close>: the session cache (\<^verbatim>\<open>cache.go\<close>) and the store of reset
  codes and reset tokens (\<^verbatim>\<open>reset.go\<close>). Entries carry an expiry; an expired entry is deleted by
  the lookup that finds it. Each method runs under a mutex, so it is one step.
\<close>

section \<open>The session cache\<close>

definition mem_cache_Set :: "string \<Rightarrow> CachedSession \<Rightarrow> duration \<Rightarrow> ('r world, port_error option) state" where
  "mem_cache_Set tokenHash sess ttl = do {
     now \<leftarrow> time_Now;
     _ \<leftarrow> modify (\<lambda>w. w\<lparr>w_cache := AList.update tokenHash (sess, now + ttl) (w_cache w)\<rparr>);
     ret None
   }"

text \<open>
  \<^verbatim>\<open>if !ok || time.Now().After(e.expiresAt)\<close>: the clock is read only when the entry exists.
\<close>

definition expired :: "(string \<rightharpoonup> 'a \<times> time) \<Rightarrow> string \<Rightarrow> ('r world, bool) state" where
  "expired m k =
     (case m k of
        None \<Rightarrow> ret True
      | Some e \<Rightarrow> do { now \<leftarrow> time_Now; ret (After now (snd e)) })"

definition mem_cache_Get :: "string \<Rightarrow> ('r world, port_error + CachedSession) state" where
  "mem_cache_Get tokenHash = do {
     items \<leftarrow> gets w_cache;
     x \<leftarrow> expired (map_of items) tokenHash;
     if x then do {
       _ \<leftarrow> modify (\<lambda>w. w\<lparr>w_cache := AList.delete tokenHash (w_cache w)\<rparr>);
       ret (Inl (ErrOther (''cache miss: '' @ tokenHash)))
     } else ret (Inr (fst (the (map_of items tokenHash))))
   }"

definition mem_cache_Delete :: "string \<Rightarrow> ('r world, port_error option) state" where
  "mem_cache_Delete tokenHash = do {
     _ \<leftarrow> modify (\<lambda>w. w\<lparr>w_cache := AList.delete tokenHash (w_cache w)\<rparr>);
     ret None
   }"

definition mem_Cache :: "'r world SessionCache" where
  "mem_Cache = \<lparr>sc_Set = mem_cache_Set, sc_Get = mem_cache_Get, sc_Delete = mem_cache_Delete\<rparr>"

section \<open>The store of reset codes and tokens\<close>

abbreviation set_otps :: "(OTPRecord \<times> time) gomap \<Rightarrow> 'r world \<Rightarrow> 'r world" where
  "set_otps m w \<equiv> w\<lparr>w_resets := (w_resets w)\<lparr>rs_otps := m\<rparr>\<rparr>"

abbreviation set_tokens :: "(ResetTokenRecord \<times> time) gomap \<Rightarrow> 'r world \<Rightarrow> 'r world" where
  "set_tokens m w \<equiv> w\<lparr>w_resets := (w_resets w)\<lparr>rs_resetTokens := m\<rparr>\<rparr>"

definition mem_SaveOTP ::
  "crypto \<Rightarrow> string \<Rightarrow> string \<Rightarrow> string \<Rightarrow> duration \<Rightarrow> ('r world, port_error option) state" where
  "mem_SaveOTP C userID email otpHash ttl = do {
     now \<leftarrow> time_Now;
     _ \<leftarrow> modify (\<lambda>w. set_otps (AList.update (Hash C email)
       (\<lparr>o_UserID = userID, o_OTPHash = otpHash, o_Attempts = 0\<rparr>, now + ttl) (rs_otps (w_resets w))) w);
     ret None
   }"

definition mem_GetOTP :: "crypto \<Rightarrow> string \<Rightarrow> ('r world, port_error + OTPRecord) state" where
  "mem_GetOTP C email = do {
     otps \<leftarrow> gets (\<lambda>w. rs_otps (w_resets w));
     x \<leftarrow> expired (map_of otps) (Hash C email);
     if x then do {
       _ \<leftarrow> modify (\<lambda>w. set_otps (AList.delete (Hash C email) (rs_otps (w_resets w))) w);
       ret (Inl ErrResetCodeNotFound)
     } else ret (Inr (fst (the (map_of otps (Hash C email)))))
   }"

definition mem_IncrOTPAttempts :: "crypto \<Rightarrow> string \<Rightarrow> ('r world, port_error + int) state" where
  "mem_IncrOTPAttempts C email = do {
     let k = Hash C email;
     otps \<leftarrow> gets (\<lambda>w. rs_otps (w_resets w));
     x \<leftarrow> expired (map_of otps) k;
     if x then do {
       _ \<leftarrow> modify (\<lambda>w. set_otps (AList.delete k (rs_otps (w_resets w))) w);
       ret (Inl ErrResetCodeNotFound)
     } else do {
       let (record, expiresAt) = the (map_of otps k);
       let record' = record\<lparr>o_Attempts := o_Attempts record + 1\<rparr>;
       _ \<leftarrow> modify (\<lambda>w. set_otps (AList.update k (record', expiresAt) (rs_otps (w_resets w))) w);
       ret (Inr (o_Attempts record'))
     }
   }"

definition mem_DeleteOTP :: "crypto \<Rightarrow> string \<Rightarrow> ('r world, port_error option) state" where
  "mem_DeleteOTP C email = do {
     _ \<leftarrow> modify (\<lambda>w. set_otps (AList.delete (Hash C email) (rs_otps (w_resets w))) w);
     ret None
   }"

definition mem_SaveResetToken ::
  "string \<Rightarrow> string \<Rightarrow> string \<Rightarrow> duration \<Rightarrow> ('r world, port_error option) state" where
  "mem_SaveResetToken tokenHash userID email ttl = do {
     now \<leftarrow> time_Now;
     _ \<leftarrow> modify (\<lambda>w. set_tokens (AList.update tokenHash
       (\<lparr>t_UserID = userID, t_Email = email\<rparr>, now + ttl) (rs_resetTokens (w_resets w))) w);
     ret None
   }"

definition mem_GetResetToken :: "string \<Rightarrow> ('r world, port_error + ResetTokenRecord) state" where
  "mem_GetResetToken tokenHash = do {
     toks \<leftarrow> gets (\<lambda>w. rs_resetTokens (w_resets w));
     x \<leftarrow> expired (map_of toks) tokenHash;
     if x then do {
       _ \<leftarrow> modify (\<lambda>w. set_tokens (AList.delete tokenHash (rs_resetTokens (w_resets w))) w);
       ret (Inl ErrResetTokenNotFound)
     } else ret (Inr (fst (the (map_of toks tokenHash))))
   }"

definition mem_DeleteResetToken :: "string \<Rightarrow> ('r world, port_error option) state" where
  "mem_DeleteResetToken tokenHash = do {
     _ \<leftarrow> modify (\<lambda>w. set_tokens (AList.delete tokenHash (rs_resetTokens (w_resets w))) w);
     ret None
   }"

definition mem_ResetStore :: "crypto \<Rightarrow> 'r world PasswordResetStore" where
  "mem_ResetStore C = \<lparr>rs_SaveOTP = mem_SaveOTP C, rs_GetOTP = mem_GetOTP C,
     rs_IncrOTPAttempts = mem_IncrOTPAttempts C, rs_DeleteOTP = mem_DeleteOTP C,
     rs_SaveResetToken = mem_SaveResetToken, rs_GetResetToken = mem_GetResetToken,
     rs_DeleteResetToken = mem_DeleteResetToken\<rparr>"

section \<open>The contracts\<close>

lemma wp_expired:
  "wp (expired m k) Q w = (case m k of None \<Rightarrow> Q True w
     | Some (_, x) \<Rightarrow> let t = w_now w + int (w_ticks w (w_reads w))
         in Q (x < t) (w\<lparr>w_now := t, w_reads := Suc (w_reads w)\<rparr>))"
  by (auto simp: expired_def wp_simps Let_def After_def split: option.split)

lemma mem_inv_caches:
  "mem_inv C w \<Longrightarrow> w_users w' = w_users w \<Longrightarrow> w_sessions w' = w_sessions w \<Longrightarrow> w_uuids w' = w_uuids w \<Longrightarrow>
   w_uuid w' = w_uuid w \<Longrightarrow> w_rand w' = w_rand w \<Longrightarrow> w_order w' = w_order w \<Longrightarrow> mem_inv C w'"
  by (simp add: mem_inv_def supplies_ok_def used_ids_def)

lemmas cache_contract = wp_simps wp_expired Let_def mem_inv_caches expiry_def gomap_simps After_def
  gone_or_expired_def later_iff map_le_delete slack_def

interpretation mem: session_cache "mem_inv C" "mem_view C" "mem_Cache :: 'r world SessionCache" for C
proof (unfold_locales, goal_cases)
  case (1 w ttl h c)
  then show ?case
    by (auto simp: mem_Cache_def mem_cache_Set_def cache_contract cache_Set_spec_def
        intro!: exI[of _ "w_now w + int (w_ticks w (w_reads w)) + ttl"])
next
  case (2 w h)
  then show ?case
    by (auto simp: mem_Cache_def mem_cache_Get_def cache_contract cache_Get_spec_def split: option.split
        intro!: exI[of _ "(map_of (w_cache w))(h := None)"])
next
  case (3 w h)
  then show ?case
    by (auto simp: mem_Cache_def mem_cache_Delete_def cache_contract cache_Delete_spec_def)
qed

interpretation mem: reset_store C "mem_inv C" "mem_view C" "mem_ResetStore C :: 'r world PasswordResetStore" for C
proof (unfold_locales, goal_cases)
  case (1 w ttl uid email oh)
  then show ?case
    by (auto simp: mem_ResetStore_def mem_SaveOTP_def cache_contract otp_Save_spec_def
        intro!: exI[of _ "w_now w + int (w_ticks w (w_reads w)) + ttl"])
next
  case (2 w email)
  then show ?case
    by (auto simp: mem_ResetStore_def mem_GetOTP_def cache_contract otp_Get_spec_def split: option.split)
next
  case (3 w email)
  then show ?case
    by (auto simp: mem_ResetStore_def mem_IncrOTPAttempts_def cache_contract otp_Incr_spec_def split: option.split)
next
  case (4 w email)
  then show ?case
    by (auto simp: mem_ResetStore_def mem_DeleteOTP_def cache_contract otp_Delete_spec_def)
next
  case (5 w ttl h uid email)
  then show ?case
    by (auto simp: mem_ResetStore_def mem_SaveResetToken_def cache_contract reset_Save_spec_def
        intro!: exI[of _ "w_now w + int (w_ticks w (w_reads w)) + ttl"])
next
  case (6 w h)
  then show ?case
    by (auto simp: mem_ResetStore_def mem_GetResetToken_def cache_contract reset_Get_spec_def split: option.split)
next
  case (7 w h)
  then show ?case
    by (auto simp: mem_ResetStore_def mem_DeleteResetToken_def cache_contract reset_Delete_spec_def)
qed

end
