(* ===== verification/Redis.thy ===== *)
theory Redis
  imports World
begin

text \<open>
  Redis as the program uses it. The server and its client library are not part of the program:
  they are a record of commands over a state \<open>'r\<close> and of connection outcomes, and what the
  commands do is the locale \<open>redis_server\<close>, which states Redis's documented behaviour in terms of
  a key-value view of the server's state. A reference server shows that the laws can hold.
\<close>

section \<open>The Redis client\<close>

text \<open>
  A command runs at one instant. \<open>rd_send\<close> may fail before the server acts, \<open>rd_recv\<close> after it
  acted (a lost answer). A missing key is \<^const>\<open>None\<close>.
\<close>

record 'r redis =
  rd_send :: "time \<Rightarrow> 'r \<Rightarrow> string option"
  rd_recv :: "time \<Rightarrow> 'r \<Rightarrow> string option"
  rd_EXISTS :: "string \<Rightarrow> time \<Rightarrow> 'r \<Rightarrow> int \<times> 'r"
  rd_GET :: "string \<Rightarrow> time \<Rightarrow> 'r \<Rightarrow> string option \<times> 'r"
  rd_SET :: "string \<Rightarrow> string \<Rightarrow> duration \<Rightarrow> time \<Rightarrow> 'r \<Rightarrow> 'r"
  rd_DEL :: "string list \<Rightarrow> time \<Rightarrow> 'r \<Rightarrow> 'r"
  rd_INCR :: "string \<Rightarrow> time \<Rightarrow> 'r \<Rightarrow> (string + int) \<times> 'r"
  rd_PTTL :: "string \<Rightarrow> time \<Rightarrow> 'r \<Rightarrow> int \<times> 'r"
  rd_SET_PX :: "string \<Rightarrow> string \<Rightarrow> int \<Rightarrow> time \<Rightarrow> 'r \<Rightarrow> 'r"
  rd_EXPIRE :: "string \<Rightarrow> int \<Rightarrow> time \<Rightarrow> 'r \<Rightarrow> 'r"

definition redis_call :: "'r redis \<Rightarrow> (time \<Rightarrow> 'r \<Rightarrow> 'a \<times> 'r) \<Rightarrow> ('r world, string + 'a) state" where
  "redis_call rd f = do {
     t \<leftarrow> time_Now;
     r \<leftarrow> gets w_services;
     case rd_send rd t r of
        Some err \<Rightarrow> ret (Inl err)
      | None \<Rightarrow> do {
     let (a, r') = f t r;
     _ \<leftarrow> modify (\<lambda>w. w\<lparr>w_services := r'\<rparr>);
     ret (case rd_recv rd t r' of Some err \<Rightarrow> Inl err | None \<Rightarrow> Inr a)
   } }"

text \<open>The script \<^verbatim>\<open>luaIncrExpire\<close>; an error of a command aborts it.\<close>

definition luaIncrExpire :: "'r redis \<Rightarrow> string \<Rightarrow> int \<Rightarrow> time \<Rightarrow> 'r \<Rightarrow> (string + int) \<times> 'r" where
  "luaIncrExpire rd key ttlSecs t r =
     (case rd_INCR rd key t r of
        (Inl err, r1) \<Rightarrow> (Inl err, r1)
      | (Inr cnt, r1) \<Rightarrow>
          (Inr cnt, if cnt = 1 then rd_EXPIRE rd key ttlSecs t r1 else r1))"

definition redis_Eval ::
  "'r redis \<Rightarrow> (time \<Rightarrow> 'r \<Rightarrow> (string + int) \<times> 'r) \<Rightarrow> ('r world, string + int) state" where
  "redis_Eval rd script = do {
     x \<leftarrow> redis_call rd script;
     ret (case x of Inl err \<Rightarrow> Inl err | Inr y \<Rightarrow> y)
   }"

text \<open>\<^verbatim>\<open>Cmd.Int()\<close>: a decimal number with an optional sign, within 64 bits.\<close>

definition parse_int :: "string \<Rightarrow> int option" where
  "parse_int s =
     (let (neg, ds) = (case s of c # cs \<Rightarrow> if c = CHR ''-'' then (True, cs)
                          else if c = CHR ''+'' then (False, cs) else (False, s) | [] \<Rightarrow> (False, []));
          n = (if neg then - int (dec_val ds) else int (dec_val ds))
      in if ds \<noteq> [] \<and> list_all is_digit ds \<and> - (2 ^ 63) \<le> n \<and> n < 2 ^ 63 then Some n else None)"

section \<open>Time only moves forward\<close>

definition forward :: "('r world, 'a) state \<Rightarrow> bool" where
  "forward m \<longleftrightarrow> (\<forall>w. wp m (\<lambda>_ w'. w_now w \<le> w_now w') w)"

named_theorems forward_intros \<open>programs that do not set the clock back\<close>

lemma forward_ret [forward_intros]: "forward (ret x)"
  by (simp add: forward_def wp_simps)

lemma forward_bind [forward_intros]: "forward m \<Longrightarrow> (\<And>x. forward (f x)) \<Longrightarrow> forward (State_Monad.bind m f)"
  unfolding forward_def wp_bind by (blast intro: wp_mono order_trans)

lemma forward_if [forward_intros]: "forward m \<Longrightarrow> forward n \<Longrightarrow> forward (if b then m else n)"
  by simp

lemma forward_case_sum [forward_intros]:
  "(\<And>x. forward (f x)) \<Longrightarrow> (\<And>y. forward (g y)) \<Longrightarrow> forward (case s of Inl x \<Rightarrow> f x | Inr y \<Rightarrow> g y)"
  by (cases s) simp_all

lemma forward_case_option [forward_intros]:
  "forward m \<Longrightarrow> (\<And>y. forward (g y)) \<Longrightarrow> forward (case s of None \<Rightarrow> m | Some y \<Rightarrow> g y)"
  by (cases s) simp_all

lemma forward_case_prod [forward_intros]: "(\<And>x y. forward (f x y)) \<Longrightarrow> forward (case p of (x, y) \<Rightarrow> f x y)"
  by (cases p) simp

lemma forward_gets [forward_intros]: "forward (gets f)"
  by (simp add: forward_def wp_simps)

lemma forward_modify [forward_intros]: "(\<And>w. w_now (f w) = w_now w) \<Longrightarrow> forward (modify f)"
  by (simp add: forward_def wp_simps)

lemma forward_time_Now [forward_intros]: "forward time_Now"
  by (simp add: forward_def wp_simps Let_def)

lemma forward_redis_call [forward_intros]: "forward (redis_call rd f)"
  unfolding redis_call_def Let_def by (intro forward_intros allI) simp

lemma forward_redis_Eval [forward_intros]: "forward (redis_Eval rd f)"
  unfolding redis_Eval_def by (intro forward_intros)

text \<open>After a step, a program that takes time is at least as late.\<close>

lemma wp_forward: "forward m \<Longrightarrow> t \<le> w_now w \<Longrightarrow> (\<And>r w'. t \<le> w_now w' \<Longrightarrow> Q r w') \<Longrightarrow> wp m Q w"
  unfolding forward_def by (blast intro: wp_mono order_trans)

section \<open>The laws of the server\<close>

text \<open>
  Redis keeps expiries as absolute milliseconds; a key is gone as soon as the clock is past its
  expiry, and may be dropped at any later moment.
\<close>

type_synonym entry = "string \<times> int option"

definition ms :: "time \<Rightarrow> int" where
  "ms t = t div 1000000"

definition live :: "time \<Rightarrow> entry option \<Rightarrow> entry option" where
  "live t e = (case e of Some (v, Some x) \<Rightarrow> if ms t \<le> x then e else None | _ \<Rightarrow> e)"

definition purged :: "time \<Rightarrow> (string \<rightharpoonup> entry) \<Rightarrow> (string \<rightharpoonup> entry) \<Rightarrow> bool" where
  "purged t m m' \<longleftrightarrow> (\<forall>k. m' k = m k \<or> live t (m k) = None \<and> m' k = None)"

lemma ms_mono: "t \<le> u \<Longrightarrow> ms t \<le> ms u"
  by (simp add: ms_def zdiv_mono1)

lemma live_None [simp]: "live t None = None"
  by (simp add: live_def)

lemma live_mono: "live u e \<noteq> None \<Longrightarrow> t \<le> u \<Longrightarrow> live t e = e"
  using ms_mono[of t u] by (auto simp: live_def split: option.splits if_splits prod.splits)

lemma live_gone: "live t e = None \<Longrightarrow> t \<le> u \<Longrightarrow> live u e = None"
  using live_mono[of u e t] live_None by (metis)

lemma live_Some: "live t e = Some y \<Longrightarrow> e = Some y"
  by (auto simp: live_def split: option.splits if_splits prod.splits)

lemma purged_live: "purged t m m' \<Longrightarrow> t \<le> u \<Longrightarrow> live u (m' k) = live u (m k)"
  unfolding purged_def using live_mono[of u "m k" t] live_Some by (metis live_None option.exhaust)

lemma purged_refl [simp]: "purged t m m"
  by (simp add: purged_def)

text \<open>Outside the given keys only expired ones may have gone.\<close>

definition others :: "time \<Rightarrow> string set \<Rightarrow> (string \<rightharpoonup> entry) \<Rightarrow> (string \<rightharpoonup> entry) \<Rightarrow> bool" where
  "others t K m m' \<longleftrightarrow> (\<forall>k. k \<notin> K \<longrightarrow> m' k = m k \<or> live t (m k) = None \<and> m' k = None)"

lemma purged_others: "purged t m m' \<Longrightarrow> others t K m m'"
  by (simp add: purged_def others_def)

lemma others_trans: "others t K a b \<Longrightarrow> others t K b c \<Longrightarrow> others t K a c"
  unfolding others_def by (metis live_None)

lemma others_split: "others t K m m' \<Longrightarrow> purged t (\<lambda>k. if k \<in> K then m' k else m k) m'"
  by (simp add: purged_def others_def)

text \<open>The client's \<^verbatim>\<open>Set\<close> sends a positive time to live in whole milliseconds, at least one.\<close>

definition px :: "duration \<Rightarrow> int" where
  "px ttl = max 1 (ttl div 1000000)"

locale redis_server =
  fixes rd :: "'r redis"
    and kv :: "'r \<Rightarrow> string \<rightharpoonup> entry"
  assumes EXISTS: "fst (rd_EXISTS rd k t r) = (if live t (kv r k) = None then 0 else 1)
      \<and> purged t (kv r) (kv (snd (rd_EXISTS rd k t r)))"
    and GET: "fst (rd_GET rd k t r) = map_option fst (live t (kv r k))
      \<and> purged t (kv r) (kv (snd (rd_GET rd k t r)))"
    and SET: "0 < ttl \<Longrightarrow> purged t ((kv r)(k \<mapsto> (v, Some (ms t + px ttl)))) (kv (rd_SET rd k v ttl t r))"
    and DEL: "purged t (kv r |` (- set ks)) (kv (rd_DEL rd ks t r))"
    and INCR_new: "live t (kv r k) = None \<Longrightarrow> fst (rd_INCR rd k t r) = Inr 1
      \<and> purged t ((kv r)(k \<mapsto> (''1'', None))) (kv (snd (rd_INCR rd k t r)))"
    and INCR: "live t (kv r k) = Some (itoa n, x) \<Longrightarrow> int n + 1 < 2 ^ 63 \<Longrightarrow>
      fst (rd_INCR rd k t r) = Inr (int n + 1)
      \<and> purged t ((kv r)(k \<mapsto> (itoa (n + 1), x))) (kv (snd (rd_INCR rd k t r)))"
    and EXPIRE: "0 < secs \<Longrightarrow> live t (kv r k) = Some (v, x) \<Longrightarrow>
      purged t ((kv r)(k \<mapsto> (v, Some (ms t + 1000 * secs)))) (kv (rd_EXPIRE rd k secs t r))"
    and PTTL: "live t (kv r k) = Some (v, Some y) \<Longrightarrow> fst (rd_PTTL rd k t r) = y - ms t
      \<and> purged t (kv r) (kv (snd (rd_PTTL rd k t r)))"
    and SET_PX: "0 < p \<Longrightarrow> purged t ((kv r)(k \<mapsto> (v, Some (ms t + p)))) (kv (rd_SET_PX rd k v p t r))"
    and SET_others: "others t {k} (kv r) (kv (rd_SET rd k v ttl t r))"
    and INCR_others: "others t {k} (kv r) (kv (snd (rd_INCR rd k t r)))"
    and EXPIRE_others: "others t {k} (kv r) (kv (rd_EXPIRE rd k secs t r))"

text \<open>Every command is sent and answered.\<close>

definition reachable :: "'r redis \<Rightarrow> bool" where
  "reachable rd \<longleftrightarrow> (\<forall>t r. rd_send rd t r = None \<and> rd_recv rd t r = None)"

lemma wp_redis_call_reachable:
  assumes "reachable rd"
  shows "wp (redis_call rd f) Q w = (let t = w_now w + int (w_ticks w (w_reads w)) in
    Q (Inr (fst (f t (w_services w)))) (w\<lparr>w_now := t, w_reads := Suc (w_reads w), w_services := snd (f t (w_services w))\<rparr>))"
  using assms by (simp add: redis_call_def reachable_def wp_simps Let_def split: prod.split)

section \<open>Counting with the script\<close>

text \<open>
  A counter at \<open>n\<close> that cannot expire before millisecond \<open>B\<close>: absent for zero, and then any
  counter created from now on lives until \<open>B\<close>.
\<close>

definition counter :: "(string \<rightharpoonup> entry) \<Rightarrow> string \<Rightarrow> int \<Rightarrow> nat \<Rightarrow> int \<Rightarrow> time \<Rightarrow> bool" where
  "counter m k secs n B t \<longleftrightarrow>
     (if n = 0 then live t (m k) = None \<and> B \<le> ms t + 1000 * secs
      else \<exists>E \<ge> B. m k = Some (itoa n, Some E))"

lemma purged_upd:
  assumes "purged t a b" "purged t (b(k \<mapsto> e)) c"
  shows "purged t (a(k \<mapsto> e)) c"
  unfolding purged_def
proof
  fix j
  show "c j = (a(k \<mapsto> e)) j \<or> live t ((a(k \<mapsto> e)) j) = None \<and> c j = None"
    using assms[unfolded purged_def, rule_format, of j] by (cases "j = k") auto
qed

lemma purged_Some: "purged t m m' \<Longrightarrow> live t (m k) = Some e \<Longrightarrow> m' k = Some e"
  unfolding purged_def by (metis live_Some option.distinct(1))

lemma purged_None: "purged t m m' \<Longrightarrow> m k = None \<Longrightarrow> m' k = None"
  unfolding purged_def by metis

context redis_server
begin

lemma luaIncrExpire_new:
  assumes "live t (kv r k) = None" "0 < secs"
  shows "fst (luaIncrExpire rd k secs t r) = Inr 1
    \<and> purged t ((kv r)(k \<mapsto> (''1'', Some (ms t + 1000 * secs)))) (kv (snd (luaIncrExpire rd k secs t r)))"
proof -
  obtain x r1 where r1: "rd_INCR rd k t r = (x, r1)" by (cases "rd_INCR rd k t r")
  with INCR_new[OF assms(1)] have x: "x = Inr 1" and p: "purged t ((kv r)(k \<mapsto> (''1'', None))) (kv r1)" by auto
  have "kv r1 k = Some (''1'', None)" by (rule purged_Some[OF p]) (simp add: live_def)
  then have "live t (kv r1 k) = Some (''1'', None)" by (simp add: live_def)
  from purged_upd[OF p EXPIRE[OF assms(2) this]] show ?thesis by (simp add: luaIncrExpire_def r1 x)
qed

lemma luaIncrExpire_next:
  assumes "live t (kv r k) = Some (itoa n, x)" "0 < n" "int n + 1 < 2 ^ 63"
  shows "fst (luaIncrExpire rd k secs t r) = Inr (int n + 1)
    \<and> purged t ((kv r)(k \<mapsto> (itoa (n + 1), x))) (kv (snd (luaIncrExpire rd k secs t r)))"
  using INCR[OF assms(1,3)] assms(2) by (auto simp: luaIncrExpire_def split: prod.splits)

lemma luaIncrExpire_counts:
  assumes "counter (kv r) k secs n B s" "s \<le> t" "ms t \<le> B" "0 < secs" "int n + 1 < 2 ^ 63"
  shows "fst (luaIncrExpire rd k secs t r) = Inr (int n + 1)
    \<and> counter (kv (snd (luaIncrExpire rd k secs t r))) k secs (n + 1) B t"
proof (cases "n = 0")
  case True
  with assms(1,2) have none: "live t (kv r k) = None" and B: "B \<le> ms t + 1000 * secs"
    using live_gone[of s "kv r k" t] ms_mono[of s t] by (auto simp: counter_def)
  from luaIncrExpire_new[OF none assms(4)] have f: "fst (luaIncrExpire rd k secs t r) = Inr 1"
    and p: "purged t ((kv r)(k \<mapsto> (''1'', Some (ms t + 1000 * secs)))) (kv (snd (luaIncrExpire rd k secs t r)))" by auto
  have "kv (snd (luaIncrExpire rd k secs t r)) k = Some (''1'', Some (ms t + 1000 * secs))"
    by (rule purged_Some[OF p]) (use assms(4) in \<open>simp add: live_def\<close>)
  moreover have "itoa 1 = ''1''" by (simp add: itoa.simps digit_def char_of_eq_nat)
  ultimately show ?thesis using True f B by (simp add: counter_def)
next
  case False
  with assms(1) obtain E where E: "B \<le> E" "kv r k = Some (itoa n, Some E)" by (auto simp: counter_def)
  then have l: "live t (kv r k) = Some (itoa n, Some E)" using assms(3) by (simp add: live_def)
  from luaIncrExpire_next[OF l _ assms(5), of secs] False have f: "fst (luaIncrExpire rd k secs t r) = Inr (int n + 1)"
    and p: "purged t ((kv r)(k \<mapsto> (itoa (n + 1), Some E))) (kv (snd (luaIncrExpire rd k secs t r)))" by auto
  have "kv (snd (luaIncrExpire rd k secs t r)) k = Some (itoa (n + 1), Some E)"
    by (rule purged_Some[OF p]) (use E assms(3) in \<open>simp add: live_def\<close>)
  with f E False show ?thesis by (simp add: counter_def)
qed

lemma wp_Eval_counts:
  assumes "reachable rd" "counter (kv (w_services w)) k secs n B (w_now w)" "0 < secs" "int n + 1 < 2 ^ 63"
  shows "wp (redis_Eval rd (luaIncrExpire rd k secs)) (\<lambda>x w'. w_now w \<le> w_now w' \<and>
    (ms (w_now w') \<le> B \<longrightarrow> x = Inr (int n + 1) \<and> counter (kv (w_services w')) k secs (n + 1) B (w_now w'))) w"
  unfolding redis_Eval_def wp_simps wp_redis_call_reachable[OF assms(1)] Let_def
  using luaIncrExpire_counts[OF assms(2) _ _ assms(3,4)] by auto

end

section \<open>A reference server\<close>

type_synonym redis_db = "string \<rightharpoonup> entry"

definition purge :: "time \<Rightarrow> redis_db \<Rightarrow> redis_db" where
  "purge t m k = live t (m k)"

definition ref_INCR :: "string \<Rightarrow> time \<Rightarrow> redis_db \<Rightarrow> (string + int) \<times> redis_db" where
  "ref_INCR k t m = (case live t (m k) of
      None \<Rightarrow> (Inr 1, (purge t m)(k \<mapsto> (''1'', None)))
    | Some (v, x) \<Rightarrow>
        (case parse_int v of
           None \<Rightarrow> (Inl ''ERR value is not an integer or out of range'', purge t m)
         | Some n \<Rightarrow>
             if n + 1 < 2 ^ 63 then (Inr (n + 1), (purge t m)(k \<mapsto> (itoa_int (n + 1), x)))
             else (Inl ''ERR increment or decrement would overflow'', purge t m)))"

definition ref_EXPIRE :: "string \<Rightarrow> int \<Rightarrow> time \<Rightarrow> redis_db \<Rightarrow> redis_db" where
  "ref_EXPIRE k secs t m = (case live t (m k) of
      None \<Rightarrow> purge t m
    | Some (v, x) \<Rightarrow> if 0 < secs then (purge t m)(k \<mapsto> (v, Some (ms t + 1000 * secs))) else (purge t m)(k := None))"

definition ref_PTTL :: "string \<Rightarrow> time \<Rightarrow> redis_db \<Rightarrow> int \<times> redis_db" where
  "ref_PTTL k t m = (case live t (m k) of
      None \<Rightarrow> (-2, purge t m)
    | Some (v, None) \<Rightarrow> (-1, purge t m)
    | Some (v, Some x) \<Rightarrow> (x - ms t, purge t m))"

definition ref_redis :: "redis_db redis" where
  "ref_redis = \<lparr>rd_send = (\<lambda>_ _. None), rd_recv = (\<lambda>_ _. None),
     rd_EXISTS = (\<lambda>k t m. (if live t (m k) = None then 0 else 1, purge t m)),
     rd_GET = (\<lambda>k t m. (map_option fst (live t (m k)), purge t m)),
     rd_SET = (\<lambda>k v ttl t m. (purge t m)(k \<mapsto> (v, if 0 < ttl then Some (ms t + px ttl) else None))),
     rd_DEL = (\<lambda>ks t m. purge t m |` (- set ks)),
     rd_INCR = ref_INCR, rd_PTTL = ref_PTTL,
     rd_SET_PX = (\<lambda>k v p t m. (purge t m)(k \<mapsto> (v, Some (ms t + p)))),
     rd_EXPIRE = ref_EXPIRE\<rparr>"

lemma purged_purge [simp]: "purged t m (purge t m)"
  unfolding purged_def purge_def using live_Some by (metis option.exhaust)

lemma purged_purge_upd: "purged t (m(k \<mapsto> e)) ((purge t m)(k \<mapsto> e))"
  using purged_purge[of t m] by (auto simp: purged_def)

lemma others_purge: "others t K m (purge t m)"
  by (rule purged_others) simp

lemma others_purge_upd: "k \<in> K \<Longrightarrow> others t K m ((purge t m)(k := e))"
  using others_purge[of t K m] by (auto simp: others_def)

lemma parse_int_itoa: "int n < 2 ^ 63 \<Longrightarrow> parse_int (itoa n) = Some (int n)"
proof -
  assume n: "int n < 2 ^ 63"
  have d: "list_all is_digit (itoa n)" by (rule itoa_digits)
  obtain c cs where i: "itoa n = c # cs" by (cases "itoa n") simp_all
  with d have "c \<noteq> CHR ''-''" "c \<noteq> CHR ''+''" by (auto simp: is_digit_def)
  then show ?thesis using n d i dec_val_itoa[of n] by (simp add: parse_int_def)
qed

lemma itoa_int_Suc: "itoa_int (int n + 1) = itoa (Suc n)"
  by (simp add: itoa_int_def nat_add_distrib)

interpretation ref: redis_server ref_redis "\<lambda>m. m"
proof (unfold_locales, goal_cases)
  case (4 t r ks)
  then show ?case by (auto simp: ref_redis_def purged_def restrict_map_def purge_def dest: live_Some)
      (metis live_Some option.exhaust)
next
  case (6 t r k n x)
  then have "parse_int (itoa n) = Some (int n)" by (intro parse_int_itoa) simp
  with 6 show ?case by (simp add: ref_redis_def ref_INCR_def purged_purge_upd itoa_int_Suc)
qed (auto simp: ref_redis_def ref_INCR_def ref_EXPIRE_def ref_PTTL_def purged_purge_upd others_purge others_purge_upd
    split: option.split)

lemma reachable_ref [simp]: "reachable ref_redis"
  by (simp add: reachable_def ref_redis_def)

text \<open>A world with nothing in it but a reference Redis, and a clock that ticks every nanosecond.\<close>

definition empty_world :: "redis_db world" where
  "empty_world = \<lparr>w_now = 0, w_ticks = (\<lambda>_. 1), w_reads = 0, w_rand = [], w_uuid = itoa, w_uuids = 0, w_order = (\<lambda>m. m),
     w_tasks = [], w_users = \<lparr>us_heap = [], us_byID = [], us_byEmail = []\<rparr>,
     w_sessions = \<lparr>ss_heap = [], ss_byID = [], ss_byHash = []\<rparr>, w_cache = [],
     w_resets = \<lparr>rs_otps = [], rs_resetTokens = []\<rparr>, w_local = [], w_services = Map.empty\<rparr>"

end
