(* ===== verification/Bruteforce.thy ===== *)
theory Bruteforce
  imports Redis
begin

text \<open>
  \<^verbatim>\<open>internal/lib/bruteforce/bruteforce.go\<close>: the login guard. It counts failures in Redis and
  falls back to a map in the process when Redis fails.
\<close>

section \<open>The fallback entry\<close>

definition isLocked :: "localEntry \<Rightarrow> time \<Rightarrow> bool" where
  "isLocked e now = Before now (e_lockedUntil e)"

definition recordFailure :: "localEntry \<Rightarrow> time \<Rightarrow> int \<Rightarrow> duration \<Rightarrow> duration \<Rightarrow> bool \<times> localEntry" where
  "recordFailure e now maxAttempts window lockoutTTL =
     (let e1 = (if After now (e_windowEnd e) then e\<lparr>e_count := 0, e_windowEnd := now + window\<rparr> else e);
          e2 = e1\<lparr>e_count := e_count e1 + 1\<rparr>
      in if maxAttempts \<le> e_count e2
         then (True, e2\<lparr>e_lockedUntil := now + lockoutTTL, e_count := 0\<rparr>)
         else (False, e2))"

section \<open>The guard\<close>

record 'r Guard =
  g_redis :: "'r redis"
  g_maxAttempts :: int
  g_window :: duration
  g_lockoutTTL :: duration

definition NewGuard :: "'r redis \<Rightarrow> int \<Rightarrow> duration \<Rightarrow> duration \<Rightarrow> 'r Guard" where
  "NewGuard redisClient maxAttempts window lockoutTTL =
     \<lparr>g_redis = redisClient, g_maxAttempts = maxAttempts, g_window = window, g_lockoutTTL = lockoutTTL\<rparr>"

definition attemptsKeyPrefix :: string where "attemptsKeyPrefix = ''bf:attempts:''"
definition lockedKeyPrefix :: string where "lockedKeyPrefix = ''bf:locked:''"

text \<open>\<^verbatim>\<open>int64(d.Seconds())\<close> truncates towards zero.\<close>

definition int64_Seconds :: "duration \<Rightarrow> int" where
  "int64_Seconds d = sgn d * (\<bar>d\<bar> div second)"

definition getLocalEntry :: "string \<Rightarrow> ('r world, localEntry) state" where
  "getLocalEntry email = do {
     m \<leftarrow> gets w_local;
     case map_of m email of
        Some e \<Rightarrow> ret e
      | None \<Rightarrow> do {
          let e = \<lparr>e_count = 0, e_windowEnd = time_zero, e_lockedUntil = time_zero\<rparr>;
          _ \<leftarrow> modify (\<lambda>w. w\<lparr>w_local := AList.update email e (w_local w)\<rparr>);
          ret e
        }
   }"

definition IsLocked :: "'r Guard \<Rightarrow> string \<Rightarrow> ('r world, port_error + bool) state" where
  "IsLocked g email = do {
     x \<leftarrow> redis_call (g_redis g) (rd_EXISTS (g_redis g) (lockedKeyPrefix @ email));
     case x of
        Inl err \<Rightarrow> do {
          e \<leftarrow> getLocalEntry email;
          now \<leftarrow> time_Now;
          ret (Inr (isLocked e now))
        }
      | Inr n \<Rightarrow> ret (Inr (0 < n))
   }"

definition RecordFailure :: "'r Guard \<Rightarrow> string \<Rightarrow> ('r world, port_error + bool) state" where
  "RecordFailure g email = do {
     let attemptsKey = attemptsKeyPrefix @ email;
     x \<leftarrow> redis_Eval (g_redis g) (luaIncrExpire (g_redis g) attemptsKey (int64_Seconds (g_window g)));
     case x of
        Inl err \<Rightarrow> do {
          e \<leftarrow> getLocalEntry email;
          now \<leftarrow> time_Now;
          let (wasLocked, e') = recordFailure e now (g_maxAttempts g) (g_window g) (g_lockoutTTL g);
          _ \<leftarrow> modify (\<lambda>w. w\<lparr>w_local := AList.update email e' (w_local w)\<rparr>);
          ret (Inr wasLocked)
        }
      | Inr cnt \<Rightarrow>
          if g_maxAttempts g \<le> cnt then do {
            y \<leftarrow> redis_call (g_redis g)
              (\<lambda>t r. ((), rd_SET (g_redis g) (lockedKeyPrefix @ email) ''1'' (g_lockoutTTL g) t r));
            case y of
               Inl err \<Rightarrow> ret (Inl (ErrOther (''bruteforce lock: '' @ err)))
             | Inr _ \<Rightarrow> do {
                 _ \<leftarrow> redis_call (g_redis g) (\<lambda>t r. ((), rd_DEL (g_redis g) [attemptsKey] t r));
                 ret (Inr True)
               }
          } else ret (Inr False)
   }"

definition Reset :: "'r Guard \<Rightarrow> string \<Rightarrow> ('r world, unit) state" where
  "Reset g email = do {
     _ \<leftarrow> redis_call (g_redis g)
       (\<lambda>t r. ((), rd_DEL (g_redis g) [attemptsKeyPrefix @ email, lockedKeyPrefix @ email] t r));
     modify (\<lambda>w. w\<lparr>w_local := AList.delete email (w_local w)\<rparr>)
   }"

definition AttemptsRemaining :: "'r Guard \<Rightarrow> string \<Rightarrow> ('r world, port_error + int) state" where
  "AttemptsRemaining g email = do {
     l \<leftarrow> IsLocked g email;
     case l of
        Inl err \<Rightarrow> ret (Inl err)
      | Inr locked \<Rightarrow>
          if locked then ret (Inr 0)
          else do {
            x \<leftarrow> redis_call (g_redis g) (rd_GET (g_redis g) (attemptsKeyPrefix @ email));
            case x of
               Inr None \<Rightarrow> ret (Inr (g_maxAttempts g))
             | Inr (Some v) \<Rightarrow>
                 (case parse_int v of
                    Some cnt \<Rightarrow> ret (Inr (max (g_maxAttempts g - cnt) 0))
                  | None \<Rightarrow> do {
                      e \<leftarrow> getLocalEntry email;
                      ret (Inr (max (g_maxAttempts g - e_count e) 0))
                    })
             | Inl err \<Rightarrow> do {
                 e \<leftarrow> getLocalEntry email;
                 ret (Inr (max (g_maxAttempts g - e_count e) 0))
               }
          }
   }"

definition guard_methods :: "'r Guard \<Rightarrow> 'r world GuardMethods" where
  "guard_methods g = \<lparr>bg_IsLocked = IsLocked g, bg_RecordFailure = RecordFailure g, bg_Reset = Reset g\<rparr>"

section \<open>The guard touches no store\<close>

text \<open>Steps that only take time, change the fallback map or the Redis state.\<close>

definition aside :: "crypto \<Rightarrow> 'r world \<Rightarrow> 'r world \<Rightarrow> bool" where
  "aside C w w' \<longleftrightarrow> mem_inv C w' \<and> later (mem_view C w) (mem_view C w')"

lemma aside_tick: "aside C w0 w \<Longrightarrow> aside C w0 (w\<lparr>w_now := w_now w + int n, w_reads := k\<rparr>)"
  by (auto simp: aside_def mem_inv_def later_iff)

lemma wp_time_Now_aside:
  assumes "aside C w0 w" "\<And>t w'. aside C w0 w' \<Longrightarrow> Q t w'"
  shows "wp time_Now Q w"
  unfolding wp_simps Let_def
  by (rule assms(2)[OF aside_tick[OF assms(1)]])

lemma aside_redis: "aside C w0 (w\<lparr>w_services := r\<rparr>) = aside C w0 w"
  by (simp add: aside_def mem_inv_def supplies_ok_def used_ids_def later_iff)

lemma aside_local: "aside C w0 (w\<lparr>w_local := m\<rparr>) = aside C w0 w"
  by (simp add: aside_def mem_inv_def supplies_ok_def used_ids_def later_iff)

lemma wp_redis_call_aside:
  assumes "aside C w0 w" "\<And>x w'. aside C w0 w' \<Longrightarrow> Q x w'"
  shows "wp (redis_call rd f) Q w"
  unfolding redis_call_def Let_def wp_bind
  by (rule wp_time_Now_aside[OF assms(1)])
    (auto simp: wp_simps aside_redis split: option.split prod.split intro!: assms(2))

text \<open>
  What the guard does to the world is the commands it sends, its own map and time. A property of
  the world that these keep is kept by its methods.
\<close>

locale guard_world =
  fixes g :: "'r Guard"
    and P :: "'r world \<Rightarrow> bool"
  assumes P_tick: "P w \<Longrightarrow> wp time_Now (\<lambda>_. P) w"
    and P_local: "P w \<Longrightarrow> P (w\<lparr>w_local := m\<rparr>)"
    and P_exists: "P w \<Longrightarrow> wp (redis_call (g_redis g) (rd_EXISTS (g_redis g) (lockedKeyPrefix @ e))) (\<lambda>_. P) w"
    and P_count: "P w \<Longrightarrow> wp (redis_call (g_redis g) (luaIncrExpire (g_redis g) (attemptsKeyPrefix @ e) secs)) (\<lambda>_. P) w"
    and P_lock: "P w \<Longrightarrow> wp (redis_call (g_redis g) (\<lambda>t r. ((), rd_SET (g_redis g) (lockedKeyPrefix @ e) v ttl t r))) (\<lambda>_. P) w"
    and P_del: "P w \<Longrightarrow> set ks \<subseteq> {attemptsKeyPrefix @ e, lockedKeyPrefix @ e} \<Longrightarrow>
      wp (redis_call (g_redis g) (\<lambda>t r. ((), rd_DEL (g_redis g) ks t r))) (\<lambda>_. P) w"
begin

lemma P_entry: "P w \<Longrightarrow> wp (getLocalEntry e) (\<lambda>_. P) w"
  unfolding getLocalEntry_def Let_def by (auto simp: wp_simps P_local split: option.split)

lemma IsLocked_keeps: "P w \<Longrightarrow> wp (IsLocked g e) (\<lambda>_. P) w"
  unfolding IsLocked_def wp_bind
  by (rule wp_mono[OF P_exists])
    (auto simp: wp_bind wp_return split: sum.split intro!: wp_mono[OF P_entry] wp_mono[OF P_tick])

lemma RecordFailure_keeps: "P w \<Longrightarrow> wp (RecordFailure g e) (\<lambda>_. P) w"
  unfolding RecordFailure_def redis_Eval_def Let_def wp_bind
  by (rule wp_mono[OF P_count])
    (auto simp: wp_bind wp_return wp_modify P_local split: sum.split prod.split
      intro!: wp_mono[OF P_entry] wp_mono[OF P_tick] wp_mono[OF P_lock] wp_mono[OF P_del[where e = e]])

lemma Reset_keeps: "P w \<Longrightarrow> wp (Reset g e) (\<lambda>_. P) w"
  unfolding Reset_def wp_bind
  by (rule wp_mono[OF P_del[where e = e]]) (auto simp: wp_modify P_local)

end

interpretation mem: guard_world g "aside C w0" for g :: "'r Guard" and C w0
  by unfold_locales (auto simp: aside_local intro: wp_time_Now_aside wp_redis_call_aside)

interpretation mem: login_guard "mem_inv C" "mem_view C" "Some (guard_methods g)" for C :: crypto and g :: "'r Guard"
proof (unfold_locales, goal_cases)
  case (1 w g' e)
  then have "aside C w w" by (simp add: aside_def)
  from mem.IsLocked_keeps[OF this, of g e] 1 show ?case by (auto simp: guard_methods_def aside_def[abs_def])
next
  case (2 w g' e)
  then have "aside C w w" by (simp add: aside_def)
  from mem.RecordFailure_keeps[OF this, of g e] 2 show ?case by (auto simp: guard_methods_def aside_def[abs_def])
next
  case (3 w g' e)
  then have "aside C w w" by (simp add: aside_def)
  from mem.Reset_keeps[OF this, of g e] 3 show ?case by (auto simp: guard_methods_def aside_def[abs_def])
qed

section \<open>The fallback locks an account\<close>

text \<open>A run of failures at given times: what each call returns, and the entry at the end.\<close>

fun failures :: "localEntry \<Rightarrow> time list \<Rightarrow> int \<Rightarrow> duration \<Rightarrow> duration \<Rightarrow> bool list \<times> localEntry" where
  "failures e [] maxAttempts window lockoutTTL = ([], e)"
| "failures e (t # ts) maxAttempts window lockoutTTL =
     (case recordFailure e t maxAttempts window lockoutTTL of (b, e') \<Rightarrow>
      case failures e' ts maxAttempts window lockoutTTL of (bs, e'') \<Rightarrow> (b # bs, e''))"

lemma failures_below:
  assumes "\<forall>t \<in> set ts. t \<le> e_windowEnd e" "e_count e + int (length ts) < maxAttempts"
  shows "failures e ts maxAttempts window lockoutTTL =
    (replicate (length ts) False, e\<lparr>e_count := e_count e + int (length ts)\<rparr>)"
  using assms
proof (induction ts arbitrary: e)
  case (Cons t ts)
  then show ?case by (simp add: recordFailure_def After_def Let_def algebra_simps)
qed simp

lemma failures_append:
  "failures e (ts @ us) m win l = (case failures e ts m win l of (bs, e') \<Rightarrow>
     case failures e' us m win l of (cs, e'') \<Rightarrow> (bs @ cs, e''))"
  by (induction ts arbitrary: e) (simp_all split: prod.splits)

lemma failures_window:
  assumes "e_windowEnd e < t" "\<forall>u \<in> set ts. u \<le> t + window" "1 + int (length ts) < maxAttempts"
  shows "failures e (t # ts) maxAttempts window lockoutTTL =
    (replicate (Suc (length ts)) False,
     e\<lparr>e_count := 1 + int (length ts), e_windowEnd := t + window\<rparr>)"
proof -
  have "recordFailure e t maxAttempts window lockoutTTL = (False, e\<lparr>e_count := 1, e_windowEnd := t + window\<rparr>)"
    using assms(1,3) by (simp add: recordFailure_def After_def Let_def)
  moreover have "failures (e\<lparr>e_count := 1, e_windowEnd := t + window\<rparr>) ts maxAttempts window lockoutTTL =
      (replicate (length ts) False, e\<lparr>e_count := 1, e_windowEnd := t + window, e_count := 1 + int (length ts)\<rparr>)"
    using failures_below[of ts "e\<lparr>e_count := 1, e_windowEnd := t + window\<rparr>" maxAttempts window lockoutTTL] assms(2,3)
    by simp
  ultimately show ?thesis by (cases e) simp
qed



text \<open>
  With Redis unreachable a failed login is recorded on the process's own entry for
  the address: \<^verbatim>\<open>RecordFailure\<close> answers what the entry says and stores its new state, creating
  a zero entry when there was none.
\<close>

theorem RecordFailure_falls_back:
  assumes "\<And>t r. rd_send (g_redis g) t r \<noteq> None"
  shows "wp (RecordFailure g email) (\<lambda>r w'.
    let e = (case map_of (w_local w) email of Some e \<Rightarrow> e
             | None \<Rightarrow> \<lparr>e_count = 0, e_windowEnd = time_zero, e_lockedUntil = time_zero\<rparr>);
        x = recordFailure e (w_now w') (g_maxAttempts g) (g_window g) (g_lockoutTTL g)
    in r = Inr (fst x) \<and> map_of (w_local w') = (map_of (w_local w))(email \<mapsto> snd x) \<and> w_services w' = w_services w) w"
proof -
  have "\<exists>err. rd_send (g_redis g) t r = Some err" for t r using assms[of t r] by blast
  then obtain err where "rd_send (g_redis g) t r = Some (err t r)" for t r by metis
  then show ?thesis
    by (simp add: RecordFailure_def redis_Eval_def redis_call_def getLocalEntry_def wp_simps Let_def gomap_simps
        split: option.split prod.split)
qed

theorem RecordFailure_falls_back_witness:
  "wp (RecordFailure (NewGuard \<lparr>rd_send = (\<lambda>_ _. Some ''down''), rd_recv = (\<lambda>_ _. None), rd_EXISTS = (\<lambda>_ _ r. (0, r)),
        rd_GET = (\<lambda>_ _ r. (None, r)), rd_SET = (\<lambda>_ _ _ _ r. r), rd_DEL = (\<lambda>_ _ r. r),
        rd_INCR = (\<lambda>_ _ r. (Inr 1, r)),
        rd_PTTL = (\<lambda>_ _ r. (0, r)), rd_SET_PX = (\<lambda>_ _ _ _ r. r), rd_EXPIRE = (\<lambda>_ _ _ r. r)\<rparr> 1 minute minute) ''a@b.co'')
     (\<lambda>r w'. r = Inr True) (world.make 0 (\<lambda>_. 1) 0 [] (\<lambda>n. ''x'') 0 (\<lambda>m. m) []
       \<lparr>us_heap = [], us_byID = [], us_byEmail = []\<rparr> \<lparr>ss_heap = [], ss_byID = [], ss_byHash = []\<rparr>
       [] \<lparr>rs_otps = [], rs_resetTokens = []\<rparr> [] ())"
  by (rule wp_mono[OF RecordFailure_falls_back])
    (auto simp: NewGuard_def world.defs recordFailure_def Let_def After_def time_zero_def split: if_splits)

end
