(* ===== verification/JWT.thy ===== *)
theory JWT
  imports World
begin

text \<open>
  \<^verbatim>\<open>internal/adapters/token/jwt/jwt.go\<close>: the three access-token managers. The JWT library is a
  parameter: a record of its two functions the code calls.
\<close>

section \<open>The library\<close>

text \<open>
  The dynamic type of \<^verbatim>\<open>t.Method\<close> with the algorithm's name; the key material of the managers, a
  private key and its public half sharing one name.
\<close>

datatype SigningMethod =
    SigningMethodHMAC string
  | SigningMethodRSA string
  | SigningMethodECDSA string
  | SigningMethodOther string

datatype jwt_key =
    HMACKey string
  | RSAPrivateKey string
  | RSAPublicKey string
  | ECDSAPrivateKey string
  | ECDSAPublicKey string

text \<open>Numeric dates are whole seconds.\<close>

record jwtClaims =
  jc_UserID :: string
  jc_Email :: string
  jc_Roles :: "string list"
  jc_Subject :: string
  jc_IssuedAt :: "int option"
  jc_ExpiresAt :: "int option"
  jc_Issuer :: string

text \<open>
  \<^verbatim>\<open>Token.SignedString\<close>, and \<^verbatim>\<open>ParseWithClaims\<close> with the options that an expiry is required and
  the issuer is the given one, at an instant: the claims and \<^verbatim>\<open>t.Valid\<close>.
\<close>

record jwtlib =
  jl_SignedString :: "SigningMethod \<Rightarrow> jwtClaims \<Rightarrow> jwt_key \<Rightarrow> string + string"
  jl_ParseWithClaims :: "string \<Rightarrow> (SigningMethod \<Rightarrow> string + jwt_key) \<Rightarrow> string \<Rightarrow> time \<Rightarrow> string + jwtClaims \<times> bool"

section \<open>The managers\<close>

definition toPorts :: "jwtClaims \<Rightarrow> Claims" where
  "toPorts c = \<lparr>k_UserID = jc_UserID c, k_Email = jc_Email c, k_Roles = jc_Roles c\<rparr>"

definition signToken ::
  "jwtlib \<Rightarrow> 'w runtime \<Rightarrow> SigningMethod \<Rightarrow> jwt_key \<Rightarrow> string \<Rightarrow> string \<Rightarrow> string list \<Rightarrow> duration \<Rightarrow>
   ('w, string + string) state" where
  "signToken J R method key userID email roles ttl = do {
     issued \<leftarrow> Now R;
     now \<leftarrow> Now R;
     let claims = \<lparr>jc_UserID = userID, jc_Email = email, jc_Roles = roles, jc_Subject = userID,
       jc_IssuedAt = Some (Unix issued), jc_ExpiresAt = Some (Unix (now + ttl)),
       jc_Issuer = ''auth-service''\<rparr>;
     ret (case jl_SignedString J method claims key of
        Inl err \<Rightarrow> Inl (''sign token: '' @ err)
      | Inr tok \<Rightarrow> Inr tok)
   }"

definition parseToken ::
  "jwtlib \<Rightarrow> 'w runtime \<Rightarrow> string \<Rightarrow> (SigningMethod \<Rightarrow> string + jwt_key) \<Rightarrow> ('w, string + Claims) state" where
  "parseToken J R tokenStr keyFunc = do {
     now \<leftarrow> Now R;
     ret (case jl_ParseWithClaims J tokenStr keyFunc ''auth-service'' now of
        Inl err \<Rightarrow> Inl (''parse token: '' @ err)
      | Inr (claims, valid) \<Rightarrow>
          if \<not> valid then Inl ''invalid token claims'' else Inr (toPorts claims))
   }"

record HS256Manager =
  hs_secret :: string
  hs_accessTTL :: duration

text \<open>A short secret makes the constructor panic: \<^const>\<open>None\<close>.\<close>

definition NewHS256Manager :: "string \<Rightarrow> duration \<Rightarrow> HS256Manager option" where
  "NewHS256Manager secret accessTTL =
     (if length secret < 32 then None else Some \<lparr>hs_secret = secret, hs_accessTTL = accessTTL\<rparr>)"

definition HS256_keyFunc :: "HS256Manager \<Rightarrow> SigningMethod \<Rightarrow> string + jwt_key" where
  "HS256_keyFunc m t = (case t of
      SigningMethodHMAC _ \<Rightarrow> Inr (HMACKey (hs_secret m))
    | SigningMethodRSA alg \<Rightarrow> Inl (''unexpected signing method: '' @ alg)
    | SigningMethodECDSA alg \<Rightarrow> Inl (''unexpected signing method: '' @ alg)
    | SigningMethodOther alg \<Rightarrow> Inl (''unexpected signing method: '' @ alg))"

definition HS256_manager :: "jwtlib \<Rightarrow> 'w runtime \<Rightarrow> HS256Manager \<Rightarrow> 'w AccessTokenManager" where
  "HS256_manager J R m =
     \<lparr>tm_GenerateAccessToken = (\<lambda>userID email roles.
        signToken J R (SigningMethodHMAC ''HS256'') (HMACKey (hs_secret m)) userID email roles (hs_accessTTL m)),
      tm_ValidateAccessToken = (\<lambda>tokenStr. parseToken J R tokenStr (HS256_keyFunc m))\<rparr>"

record RS256Manager =
  rs_priv :: string
  rs_accessTTL :: duration

definition NewRS256Manager :: "string \<Rightarrow> duration \<Rightarrow> RS256Manager" where
  "NewRS256Manager priv accessTTL = \<lparr>rs_priv = priv, rs_accessTTL = accessTTL\<rparr>"

definition RS256_keyFunc :: "RS256Manager \<Rightarrow> SigningMethod \<Rightarrow> string + jwt_key" where
  "RS256_keyFunc m t = (case t of
      SigningMethodRSA _ \<Rightarrow> Inr (RSAPublicKey (rs_priv m))
    | SigningMethodHMAC alg \<Rightarrow> Inl (''unexpected signing method: '' @ alg)
    | SigningMethodECDSA alg \<Rightarrow> Inl (''unexpected signing method: '' @ alg)
    | SigningMethodOther alg \<Rightarrow> Inl (''unexpected signing method: '' @ alg))"

definition RS256_manager :: "jwtlib \<Rightarrow> 'w runtime \<Rightarrow> RS256Manager \<Rightarrow> 'w AccessTokenManager" where
  "RS256_manager J R m =
     \<lparr>tm_GenerateAccessToken = (\<lambda>userID email roles.
        signToken J R (SigningMethodRSA ''RS256'') (RSAPrivateKey (rs_priv m)) userID email roles (rs_accessTTL m)),
      tm_ValidateAccessToken = (\<lambda>tokenStr. parseToken J R tokenStr (RS256_keyFunc m))\<rparr>"

record ES256Manager =
  es_priv :: string
  es_accessTTL :: duration

definition NewES256Manager :: "string \<Rightarrow> duration \<Rightarrow> ES256Manager" where
  "NewES256Manager priv accessTTL = \<lparr>es_priv = priv, es_accessTTL = accessTTL\<rparr>"

definition ES256_keyFunc :: "ES256Manager \<Rightarrow> SigningMethod \<Rightarrow> string + jwt_key" where
  "ES256_keyFunc m t = (case t of
      SigningMethodECDSA _ \<Rightarrow> Inr (ECDSAPublicKey (es_priv m))
    | SigningMethodHMAC alg \<Rightarrow> Inl (''unexpected signing method: '' @ alg)
    | SigningMethodRSA alg \<Rightarrow> Inl (''unexpected signing method: '' @ alg)
    | SigningMethodOther alg \<Rightarrow> Inl (''unexpected signing method: '' @ alg))"

definition ES256_manager :: "jwtlib \<Rightarrow> 'w runtime \<Rightarrow> ES256Manager \<Rightarrow> 'w AccessTokenManager" where
  "ES256_manager J R m =
     \<lparr>tm_GenerateAccessToken = (\<lambda>userID email roles.
        signToken J R (SigningMethodECDSA ''ES256'') (ECDSAPrivateKey (es_priv m)) userID email roles (es_accessTTL m)),
      tm_ValidateAccessToken = (\<lambda>tokenStr. parseToken J R tokenStr (ES256_keyFunc m))\<rparr>"

section \<open>The contract\<close>

text \<open>Whatever the manager, it only reads the clock.\<close>

lemma jwt_manager_contract:
  assumes "runtime_env C I view R"
    and "\<And>u e r. \<exists>m k ttl. tm_GenerateAccessToken T u e r = signToken J R m k u e r ttl"
    and "\<And>tok. \<exists>kf. tm_ValidateAccessToken T tok = parseToken J R tok kf"
  shows "token_manager I view T"
proof (unfold_locales, goal_cases)
  case (1 w uid email roles)
  from assms(2) obtain m k ttl where
    "tm_GenerateAccessToken T uid email roles = signToken J R m k uid email roles ttl" by blast
  with 1 show ?case
    by (auto simp: signToken_def wp_simps Let_def intro!: wp_mono[OF runtime_env.now[OF assms(1)]])
      (rule later_trans)
next
  case (2 w tok)
  from assms(3) obtain kf where "tm_ValidateAccessToken T tok = parseToken J R tok kf" by blast
  with 2 show ?case
    by (auto simp: parseToken_def wp_simps Let_def intro!: wp_mono[OF runtime_env.now[OF assms(1)]])
qed

datatype token_manager_choice = UseHS256 HS256Manager | UseRS256 RS256Manager | UseES256 ES256Manager

fun access_tokens :: "jwtlib \<Rightarrow> 'w runtime \<Rightarrow> token_manager_choice \<Rightarrow> 'w AccessTokenManager" where
  "access_tokens J R (UseHS256 m) = HS256_manager J R m"
| "access_tokens J R (UseRS256 m) = RS256_manager J R m"
| "access_tokens J R (UseES256 m) = ES256_manager J R m"

lemma tokens_contract: "runtime_env C I view R \<Longrightarrow> token_manager I view (access_tokens J R m)"
  by (cases m) (auto intro!: jwt_manager_contract simp: HS256_manager_def RS256_manager_def ES256_manager_def, blast+)

interpretation mem: token_manager "mem_inv C" "mem_view C" "access_tokens J (world_runtime :: 'r world runtime) m"
  for C J m
  by (rule tokens_contract[OF mem.runtime_env_axioms])

section \<open>What the library promises\<close>

text \<open>
  The documented behaviour of the JWT library: \<open>header\<close> is the algorithm a token names. Parsing
  succeeds only when the key function accepts that algorithm, the issuer is the expected one and the
  expiry is present and ahead; a token signed with a private key parses back to its claims when the
  key function returns the matching public key.
\<close>

fun public_key :: "jwt_key \<Rightarrow> jwt_key" where
  "public_key (RSAPrivateKey k) = RSAPublicKey k"
| "public_key (ECDSAPrivateKey k) = ECDSAPublicKey k"
| "public_key k = k"

definition unexpired :: "jwtClaims \<Rightarrow> time \<Rightarrow> bool" where
  "unexpired c now \<longleftrightarrow> (case jc_ExpiresAt c of None \<Rightarrow> False | Some e \<Rightarrow> now < e * second)"

locale jwt_library =
  fixes J :: jwtlib
    and header :: "string \<Rightarrow> SigningMethod"
  assumes parse_sound: "jl_ParseWithClaims J tok kf iss now = Inr (c, v) \<Longrightarrow>
      (\<exists>k. kf (header tok) = Inr k) \<and> jc_Issuer c = iss \<and> unexpired c now"
    and signed_parses: "jl_SignedString J m c k = Inr tok \<Longrightarrow> kf m = Inr (public_key k) \<Longrightarrow> jc_Issuer c = iss \<Longrightarrow>
      unexpired c now \<Longrightarrow> jl_ParseWithClaims J tok kf iss now = Inr (c, True)"
begin

lemma wp_parse_refuses:
  assumes "\<And>k. kf (header tok) \<noteq> Inr k"
  shows "wp (parseToken J world_runtime tok kf) (\<lambda>r _. \<exists>err. r = Inl err) w"
  using assms by (auto simp: parseToken_def world_runtime_def wp_simps Let_def split: sum.split dest!: parse_sound)

lemma wp_sign_parse:
  assumes "kf m = Inr (public_key k)"
  shows "wp (do { a \<leftarrow> signToken J world_runtime m k u e rs ttl;
      case a of Inl err \<Rightarrow> ret (a, None) | Inr tok \<Rightarrow> do { b \<leftarrow> parseToken J world_runtime tok kf; ret (a, Some b) } })
    (\<lambda>(a, b) w'. \<forall>tok. a = Inr tok \<longrightarrow> w_now w' + second \<le> w_now w + ttl \<longrightarrow>
      b = Some (Inr \<lparr>k_UserID = u, k_Email = e, k_Roles = rs\<rparr>)) w"
proof -
  have unix: "t \<le> Unix t * second + second - 1" for t
    using pos_mod_bound[of second t] div_mult_mod_eq[of t second] unfolding Unix_def by linarith
  let ?c = "\<lambda>i x. \<lparr>jc_UserID = u, jc_Email = e, jc_Roles = rs, jc_Subject = u, jc_IssuedAt = Some i,
    jc_ExpiresAt = Some (Unix x), jc_Issuer = ''auth-service''\<rparr>"
  have parsed: "jl_ParseWithClaims J tok kf ''auth-service'' now = Inr (?c i x, True)"
    if "jl_SignedString J m (?c i x) k = Inr tok" "now + second \<le> x" for i x tok now
    using that unix[of x] by (intro signed_parses[where kf = kf and m = m, OF that(1)] assms) (simp_all add: unexpired_def)
  show ?thesis
    by (auto simp: signToken_def parseToken_def world_runtime_def wp_simps Let_def toPorts_def parsed split: sum.split)
qed

end

end
