(* ===== verification/Memory_Service.thy ===== *)
theory Memory_Service
  imports Handler_Proofs Memory_Users Memory_Sessions Memory_Cache Bruteforce JWT
begin

text \<open>
  The service of \<^verbatim>\<open>auth.go\<close> put together with the in-memory adapters, one of the three JWT
  managers and the login guard, and what the generic proofs give for it: the stated properties
  of the handlers, for every world that satisfies the invariant.
\<close>

section \<open>Assembly\<close>

text \<open>Everything a deployment chooses: the libraries, the managers, the optional parts.\<close>

record 'r deployment =
  d_crypto :: crypto
  d_unicode :: unicode
  d_jwt :: jwtlib
  d_tokens :: token_manager_choice
  d_guard :: "'r Guard option"
  d_audit :: "'r world AuditStore option"
  d_hook :: "'r world EventHook option"
  d_refreshTTL :: duration

definition mem_lib :: "'r deployment \<Rightarrow> 'r world golib" where
  "mem_lib d = \<lparr>lib_crypto = d_crypto d, lib_runtime = world_runtime, lib_unicode = d_unicode d\<rparr>"

definition mem_service :: "'r deployment \<Rightarrow> 'r world AuthService" where
  "mem_service d = New mem_UserStore mem_SessionStore (access_tokens (d_jwt d) world_runtime (d_tokens d))
     mem_Cache (mem_ResetStore (d_crypto d)) (d_audit d) (map_option guard_methods (d_guard d))
     (d_hook d) (d_refreshTTL d)"

abbreviation vault_of :: "'r deployment \<Rightarrow> 'r world \<Rightarrow> vault" where
  "vault_of d w \<equiv> mem_view (d_crypto d) w"

definition mem_ok :: "'r deployment \<Rightarrow> 'r world \<Rightarrow> bool" where
  "mem_ok d w \<longleftrightarrow> mem_inv (d_crypto d) w \<and> vault_ok (d_crypto d) (vault_of d w)"

lemma mem_sel [simp]:
  "lib_crypto (mem_lib d) = d_crypto d" "lib_runtime (mem_lib d) = world_runtime"
  "lib_unicode (mem_lib d) = d_unicode d"
  "userStore (mem_service d) = mem_UserStore" "sessionStore (mem_service d) = mem_SessionStore"
  "tokenMgr (mem_service d) = access_tokens (d_jwt d) world_runtime (d_tokens d)"
  "cache (mem_service d) = mem_Cache" "resetStore (mem_service d) = mem_ResetStore (d_crypto d)"
  "bruteGuard (mem_service d) = map_option guard_methods (d_guard d)"
  "auditStore (mem_service d) = d_audit d" "hook (mem_service d) = d_hook d"
  "refreshTTL (mem_service d) = d_refreshTTL d"
  by (simp_all add: mem_lib_def mem_service_def New_def)

lemma guard_contract:
  "login_guard (mem_inv C) (mem_view C) (map_option guard_methods (g :: 'r Guard option))"
proof (cases g)
  case None
  then show ?thesis by (simp add: login_guard_def)
next
  case (Some g')
  then show ?thesis using mem.login_guard_axioms by simp
qed

interpretation mem: auth_backend "mem_lib d" "mem_service d" "mem_inv (d_crypto d)" "vault_of d" True
  for d :: "'r deployment"
  unfolding auth_backend_def mem_sel
  by (intro conjI mem.runtime_env_axioms mem.user_store_axioms mem.session_store_axioms
      mem.session_cache_axioms mem.reset_store_axioms guard_contract mem.token_manager_axioms)

lemma mem_ok_tracks:
  "mem_ok d w \<Longrightarrow> track (lib_crypto (mem_lib d)) (mem_inv (d_crypto d)) (vault_of d) (vault_of d w) (vault_of d w) w"
  by (simp add: mem_ok_def track_def)

lemma mem_ok_settled:
  "mem_ok d w \<Longrightarrow> settled (lib_crypto (mem_lib d)) (mem_inv (d_crypto d)) (vault_of d) (vault_of d w) w"
  by (simp add: mem_ok_def settled_def)

lemma settled_mem_ok:
  "settled (lib_crypto (mem_lib d)) (mem_inv (d_crypto d)) (vault_of d) v w \<longleftrightarrow> mem_ok d w \<and> evolves v (vault_of d w)"
  by (auto simp: mem_ok_def settled_def)

end
