(* ===== verification/Demo.thy ===== *)
theory Demo
  imports Memory_Service
begin

text \<open>
  A concrete deployment and world, at which the hypotheses of the properties are shown to hold.
\<close>

section \<open>A concrete world\<close>

text \<open>
  One user, one session that is cached, one reset code and one reset token, stand-ins for the
  libraries, and bytes for one new token: every hypothesis of the properties below holds here.
\<close>

definition demo_crypto :: crypto where
  "demo_crypto = \<lparr>sha256 = (\<lambda>s. take 32 (s @ replicate 32 (CHR ''0''))),
     IDKey = (\<lambda>p s t m par k. if t = 0 \<or> par = 0 then None
       else Some (take (unat k) (p @ replicate (unat k) (CHR ''0''))))\<rparr>"

definition demo_unicode :: unicode where
  "demo_unicode = \<lparr>IsLetter = ascii_letter, IsDigit = ascii_digit\<rparr>"

definition demo_jwt :: jwtlib where
  "demo_jwt = \<lparr>jl_SignedString = (\<lambda>m c k. Inr (jc_UserID c)),
     jl_ParseWithClaims = (\<lambda>tok kf iss now. Inr (\<lparr>jc_UserID = tok, jc_Email = [], jc_Roles = [],
       jc_Subject = tok, jc_IssuedAt = None, jc_ExpiresAt = None, jc_Issuer = iss\<rparr>, True))\<rparr>"

definition demo_deployment :: "unit deployment" where
  "demo_deployment = \<lparr>d_crypto = demo_crypto, d_unicode = demo_unicode, d_jwt = demo_jwt,
     d_tokens = UseHS256 \<lparr>hs_secret = replicate 32 (CHR ''k''), hs_accessTTL = 15 * minute\<rparr>,
     d_guard = None, d_audit = None, d_hook = None, d_refreshTTL = 60 * minute\<rparr>"

definition demo_user :: User where
  "demo_user = \<lparr>u_ID = ''u0'', u_Email = ''a@b.co'',
     u_PasswordHash = encode_hash (replicate 16 (CHR ''s'')) (take 32 (''Passw0rd'' @ replicate 32 (CHR ''0''))),
     u_CreatedAt = 0, u_UpdatedAt = 0\<rparr>"

definition demo_session :: Session where
  "demo_session = \<lparr>s_ID = ''u1'', s_UserID = ''u0'', s_UserEmail = [], s_TokenHash = Hash demo_crypto ''tok'',
     s_DeviceID = ''d'', s_UserAgent = [], s_IPAddress = [], s_ExpiresAt = 60 * minute,
     s_LastUsedAt = 0, s_CreatedAt = 0\<rparr>"

definition demo_world :: "unit world" where
  "demo_world = \<lparr>w_now = 0, w_ticks = (\<lambda>_. 1), w_reads = 0, w_rand = replicate 32 (CHR ''r''),
     w_uuid = (\<lambda>n. CHR ''u'' # itoa n), w_uuids = 2, w_order = (\<lambda>m. m), w_tasks = [],
     w_users = \<lparr>us_heap = [demo_user], us_byID = [(''u0'', 0)], us_byEmail = [(''a@b.co'', 0)]\<rparr>,
     w_sessions = \<lparr>ss_heap = [demo_session], ss_byID = [(''u1'', 0)], ss_byHash = [(Hash demo_crypto ''tok'', 0)]\<rparr>,
     w_cache = [(Hash demo_crypto ''tok'', \<lparr>c_SessionID = ''u1'', c_UserID = ''u0'', c_UserEmail = ''a@b.co'',
       c_DeviceID = ''d'', c_ExpiresAt = 60 * minute\<rparr>, 60 * minute)],
     w_resets = \<lparr>rs_otps = [(Hash demo_crypto ''a@b.co'',
         \<lparr>o_UserID = ''u0'', o_OTPHash = Hash demo_crypto ''123456'', o_Attempts = 0\<rparr>, 15 * minute)],
       rs_resetTokens = [(Hash demo_crypto ''reset'', \<lparr>t_UserID = ''u0'', t_Email = ''a@b.co''\<rparr>, 15 * minute)]\<rparr>,
     w_local = [], w_services = ()\<rparr>"

abbreviation demo_lib :: "unit world golib" where
  "demo_lib \<equiv> mem_lib demo_deployment"

abbreviation demo_service :: "unit world AuthService" where
  "demo_service \<equiv> mem_service demo_deployment"

text \<open>A request with no metadata and no peer address.\<close>

abbreviation no_ctx :: ctx where
  "no_ctx \<equiv> \<lparr>metadata = None, peer = None\<rparr>"

lemma demo_sel [simp]: "d_crypto demo_deployment = demo_crypto" "d_unicode demo_deployment = demo_unicode"
  by (simp_all add: demo_deployment_def)

lemma demo_crypto_ok: "crypto_ok demo_crypto"
  by (auto simp: crypto_ok_def argon2_total_def demo_crypto_def min_def)

lemma demo_token:
  "take 3 (b64_padded b64_url (replicate 32 (CHR ''r''))) = ''cnJ''"
  by code_simp

lemma demo_hash:
  assumes "Hash demo_crypto s = Hash demo_crypto t" "3 \<le> length s" "3 \<le> length t"
  shows "take 3 s = take 3 t"
proof -
  have "take 32 (s @ replicate 32 (CHR ''0'')) = take 32 (t @ replicate 32 (CHR ''0''))"
    using hex_encode_inj assms(1) by (auto simp: Hash_def demo_crypto_def)
  then have "take 3 (take 32 (s @ replicate 32 (CHR ''0''))) = take 3 (take 32 (t @ replicate 32 (CHR ''0'')))"
    by simp
  then show ?thesis using assms(2,3) by (simp add: take_append min_def)
qed

lemma demo_to_come: "to_come demo_crypto (w_rand demo_world) = {Hash demo_crypto (b64_padded b64_url (replicate 32 (CHR ''r'')))}"
  by (auto simp: to_come_def token_at_def demo_world_def)

lemma demo_unused:
  "Hash demo_crypto ''tok'' \<notin> to_come demo_crypto (w_rand demo_world)"
  "Hash demo_crypto ''reset'' \<notin> to_come demo_crypto (w_rand demo_world)"
  using demo_hash[of "''tok''" "b64_padded b64_url (replicate 32 (CHR ''r''))"]
    demo_hash[of "''reset''" "b64_padded b64_url (replicate 32 (CHR ''r''))"]
  by (auto simp: demo_to_come demo_token b64_padded_length)

lemma demo_view:
  "v_users (mem_view demo_crypto demo_world) = [''u0'' \<mapsto> demo_user]"
  "v_sessions (mem_view demo_crypto demo_world) = [Hash demo_crypto ''tok'' \<mapsto> demo_session]"
  by (auto simp: demo_world_def deref_def fun_eq_iff)

lemma demo_supplies: "supplies_ok demo_crypto demo_world"
proof -
  have "inj (\<lambda>n. CHR ''u'' # itoa n)"
    by (rule injI) (metis dec_val_itoa list.inject)
  moreover have "{i. i + 32 \<le> length (w_rand demo_world)} = {0}" by (auto simp: demo_world_def)
  ultimately show ?thesis by (auto simp: supplies_ok_def demo_world_def)
qed

lemma demo_inv: "mem_inv demo_crypto demo_world"
proof -
  have "itoa 0 = ''0''" "itoa 1 = ''1''" by code_simp+
  then have ids: "used_ids demo_world = {''u0'', ''u1''}"
    by (simp add: used_ids_def demo_world_def numeral_2_eq_2 lessThan_Suc insert_commute)
  show ?thesis unfolding mem_inv_def ids users_inv_def sessions_inv_def linked_def half_linked_def
    using demo_crypto_ok demo_supplies
    by (auto simp: demo_world_def demo_user_def demo_session_def gomap_ok_def split: if_splits)
qed

lemma demo_ok: "mem_ok demo_deployment demo_world"
proof -
  have "mem_ok demo_deployment demo_world \<longleftrightarrow> vault_ok demo_crypto (mem_view demo_crypto demo_world)"
    using demo_inv by (simp add: mem_ok_def demo_deployment_def)
  moreover have "users_ok [''u0'' \<mapsto> demo_user]" by (simp add: users_ok_def demo_user_def)
  moreover have "sessions_ok (to_come demo_crypto (w_rand demo_world)) [''u0'' \<mapsto> demo_user]
      [Hash demo_crypto ''tok'' \<mapsto> demo_session]"
    using demo_unused(1) mem.Hash_nonempty[of demo_deployment demo_world] demo_inv
    by (simp add: sessions_ok_def demo_session_def demo_deployment_def)
  moreover have "cache_ok (to_come demo_crypto (w_rand demo_world)) [Hash demo_crypto ''tok'' \<mapsto> demo_session]
      (map_of (w_cache demo_world))"
    using demo_unused(1) by (simp add: cache_ok_def agrees_def demo_session_def demo_world_def)
  moreover have "otps_ok demo_crypto [''u0'' \<mapsto> demo_user] (map_of (rs_otps (w_resets demo_world)))"
    by (simp add: otps_ok_def owner_email_def demo_user_def demo_world_def)
  moreover have "resets_ok demo_crypto (to_come demo_crypto (w_rand demo_world)) [''u0'' \<mapsto> demo_user]
      (map_of (rs_resetTokens (w_resets demo_world)))"
    using demo_unused(2) by (simp add: resets_ok_def owner_email_def demo_user_def demo_world_def)
  ultimately show ?thesis by (simp add: vault_ok_def demo_view[simplified])
qed

text \<open>A request by the demo user: the token library takes the token for the user ID.\<close>

definition demo_ctx :: ctx where
  "demo_ctx = \<lparr>metadata = Some (\<lambda>k. if k = ''authorization'' then [''Bearer u0''] else []), peer = None\<rparr>"

lemma demo_caller: "caller (mem_service demo_deployment) demo_ctx demo_world = Inr ''u0''"
proof -
  have "wp (extractUserIDFromCtx (mem_service demo_deployment) demo_ctx) (\<lambda>r _. r = Inr ''u0'') demo_world"
    by (simp add: extractUserIDFromCtx_def demo_ctx_def demo_deployment_def md_Get_def CutPrefix_def
        HS256_manager_def parseToken_def demo_jwt_def world_runtime_def wp_simps Let_def toPorts_def)
  then show ?thesis by (simp add: wp_def caller_def split: prod.splits)
qed

lemma demo_email_ok: "Email ''a@b.co'' = None" "Email ''x@b.co'' = None"
  by (simp_all add: Email_def emailRe_def local_char_def domain_char_def is_alpha_def is_digit_def)

section \<open>Runs of the handlers in the demo world\<close>

lemma demo_argon: "argon2_total demo_crypto"
  using demo_crypto_ok by (simp add: crypto_ok_def)

lemma demo_password_ok: "Password demo_unicode ''Passw0rd'' = None" "Password demo_unicode ''N3wpassw'' = None"
  by (simp_all add: Password_None runes_ascii demo_unicode_def ascii_letter_def ascii_digit_def)

lemma demo_IDKey: "IDKey demo_crypto p s argon_iterations argon_memory argon_parallelism keyLen =
    Some (take 32 (p @ replicate 32 (CHR ''0'')))"
  by (simp add: demo_crypto_def argon_params)

lemma demo_verify: "password_Verify demo_crypto ''Passw0rd'' (u_PasswordHash demo_user) = Some (Inr True)"
  by (simp add: demo_user_def Verify_encode_hash[OF demo_argon] demo_IDKey)

lemmas demo_run_simps = wp_simps Let_def demo_deployment_def demo_world_def demo_session_def mem_Cache_def
  mem_cache_Get_def mem_cache_Delete_def mem_cache_Set_def wp_expired After_def HS256_manager_def signToken_def
  demo_jwt_def world_runtime_def token_Generate_def mem_SessionStore_def mem_session_RotateToken_def
  session_ID_or_new_def delete_session_def extractClientInfo_def

lemmas demo_auth_simps = extractUserIDFromCtx_def demo_ctx_def md_Get_def CutPrefix_def parseToken_def toPorts_def

lemmas demo_hash_simps = demo_password_ok password_Hash_def demo_IDKey saltLen_def mem_UserStore_def

lemmas handler_steps = getCachedSession_def logAudit_def fireHook_def deleteSessionFromCache_def
  cacheSession_def Let_def mem_sel

lemma demo_refresh_succeeds:
  "wp (RefreshToken demo_lib demo_service no_ctx \<lparr>rt_RefreshToken = ''tok'', rt_DeviceId = []\<rparr>)
    (\<lambda>r _. \<exists>x. r = Inr x) demo_world"
  unfolding RefreshToken_def lookup_session_def handler_steps
  by (simp add: demo_run_simps)

lemma demo_logout_succeeds:
  "wp (Logout demo_lib demo_service no_ctx ''tok'') (\<lambda>r _. r = Inr ()) demo_world"
  unfolding Logout_def handler_steps
  by (simp add: demo_run_simps mem_session_DeleteByTokenHash_def)

lemma demo_login_succeeds:
  "wp (Login demo_lib demo_service demo_ctx
        \<lparr>lr_Email = ''a@b.co'', lr_Password = ''Passw0rd'', lr_DeviceId = []\<rparr>)
    (\<lambda>r _. \<exists>x. r = Inr x) demo_world"
  using demo_verify
  unfolding Login_def guard_locked_def guard_failure_def guard_reset_def handler_steps
  by (simp add: demo_run_simps demo_email_ok mem_UserStore_def mem_user_GetByEmail_def mem_session_Create_def
      demo_ctx_def)

lemma demo_register_succeeds:
  "wp (Register demo_lib demo_service demo_ctx \<lparr>rr_Email = ''x@b.co'', rr_Password = ''Passw0rd''\<rparr>)
    (\<lambda>r _. \<exists>x. r = Inr x) demo_world"
  unfolding Register_def handler_steps
  by (simp add: demo_run_simps demo_email_ok demo_hash_simps mem_user_Create_def)

lemma demo_reset_succeeds:
  "wp (ResetPassword demo_lib demo_service demo_ctx \<lparr>rp_ResetToken = ''reset'', rp_NewPassword = ''N3wpassw''\<rparr>)
    (\<lambda>r _. r = Inr ()) demo_world"
  unfolding ResetPassword_def handler_steps
  by (simp add: demo_run_simps demo_hash_simps mem_user_UpdatePasswordHash_def mem_ResetStore_def
      mem_GetResetToken_def mem_DeleteResetToken_def mem_session_DeleteAllByUserID_def mem_delete_matching_def)

lemma demo_change_succeeds:
  "wp (ChangePassword demo_lib demo_service demo_ctx
        \<lparr>cp_CurrentPassword = ''Passw0rd'', cp_NewPassword = ''N3wpassw'', cp_RefreshToken = []\<rparr>)
    (\<lambda>r _. r = Inr ()) demo_world"
  using demo_verify
  unfolding ChangePassword_def handler_steps
  by (simp add: demo_auth_simps demo_run_simps demo_hash_simps mem_user_UpdatePasswordHash_def
      mem_user_GetByID_def mem_session_DeleteAllByUserIDExcept_def mem_delete_matching_def)

lemma demo_verify_succeeds:
  "wp (VerifyResetCode demo_lib demo_service \<lparr>vr_Email = ''a@b.co'', vr_Otp = ''123456''\<rparr>)
    (\<lambda>r _. \<exists>x. r = Inr x) demo_world"
  unfolding VerifyResetCode_def handler_steps
  by (simp add: demo_run_simps demo_email_ok mem_ResetStore_def mem_GetOTP_def mem_IncrOTPAttempts_def
      mem_DeleteOTP_def mem_SaveResetToken_def maxOTPAttempts_def otpTTL_def)

lemma demo_revoke_succeeds:
  "wp (RevokeSession demo_lib demo_service demo_ctx ''u1'') (\<lambda>r _. r = Inr ()) demo_world"
  unfolding RevokeSession_def handler_steps
  by (simp add: demo_auth_simps demo_run_simps mem_session_DeleteByID_def)

lemma demo_list_succeeds:
  "wp (ListSessions demo_service demo_ctx) (\<lambda>r _. \<exists>x. r = Inr x) demo_world"
  unfolding ListSessions_def handler_steps
  by (simp add: demo_auth_simps demo_run_simps mem_session_ListByUserID_def)

end
