(* ===== verification/Service_Properties.thy ===== *)
theory Service_Properties
  imports Demo
begin

text \<open>
  The properties of the whole service on the in-memory adapters, each obtained from the
  generic proofs through the interpretation of the backend, with a witness at the demo world.
\<close>

section \<open>The invariant\<close>

text \<open>
  Claim C5. Whatever the request, the service answers it and keeps the invariant of its
  stores: the pointer maps stay in step, every session, reset code and reset token has an
  existing owner, a cached session agrees with the stored one. No user disappears, and a session
  or a reset token appears only under the digest of a token drawn during the request.
\<close>

theorem request_keeps_invariant:
  assumes "mem_ok d w"
  shows "wp (dispatch (mem_lib d) (mem_service d) ctx r)
    (\<lambda>_ w'. mem_ok d w' \<and> evolves (vault_of d w) (vault_of d w')) w"
  by (rule wp_mono[OF mem.dispatch_settles[OF mem_ok_tracks[OF assms]]]) (simp only: settled_mem_ok)

theorem request_keeps_invariant_witness:
  "wp (dispatch demo_lib demo_service no_ctx (RpcLogout ''tok''))
    (\<lambda>_ w'. mem_ok demo_deployment w' \<and>
      evolves (vault_of demo_deployment demo_world) (vault_of demo_deployment w')) demo_world"
  by (rule request_keeps_invariant[OF demo_ok])

text \<open>
  A refresh token works once: after a successful \<^verbatim>\<open>RefreshToken\<close> the same token is
  refused, from any client, whatever other requests are served in between.
\<close>

theorem refresh_token_used_once:
  assumes "mem_ok d w" "rt_RefreshToken req' = rt_RefreshToken req"
  shows "wp (do { r \<leftarrow> RefreshToken (mem_lib d) (mem_service d) ctx req;
                  _ \<leftarrow> serve (mem_lib d) (mem_service d) rs;
                  r' \<leftarrow> RefreshToken (mem_lib d) (mem_service d) ctx' req'; ret (r, r') })
    (\<lambda>(r, r') _. (\<exists>x. r = Inr x) \<longrightarrow> (\<exists>e. r' = Inl e)) w"
  by (rule mem.refresh_spends_token[OF mem_ok_settled[OF assms(1)] assms(2)])

theorem refresh_token_used_once_witness:
  "wp (do { r \<leftarrow> RefreshToken demo_lib demo_service no_ctx
              \<lparr>rt_RefreshToken = ''tok'', rt_DeviceId = []\<rparr>;
            _ \<leftarrow> serve demo_lib demo_service [];
            r' \<leftarrow> RefreshToken demo_lib demo_service no_ctx
              \<lparr>rt_RefreshToken = ''tok'', rt_DeviceId = ''other''\<rparr>; ret (r, r') })
    (\<lambda>(r, r') _. (\<exists>x. r = Inr x) \<and> (\<exists>e. r' = Inl e)) demo_world"
proof -
  let ?R = "RefreshToken demo_lib demo_service no_ctx"
  have "wp (do { r \<leftarrow> ?R \<lparr>rt_RefreshToken = ''tok'', rt_DeviceId = []\<rparr>;
            _ \<leftarrow> serve demo_lib demo_service [];
            r' \<leftarrow> ?R \<lparr>rt_RefreshToken = ''tok'', rt_DeviceId = ''other''\<rparr>; ret (r, r') })
          (\<lambda>(r, r') _. (\<exists>x. r = Inr x) \<longrightarrow> (\<exists>e. r' = Inl e)) demo_world"
    by (rule refresh_token_used_once[OF demo_ok]) simp
  then show ?thesis using demo_refresh_succeeds by (auto simp: wp_def split: prod.splits)
qed

section \<open>Sessions\<close>

text \<open>
  Claim C6. \<^verbatim>\<open>RefreshToken\<close> succeeds only for a token whose session is stored and not expired (up
  to the microsecond a database may round off); it replaces that session by one of the same user
  under the digest of a new token, and leaves every other session alone. When it fails, no other
  session changes.
\<close>

theorem RefreshToken_rotates:
  assumes "mem_ok d w"
  shows "wp (RefreshToken (mem_lib d) (mem_service d) ctx req) (\<lambda>r w'. v_users (vault_of d w') = v_users (vault_of d w) \<and>
    (case r of
       Inr resp \<Rightarrow> \<exists>x st. v_sessions (vault_of d w) (Hash (d_crypto d) (rt_RefreshToken req)) = Some x
         \<and> w_now w < s_ExpiresAt x + 1000
         \<and> Hash (d_crypto d) (rt_NewRefreshToken resp) \<in> v_unused (vault_of d w)
         \<and> s_UserID st = s_UserID x \<and> s_TokenHash st = Hash (d_crypto d) (rt_NewRefreshToken resp)
         \<and> v_sessions (vault_of d w') = (v_sessions (vault_of d w))(Hash (d_crypto d) (rt_RefreshToken req) := None,
             Hash (d_crypto d) (rt_NewRefreshToken resp) \<mapsto> st)
     | Inl e \<Rightarrow> \<forall>h. h \<noteq> Hash (d_crypto d) (rt_RefreshToken req) \<longrightarrow>
         v_sessions (vault_of d w') h = v_sessions (vault_of d w) h)) w"
  by (rule wp_mono[OF mem.RefreshToken_spec[OF mem_ok_tracks[OF assms]]]) (auto split: sum.splits)

theorem RefreshToken_rotates_witness:
  "wp (RefreshToken demo_lib demo_service no_ctx
        \<lparr>rt_RefreshToken = ''tok'', rt_DeviceId = []\<rparr>)
     (\<lambda>r w'. \<exists>resp st. r = Inr resp \<and> v_sessions (vault_of demo_deployment w') =
        [Hash demo_crypto (rt_NewRefreshToken resp) \<mapsto> st]) demo_world"
  using RefreshToken_rotates[OF demo_ok, of "no_ctx" "\<lparr>rt_RefreshToken = ''tok'', rt_DeviceId = []\<rparr>"]
    demo_refresh_succeeds
  by (auto simp: wp_def demo_view[simplified] split: prod.splits sum.splits)

text \<open>
  A logged-out token is dead: when \<^verbatim>\<open>Logout\<close> succeeds for a stored session, \<^verbatim>\<open>RefreshToken\<close>
  refuses the token from then on, whatever requests are served in between.
\<close>

theorem logout_revokes:
  assumes "mem_ok d w" "Hash (d_crypto d) tok \<in> dom (v_sessions (vault_of d w))" "rt_RefreshToken req = tok"
  shows "wp (do { r \<leftarrow> Logout (mem_lib d) (mem_service d) ctx tok;
                  _ \<leftarrow> serve (mem_lib d) (mem_service d) rs;
                  r' \<leftarrow> RefreshToken (mem_lib d) (mem_service d) ctx' req; ret (r, r') })
    (\<lambda>(r, r') _. r = Inr () \<longrightarrow> (\<exists>e. r' = Inl e)) w"
  by (rule mem.logout_kills_token[OF mem_ok_settled[OF assms(1)]]) (use assms in simp_all)

theorem logout_revokes_witness:
  "wp (do { r \<leftarrow> Logout demo_lib demo_service no_ctx ''tok'';
            _ \<leftarrow> serve demo_lib demo_service [(no_ctx, RpcLogout ''tok'')];
            r' \<leftarrow> RefreshToken demo_lib demo_service no_ctx \<lparr>rt_RefreshToken = ''tok'', rt_DeviceId = []\<rparr>; ret (r, r') })
    (\<lambda>(r, r') _. r = Inr () \<and> (\<exists>e. r' = Inl e)) demo_world"
proof -
  have "Hash (d_crypto demo_deployment) ''tok'' \<in> dom (v_sessions (vault_of demo_deployment demo_world))"
    by (simp add: demo_view[simplified])
  from logout_revokes[OF demo_ok this, of "\<lparr>rt_RefreshToken = ''tok'', rt_DeviceId = []\<rparr>" no_ctx
      "[(no_ctx, RpcLogout ''tok'')]" no_ctx] demo_logout_succeeds
  show ?thesis by (auto simp: wp_def split: prod.splits)
qed

text \<open>
  Claim C13. \<^verbatim>\<open>LogoutAll\<close> deletes exactly the sessions of the caller and reports how many there
  were (as a 32-bit number); without a valid access token it changes nothing and returns the
  authentication error.
\<close>

theorem LogoutAll_revokes:
  assumes "mem_ok d w"
  shows "wp (LogoutAll (mem_lib d) (mem_service d) ctx) (\<lambda>r w'. v_users (vault_of d w') = v_users (vault_of d w) \<and>
    (case caller (mem_service d) ctx w of
       Inl e \<Rightarrow> r = Inl e \<and> v_sessions (vault_of d w') = v_sessions (vault_of d w)
     | Inr uid \<Rightarrow> r = Inr (word_of_nat (card (user_hashes (v_sessions (vault_of d w)) uid)))
         \<and> v_sessions (vault_of d w') = v_sessions (vault_of d w) |` (- user_hashes (v_sessions (vault_of d w)) uid))) w"
  by (rule wp_mono[OF mem.LogoutAll_spec[OF mem_ok_tracks[OF assms]]]) (auto split: sum.splits)

theorem LogoutAll_revokes_witness:
  "wp (LogoutAll demo_lib demo_service demo_ctx)
     (\<lambda>r w'. r = Inr 1 \<and> v_sessions (vault_of demo_deployment w') = Map.empty) demo_world"
proof -
  have "user_hashes [Hash demo_crypto ''tok'' \<mapsto> demo_session] ''u0'' = {Hash demo_crypto ''tok''}"
    by (auto simp: user_hashes_def demo_session_def)
  with LogoutAll_revokes[OF demo_ok, of demo_ctx] show ?thesis
    by (auto simp: demo_caller demo_view[simplified] restrict_map_def fun_eq_iff elim!: wp_mono)
qed

text \<open>
  Claim C14. \<^verbatim>\<open>RevokeSession\<close> deletes one session, of the caller and with the given ID, and nothing
  else; it never touches a session of another user. "Session not found" is the answer only when
  the caller has no session with that ID.
\<close>

theorem RevokeSession_own_only:
  assumes "mem_ok d w"
  shows "wp (RevokeSession (mem_lib d) (mem_service d) ctx i) (\<lambda>r w'.
    case r of
       Inr _ \<Rightarrow> \<exists>uid h x. caller (mem_service d) ctx w = Inr uid \<and> v_sessions (vault_of d w) h = Some x
         \<and> s_ID x = i \<and> s_UserID x = uid \<and> v_sessions (vault_of d w') = (v_sessions (vault_of d w))(h := None)
     | Inl e \<Rightarrow> v_sessions (vault_of d w') = v_sessions (vault_of d w)
         \<and> (\<forall>uid. e = Status NotFound ''session not found'' \<longrightarrow> caller (mem_service d) ctx w = Inr uid \<longrightarrow>
              (\<forall>x \<in> ran (v_sessions (vault_of d w)). \<not> (s_ID x = i \<and> s_UserID x = uid)))) w"
  by (rule wp_mono[OF mem.RevokeSession_spec[OF mem_ok_tracks[OF assms]]]) (auto split: sum.splits)

theorem RevokeSession_own_only_witness:
  "wp (RevokeSession demo_lib demo_service demo_ctx ''u1'')
     (\<lambda>r w'. r = Inr () \<and> v_sessions (vault_of demo_deployment w') = Map.empty) demo_world"
  by (rule wp_mono[OF wp_conj[OF demo_revoke_succeeds RevokeSession_own_only[OF demo_ok]]])
    (auto simp: demo_view[simplified] split: if_splits)



section \<open>Accounts\<close>

text \<open>
  Claim C12. \<^verbatim>\<open>Register\<close> accepts only a valid address that no user has and a password that satisfies
  the policy; it then adds one user with a new ID whose stored hash verifies against that
  password. "Already registered" means that the address is taken, and every failure leaves the users
  as they were.
\<close>

theorem Register_adds_user:
  assumes "mem_ok d w"
  shows "wp (Register (mem_lib d) (mem_service d) ctx req) (\<lambda>r w'. v_sessions (vault_of d w') = v_sessions (vault_of d w) \<and>
    (case r of
       Inr resp \<Rightarrow> \<exists>u. u_ID u = rr_UserId resp \<and> u_Email u = rr_Email req
         \<and> password_Verify (d_crypto d) (rr_Password req) (u_PasswordHash u) = Some (Inr True)
         \<and> u_ID u \<notin> dom (v_users (vault_of d w)) \<and> (\<forall>x \<in> ran (v_users (vault_of d w)). u_Email x \<noteq> rr_Email req)
         \<and> v_users (vault_of d w') = (v_users (vault_of d w))(u_ID u \<mapsto> u)
         \<and> Email (rr_Email req) = None \<and> Password (d_unicode d) (rr_Password req) = None
     | Inl e \<Rightarrow> v_users (vault_of d w') = v_users (vault_of d w)
         \<and> (e = Status AlreadyExists ''email already registered'' \<longrightarrow>
              (\<exists>x \<in> ran (v_users (vault_of d w)). u_Email x = rr_Email req)))) w"
  by (rule wp_mono[OF mem.Register_spec[OF mem_ok_tracks[OF assms]]]) (simp split: sum.splits)

theorem Register_adds_user_witness:
  "wp (Register demo_lib demo_service demo_ctx \<lparr>rr_Email = ''x@b.co'', rr_Password = ''Passw0rd''\<rparr>)
     (\<lambda>r w'. \<exists>resp u. r = Inr resp \<and> v_users (vault_of demo_deployment w') (rr_UserId resp) = Some u
       \<and> password_Verify demo_crypto ''Passw0rd'' (u_PasswordHash u) = Some (Inr True)) demo_world"
  by (rule wp_mono[OF wp_conj[OF demo_register_succeeds Register_adds_user[OF demo_ok]]])
    (auto simp: demo_view[simplified])

text \<open>
  Claim C7. \<^verbatim>\<open>Login\<close> succeeds only with the address and the password of a stored user; it then
  stores one new session of that user under the digest of the returned refresh token, a digest
  never used before. A failed login stores nothing.
\<close>

theorem Login_creates_session:
  assumes "mem_ok d w"
  shows "wp (Login (mem_lib d) (mem_service d) ctx req) (\<lambda>r w'. v_users (vault_of d w') = v_users (vault_of d w) \<and>
    (case r of
       Inr resp \<Rightarrow> \<exists>u st. u_Email u = lr_Email req \<and> v_users (vault_of d w) (u_ID u) = Some u
         \<and> password_Verify (d_crypto d) (lr_Password req) (u_PasswordHash u) = Some (Inr True)
         \<and> Hash (d_crypto d) (lr_RefreshToken resp) \<in> v_unused (vault_of d w)
         \<and> Hash (d_crypto d) (lr_RefreshToken resp) \<notin> dom (v_sessions (vault_of d w))
         \<and> s_UserID st = u_ID u \<and> s_TokenHash st = Hash (d_crypto d) (lr_RefreshToken resp)
         \<and> v_sessions (vault_of d w') = (v_sessions (vault_of d w))(Hash (d_crypto d) (lr_RefreshToken resp) \<mapsto> st)
     | Inl e \<Rightarrow> v_sessions (vault_of d w') = v_sessions (vault_of d w))) w"
  by (rule wp_mono[OF mem.Login_spec[OF mem_ok_tracks[OF assms]]]) (simp split: sum.splits)

theorem Login_creates_session_witness:
  "wp (Login demo_lib demo_service demo_ctx
        \<lparr>lr_Email = ''a@b.co'', lr_Password = ''Passw0rd'', lr_DeviceId = []\<rparr>)
     (\<lambda>r w'. \<exists>resp st. r = Inr resp \<and> s_UserID st = ''u0'' \<and> v_sessions (vault_of demo_deployment w')
        (Hash demo_crypto (lr_RefreshToken resp)) = Some st) demo_world"
  by (rule wp_mono[OF wp_conj[OF demo_login_succeeds Login_creates_session[OF demo_ok]]])
    (auto simp: demo_view[simplified] split: if_splits)



section \<open>Password reset\<close>



text \<open>
  Claim C10. \<^verbatim>\<open>VerifyResetCode\<close> hands out a reset token only for the code last sent to that
  address, only while fewer than four attempts were counted on it, and for the user whose
  address it is; the token is new. A refused code hands out nothing.
\<close>

theorem VerifyResetCode_needs_code:
  assumes "mem_ok d w"
  shows "wp (VerifyResetCode (mem_lib d) (mem_service d) req) (\<lambda>r w'.
    case r of
       Inr plain \<Rightarrow> \<exists>rec x y. v_otps (vault_of d w) (Hash (d_crypto d) (vr_Email req)) = Some (rec, x)
         \<and> Hash (d_crypto d) (vr_Otp req) = o_OTPHash rec \<and> o_Attempts rec < 4
         \<and> owner_email (d_crypto d) (v_users (vault_of d w)) (o_UserID rec) (Hash (d_crypto d) (vr_Email req))
         \<and> Hash (d_crypto d) plain \<in> v_unused (vault_of d w)
         \<and> v_resets (vault_of d w') = (v_resets (vault_of d w))(Hash (d_crypto d) plain \<mapsto>
             (\<lparr>t_UserID = o_UserID rec, t_Email = vr_Email req\<rparr>, y))
     | Inl e \<Rightarrow> v_resets (vault_of d w') = v_resets (vault_of d w)) w"
  by (rule wp_mono[OF mem.VerifyResetCode_spec[OF mem_ok_tracks[OF assms]]])
    (auto simp: maxOTPAttempts_def split: sum.splits)

theorem VerifyResetCode_needs_code_witness:
  "wp (VerifyResetCode demo_lib demo_service \<lparr>vr_Email = ''a@b.co'', vr_Otp = ''123456''\<rparr>)
     (\<lambda>r w'. \<exists>plain. r = Inr plain \<and> Hash demo_crypto plain \<in> dom (v_resets (vault_of demo_deployment w'))) demo_world
   \<and> wp (VerifyResetCode demo_lib demo_service \<lparr>vr_Email = ''a@b.co'', vr_Otp = ''999999''\<rparr>)
     (\<lambda>r w'. (\<exists>e. r = Inl e) \<and> v_resets (vault_of demo_deployment w') = v_resets (vault_of demo_deployment demo_world))
     demo_world"
proof
  show "wp (VerifyResetCode demo_lib demo_service \<lparr>vr_Email = ''a@b.co'', vr_Otp = ''123456''\<rparr>)
     (\<lambda>r w'. \<exists>plain. r = Inr plain \<and> Hash demo_crypto plain \<in> dom (v_resets (vault_of demo_deployment w'))) demo_world"
    by (rule wp_mono[OF wp_conj[OF demo_verify_succeeds VerifyResetCode_needs_code[OF demo_ok]]]) auto
  show "wp (VerifyResetCode demo_lib demo_service \<lparr>vr_Email = ''a@b.co'', vr_Otp = ''999999''\<rparr>)
     (\<lambda>r w'. (\<exists>e. r = Inl e) \<and> v_resets (vault_of demo_deployment w') = v_resets (vault_of demo_deployment demo_world))
     demo_world"
    by (rule wp_mono[OF VerifyResetCode_needs_code[OF demo_ok]])
      (use demo_hash[of "''999999''" "''123456''"] in \<open>auto simp: demo_world_def split: sum.splits if_splits\<close>)
qed



text \<open>
  A reset token works once: after a successful \<^verbatim>\<open>ResetPassword\<close> the same token is
  refused, whatever requests are served in between.
\<close>

theorem reset_token_used_once:
  assumes "mem_ok d w" "rp_ResetToken req' = rp_ResetToken req"
  shows "wp (do { r \<leftarrow> ResetPassword (mem_lib d) (mem_service d) ctx req;
                  _ \<leftarrow> serve (mem_lib d) (mem_service d) rs;
                  r' \<leftarrow> ResetPassword (mem_lib d) (mem_service d) ctx' req'; ret (r, r') })
    (\<lambda>(r, r') _. r = Inr () \<longrightarrow> (\<exists>e. r' = Inl e)) w"
  by (rule mem.reset_spends_token[OF mem_ok_settled[OF assms(1)] assms(2)])

theorem reset_token_used_once_witness:
  "wp (do { r \<leftarrow> ResetPassword demo_lib demo_service demo_ctx \<lparr>rp_ResetToken = ''reset'', rp_NewPassword = ''N3wpassw''\<rparr>;
            _ \<leftarrow> serve demo_lib demo_service [];
            r' \<leftarrow> ResetPassword demo_lib demo_service demo_ctx \<lparr>rp_ResetToken = ''reset'', rp_NewPassword = ''An0ther1''\<rparr>;
            ret (r, r') })
    (\<lambda>(r, r') _. r = Inr () \<and> (\<exists>e. r' = Inl e)) demo_world"
  using reset_token_used_once[OF demo_ok, of "\<lparr>rp_ResetToken = ''reset'', rp_NewPassword = ''An0ther1''\<rparr>"
      "\<lparr>rp_ResetToken = ''reset'', rp_NewPassword = ''N3wpassw''\<rparr>" demo_ctx "[]" demo_ctx] demo_reset_succeeds
  by (auto simp: wp_def split: prod.splits)

section \<open>Guard and hook\<close>

text \<open>
  Claim C36. A locked account is refused before anything about the user is looked up: whatever
  stores, password and context, \<^verbatim>\<open>Login\<close> answers "temporarily locked" when the guard says so.
\<close>

theorem locked_login_refused:
  assumes "Email (lr_Email req) = None" "wp (guard_locked s (lr_Email req)) (\<lambda>b _. b) w"
  shows "wp (Login L s ctx req) (\<lambda>r _. r = Inl (Status ResourceExhausted locked_msg)) w"
  unfolding Login_def Let_def wp_simps assms(1) option.case prod.case_eq_if
  by (rule wp_mono[OF assms(2)]) (auto intro!: wp_mono[OF wp_True])

theorem locked_login_refused_witness:
  "wp (Login demo_lib (demo_service\<lparr>bruteGuard :=
        Some \<lparr>bg_IsLocked = (\<lambda>_. ret (Inr True)), bg_RecordFailure = (\<lambda>_. ret (Inr False)), bg_Reset = (\<lambda>_. ret ())\<rparr>\<rparr>)
        demo_ctx \<lparr>lr_Email = ''a@b.co'', lr_Password = ''Passw0rd'', lr_DeviceId = []\<rparr>)
     (\<lambda>r _. r = Inl (Status ResourceExhausted locked_msg)) demo_world"
  by (rule locked_login_refused) (simp_all add: demo_email_ok guard_locked_def wp_simps)



end
