(* ===== verification/Interleaving.thy ===== *)
theory Interleaving
  imports Service_Properties
begin

text \<open>
  Two requests at once. Every port operation is atomic, so what two handlers running concurrently can
  do to each other is decided by how their port operations interleave. \<^verbatim>\<open>RefreshToken\<close> and
  \<^verbatim>\<open>ResetPassword\<close> are cut where the source claims to be safe against a concurrent replay: just before
  \<^verbatim>\<open>RotateToken\<close>, and just before \<^verbatim>\<open>DeleteResetToken\<close>. The two halves put together are the handler;
  run in the order first, first, second, second they show the race.
\<close>

section \<open>The halves\<close>

record refresh_plan =
  pl_tokenHash :: string
  pl_cached :: CachedSession
  pl_accessToken :: string
  pl_newPlain :: string
  pl_newSess :: Session

definition refresh_prepare ::
  "'w golib \<Rightarrow> 'w AuthService \<Rightarrow> ctx \<Rightarrow> RefreshTokenRequest \<Rightarrow> ('w, rpc_error + refresh_plan) state" where
  "refresh_prepare L s ctx req = do {
     let tokenHash = Hash (lib_crypto L) (rt_RefreshToken req);
     lr \<leftarrow> lookup_session s tokenHash;
     case lr of
        Inl e \<Rightarrow> ret (Inl e)
      | Inr cached \<Rightarrow> do {
     now1 \<leftarrow> Now (lib_runtime L);
     if After now1 (c_ExpiresAt cached) then do {
       _ \<leftarrow> ss_DeleteByTokenHash (sessionStore s) tokenHash;
       _ \<leftarrow> deleteSessionFromCache s tokenHash;
       ret (denied ''refresh token expired'')
     } else do {
     ar \<leftarrow> tm_GenerateAccessToken (tokenMgr s) (c_UserID cached) (c_UserEmail cached) [''user''];
     case ar of
        Inl err \<Rightarrow> ret internal
      | Inr newAccessToken \<Rightarrow> do {
     tr \<leftarrow> token_Generate (lib_crypto L) (lib_runtime L);
     case tr of
        Inl err \<Rightarrow> ret internal
      | Inr (newPlain, newHash) \<Rightarrow> do {
     now2 \<leftarrow> Now (lib_runtime L);
     ret (Inr \<lparr>pl_tokenHash = tokenHash, pl_cached = cached, pl_accessToken = newAccessToken, pl_newPlain = newPlain,
       pl_newSess = \<lparr>s_ID = [], s_UserID = c_UserID cached, s_UserEmail = [], s_TokenHash = newHash,
         s_DeviceID = (if rt_DeviceId req = [] then c_DeviceID cached else rt_DeviceId req),
         s_UserAgent = snd (extractClientInfo ctx), s_IPAddress = fst (extractClientInfo ctx),
         s_ExpiresAt = now2 + refreshTTL s, s_LastUsedAt = time_zero, s_CreatedAt = time_zero\<rparr>\<rparr>)
   } } } } }"

definition refresh_commit :: "'w golib \<Rightarrow> 'w AuthService \<Rightarrow> refresh_plan \<Rightarrow> ('w, rpc_error + RefreshTokenResponse) state" where
  "refresh_commit L s p = do {
     rr \<leftarrow> ss_RotateToken (sessionStore s) (pl_tokenHash p) (pl_newSess p);
     case rr of
        Inl err \<Rightarrow>
          if err = ErrSessionNotFound then ret (denied ''invalid refresh token'') else ret internal
      | Inr newSess \<Rightarrow> do {
     _ \<leftarrow> deleteSessionFromCache s (pl_tokenHash p);
     _ \<leftarrow> cacheSession L s (s_TokenHash (pl_newSess p))
       \<lparr>c_SessionID = s_ID newSess, c_UserID = c_UserID (pl_cached p), c_UserEmail = c_UserEmail (pl_cached p),
        c_DeviceID = s_DeviceID (pl_newSess p), c_ExpiresAt = s_ExpiresAt newSess\<rparr>;
     _ \<leftarrow> logAudit L s (Some (c_UserID (pl_cached p))) AuditEventTokenRefresh (s_IPAddress (pl_newSess p))
       (s_UserAgent (pl_newSess p)) [(''session_id'', s_ID newSess)];
     _ \<leftarrow> fireHook L s (c_UserID (pl_cached p)) (c_UserEmail (pl_cached p)) AuditEventTokenRefresh (s_IPAddress (pl_newSess p))
       (s_UserAgent (pl_newSess p)) [(''session_id'', s_ID newSess)];
     ret (Inr \<lparr>rt_NewAccessToken = pl_accessToken p, rt_NewRefreshToken = pl_newPlain p\<rparr>)
   } }"

definition reset_check ::
  "'w golib \<Rightarrow> 'w AuthService \<Rightarrow> ResetPasswordRequest \<Rightarrow> ('w, rpc_error + ResetTokenRecord) state" where
  "reset_check L s req =
     (case Password (lib_unicode L) (rp_NewPassword req) of
        Some err \<Rightarrow> ret (Inl (Status InvalidArgument err))
      | None \<Rightarrow> do {
     gr \<leftarrow> rs_GetResetToken (resetStore s) (Hash (lib_crypto L) (rp_ResetToken req));
     case gr of
        Inl err \<Rightarrow>
          if err = ErrResetTokenNotFound then ret (denied ''invalid or expired reset token'') else ret internal
      | Inr tokenRec \<Rightarrow> ret (Inr tokenRec) })"

definition reset_commit ::
  "'w golib \<Rightarrow> 'w AuthService \<Rightarrow> ctx \<Rightarrow> ResetPasswordRequest \<Rightarrow> ResetTokenRecord \<Rightarrow> ('w, rpc_error + unit) state" where
  "reset_commit L s ctx req tokenRec = do {
     dr \<leftarrow> rs_DeleteResetToken (resetStore s) (Hash (lib_crypto L) (rp_ResetToken req));
     if dr \<noteq> None then ret internal
     else do {
     hr \<leftarrow> password_Hash (lib_crypto L) (lib_runtime L) (rp_NewPassword req);
     case hr of
        None \<Rightarrow> ret (Inl (GoPanic ''argon2''))
      | Some hr' \<Rightarrow>
     (case hr' of
        Inl err \<Rightarrow> ret internal
      | Inr newHash \<Rightarrow> do {
     pr \<leftarrow> us_UpdatePasswordHash (userStore s) (t_UserID tokenRec) newHash;
     case pr of
        Inl err \<Rightarrow> ret internal
      | Inr _ \<Rightarrow> do {
     (deletedHashes, err) \<leftarrow> ss_DeleteAllByUserID (sessionStore s) (t_UserID tokenRec);
     _ \<leftarrow> for_each deletedHashes (deleteSessionFromCache s);
     let (ipAddr, userAgent) = extractClientInfo ctx;
     _ \<leftarrow> logAudit L s (Some (t_UserID tokenRec)) AuditEventPasswordReset ipAddr userAgent [];
     _ \<leftarrow> fireHook L s (t_UserID tokenRec) (t_Email tokenRec) AuditEventPasswordReset ipAddr userAgent [];
     ret (Inr ())
   } }) } }"

text \<open>An early return of the first half ends the handler.\<close>

definition and_then :: "rpc_error + 'a \<Rightarrow> ('a \<Rightarrow> ('w, rpc_error + 'b) state) \<Rightarrow> ('w, rpc_error + 'b) state" where
  "and_then x f = (case x of Inl e \<Rightarrow> ret (Inl e) | Inr a \<Rightarrow> f a)"

section \<open>The halves make the handler\<close>

lemma run_eqI: "(\<And>w. run_state m w = run_state n w) \<Longrightarrow> m = n"
  by (cases m; cases n) auto

lemma RefreshToken_halves:
  "RefreshToken L s ctx req = do { p \<leftarrow> refresh_prepare L s ctx req; and_then p (refresh_commit L s) }"
  by (rule run_eqI)
    (simp add: RefreshToken_def refresh_prepare_def refresh_commit_def and_then_def Let_def
      split: sum.split prod.split)

lemma ResetPassword_halves:
  "ResetPassword L s ctx req = do { t \<leftarrow> reset_check L s req; and_then t (reset_commit L s ctx req) }"
  by (rule run_eqI)
    (simp add: ResetPassword_def reset_check_def reset_commit_def and_then_def Let_def
      split: sum.split prod.split option.split)

section \<open>One winner\<close>

text \<open>What a prepared rotation has: a session to store under a digest drawn for it.\<close>

definition planned :: "refresh_plan \<Rightarrow> vault \<Rightarrow> bool" where
  "planned p v \<longleftrightarrow> new_session v (pl_newSess p)"

lemma planned_fewer: "planned p v \<Longrightarrow> dom (v_sessions v') \<subseteq> dom (v_sessions v) \<Longrightarrow> planned p v'"
  by (auto simp: planned_def new_session_def)

definition same_sessions :: "('w \<Rightarrow> bool) \<Rightarrow> ('w \<Rightarrow> vault) \<Rightarrow> 'w \<Rightarrow> 'w \<Rightarrow> bool" where
  "same_sessions I view w w' \<longleftrightarrow> I w' \<and> v_sessions (view w') = v_sessions (view w)"

context auth_backend
begin

lemma refresh_prepare_spec:
  assumes "tracks v0 V w"
  shows "wp (refresh_prepare L s ctx req) (\<lambda>r w'. settles v0 w' \<and> dom (v_sessions (view w')) \<subseteq> dom (v_sessions V) \<and>
    (\<forall>p. r = Inr p \<longrightarrow> pl_tokenHash p = Hash (lib_crypto L) (rt_RefreshToken req) \<and> planned p (view w'))) w"
  unfolding refresh_prepare_def Let_def wp_simps
  using assms by - (erule step_rules lookup_session_spec | rule branches
    | (auto simp: leaf planned_def new_session_def; fail))+

text \<open>After the rotation only caches, log and hook are touched.\<close>

abbreviation keeps_sessions :: "'w \<Rightarrow> 'w \<Rightarrow> bool" where
  "keeps_sessions \<equiv> same_sessions inv view"

lemma frame_same_sessions: "inv w' \<Longrightarrow> frame (view w) (view w') \<Longrightarrow> keeps_sessions w w'"
  by (simp add: same_sessions_def frame_def)

lemma aside_same_sessions:
  assumes "inv w"
  shows "wp (deleteSessionFromCache s h) (\<lambda>_. keeps_sessions w) w" "wp (cacheSession L s h c) (\<lambda>_. keeps_sessions w) w"
    "wp (logAudit L s u e ip ua m) (\<lambda>_. keeps_sessions w) w" "wp (fireHook L s u' em e ip ua m) (\<lambda>_. keeps_sessions w) w"
proof -
  show "wp (deleteSessionFromCache s h) (\<lambda>_. keeps_sessions w) w" unfolding deleteSessionFromCache_def wp_simps
    by (rule wp_sc_Delete[OF assms]) (auto simp: same_sessions_def frame_def)
  show "wp (cacheSession L s h c) (\<lambda>_. keeps_sessions w) w" unfolding cacheSession_def Let_def wp_simps
    by (rule wp_Now[OF assms]) (auto simp: same_sessions_def frame_def wp_simps intro!: wp_sc_Set)
  show "wp (logAudit L s u e ip ua m) (\<lambda>_. keeps_sessions w) w"
    unfolding logAudit_def using assms
    by (auto simp: wp_simps same_sessions_def split: option.split intro!: wp_Go[OF assms] frame_same_sessions)
  show "wp (fireHook L s u' em e ip ua m) (\<lambda>_. keeps_sessions w) w"
    unfolding fireHook_def by (rule wp_Go[OF assms]) (rule frame_same_sessions)
qed

lemma refresh_commit_kills:
  assumes "inv w" "planned p (view w)"
  shows "wp (refresh_commit L s p) (\<lambda>r w'. inv w' \<and> (\<forall>x. r = Inr x \<longrightarrow> v_sessions (view w') (pl_tokenHash p) = None)) w"
  unfolding refresh_commit_def wp_simps
proof (rule wp_mono[OF ss_Rotate[OF assms(1), of "pl_newSess p" "pl_tokenHash p"]], goal_cases)
  case 1
  then show ?case using assms(2) by (simp add: planned_def)
next
  case (2 r w1)
  show ?case
  proof (cases r)
    case (Inl e)
    with 2 show ?thesis by (simp add: wp_simps)
  next
    case (Inr sess)
    let ?dead = "\<lambda>w'. inv w' \<and> v_sessions (view w') (pl_tokenHash p) = None"
    from 2 Inr assms(2) have d: "?dead w1"
      by (auto simp: session_Rotate_spec_def later_iff planned_def new_session_def split: if_splits)
    have step: "wp m (\<lambda>_ w'. Q w') w" if "?dead w" "wp m (\<lambda>_. keeps_sessions w) w" "\<And>w'. ?dead w' \<Longrightarrow> Q w'"
      for m :: "('w, unit) state" and w Q
      by (rule wp_mono[OF that(2)]) (use that(1,3) in \<open>auto simp: same_sessions_def\<close>)
    show ?thesis unfolding Inr sum.case wp_bind
      by (rule step[OF d aside_same_sessions(1)[OF conjunct1[OF d]]],
          rule step, assumption, rule aside_same_sessions(2), erule conjunct1,
          rule step, assumption, rule aside_same_sessions(3), erule conjunct1,
          rule step, assumption, rule aside_same_sessions(4), erule conjunct1)
        (simp add: wp_simps)
  qed
qed

lemma refresh_commit_refused:
  assumes "inv w" "v_sessions (view w) (pl_tokenHash p) = None"
  shows "wp (refresh_commit L s p) (\<lambda>r _. \<exists>e. r = Inl e) w"
  unfolding refresh_commit_def wp_simps
  by (rule wp_mono[OF ss_Rotate_gone[OF assms]]) (auto simp: wp_simps)

lemma refresh_race:
  assumes "settles v0 w" "rt_RefreshToken req' = rt_RefreshToken req"
  shows "wp (do { p \<leftarrow> refresh_prepare L s ctx req; q \<leftarrow> refresh_prepare L s ctx' req';
                  x \<leftarrow> and_then p (refresh_commit L s); y \<leftarrow> and_then q (refresh_commit L s); ret (x, y) })
    (\<lambda>(x, y) _. (\<exists>r. x = Inr r) \<longrightarrow> (\<exists>e. y = Inl e)) w"
  unfolding wp_simps
proof (rule wp_mono[OF refresh_prepare_spec[OF settles_tracks[OF assms(1)]]], elim conjE, goal_cases)
  case (1 p w1)
  note w1 = 1(1) and p = 1(3)
  show ?case
  proof (rule wp_mono[OF refresh_prepare_spec[OF settles_tracks[OF w1]]], elim conjE, goal_cases)
    case (1 q w2)
    note w2 = 1(1,2) and q = 1(3)
    have inv: "inv w2" using w2(1) by (simp add: settled_def)
    show ?case
    proof (cases p)
      case (Inl e)
      then show ?thesis by (simp add: and_then_def wp_def split: prod.split)
    next
      case (Inr p')
      with p have p': "pl_tokenHash p' = Hash (lib_crypto L) (rt_RefreshToken req)" "planned p' (view w1)" by simp_all
      have kills: "wp (refresh_commit L s p') (\<lambda>r w'. inv w' \<and> (\<forall>x. r = Inr x \<longrightarrow> v_sessions (view w') (pl_tokenHash p') = None)) w2"
        by (rule refresh_commit_kills[OF inv planned_fewer[OF p'(2) w2(2)]])
      show ?thesis unfolding Inr and_then_def sum.case
      proof (rule wp_mono[OF kills], elim conjE, goal_cases)
        case (1 x w3)
        have "wp (refresh_commit L s q') (\<lambda>y _. \<exists>e. y = Inl e) w3" if "q = Inr q'" "x = Inr r" for q' r
        proof -
          have "pl_tokenHash q' = pl_tokenHash p'" using q that(1) p'(1) assms(2) by simp
          with 1(2) that(2) show ?thesis by (intro refresh_commit_refused[OF 1(1)]) simp
        qed
        then show ?case by (cases q; cases x) (auto simp: wp_def split: prod.splits)
      qed
    qed
  qed
qed

end

text \<open>
  Claim C17. Two \<^verbatim>\<open>RefreshToken\<close> requests with the same refresh token that both got as far as \<^verbatim>\<open>RotateToken\<close> do not
  both succeed: whichever rotates first wins, the other one is refused.
\<close>

theorem refresh_race_one_winner:
  assumes "mem_ok d w" "rt_RefreshToken req' = rt_RefreshToken req"
  shows "wp (do { p \<leftarrow> refresh_prepare (mem_lib d) (mem_service d) ctx req;
                  q \<leftarrow> refresh_prepare (mem_lib d) (mem_service d) ctx' req';
                  x \<leftarrow> and_then p (refresh_commit (mem_lib d) (mem_service d));
                  y \<leftarrow> and_then q (refresh_commit (mem_lib d) (mem_service d)); ret (x, y) })
    (\<lambda>(x, y) _. (\<exists>r. x = Inr r) \<longrightarrow> (\<exists>e. y = Inl e)) w"
  by (rule mem.refresh_race[OF mem_ok_settled[OF assms(1)] assms(2)])

theorem refresh_race_one_winner_witness:
  "wp (do { p \<leftarrow> refresh_prepare demo_lib demo_service no_ctx \<lparr>rt_RefreshToken = ''tok'', rt_DeviceId = []\<rparr>;
            q \<leftarrow> refresh_prepare demo_lib demo_service no_ctx \<lparr>rt_RefreshToken = ''tok'', rt_DeviceId = ''other''\<rparr>;
            x \<leftarrow> and_then p (refresh_commit demo_lib demo_service);
            y \<leftarrow> and_then q (refresh_commit demo_lib demo_service); ret (x, y) })
    (\<lambda>(x, y) _. (\<exists>r. x = Inr r) \<and> (\<exists>e. y = Inl e)) demo_world"
  (is "wp ?m _ _")
proof -
  have "wp ?m (\<lambda>(x, y) _. \<exists>r. x = Inr r) demo_world"
    unfolding refresh_prepare_def refresh_commit_def and_then_def lookup_session_def handler_steps
    by (simp add: demo_run_simps)
  moreover have "wp ?m (\<lambda>(x, y) _. (\<exists>r. x = Inr r) \<longrightarrow> (\<exists>e. y = Inl e)) demo_world"
    by (rule refresh_race_one_winner[OF demo_ok]) simp
  ultimately have "wp ?m (\<lambda>r w. (case r of (x, y) \<Rightarrow> \<exists>r. x = Inr r) \<and>
      (case r of (x, y) \<Rightarrow> (\<exists>r. x = Inr r) \<longrightarrow> (\<exists>e. y = Inl e))) demo_world"
    unfolding case_prod_beta by (rule wp_conj)
  then show ?thesis by (rule wp_mono) auto
qed

section \<open>Two winners\<close>


end
