(* ===== verification/Guard_Proofs.thy ===== *)
theory Guard_Proofs
  imports Bruteforce
begin

text \<open>
  The login guard with a reachable Redis server: the failures it counts there lock the account
  at the configured number, the lock holds for its time to live, and a reset lifts it.
\<close>

section \<open>Steps of the guard\<close>

lemma keys_differ [simp]: "lockedKeyPrefix @ e \<noteq> attemptsKeyPrefix @ f" "attemptsKeyPrefix @ f \<noteq> lockedKeyPrefix @ e"
  "lockedKeyPrefix \<noteq> attemptsKeyPrefix" "attemptsKeyPrefix \<noteq> lockedKeyPrefix"
  by (simp_all add: lockedKeyPrefix_def attemptsKeyPrefix_def)

lemma forward_getLocalEntry [forward_intros]: "forward (getLocalEntry email)"
  unfolding getLocalEntry_def Let_def by (intro forward_intros) simp_all

lemma forward_RecordFailure [forward_intros]: "forward (RecordFailure g email)"
  unfolding RecordFailure_def Let_def by (intro forward_intros) simp_all

lemma forward_IsLocked [forward_intros]: "forward (IsLocked g email)"
  unfolding IsLocked_def Let_def by (intro forward_intros)

text \<open>A row of failed logins for one address.\<close>

fun record_failures :: "'r Guard \<Rightarrow> string \<Rightarrow> nat \<Rightarrow> ('r world, (port_error + bool) list) state" where
  "record_failures g email 0 = ret []"
| "record_failures g email (Suc n) = do {
     x \<leftarrow> RecordFailure g email;
     xs \<leftarrow> record_failures g email n;
     ret (x # xs)
   }"

lemma forward_record_failures [forward_intros]: "forward (record_failures g email n)"
  by (induction n) (auto intro!: forward_intros)

text \<open>The lock key exists, and does not expire before millisecond \<open>X\<close>.\<close>

definition locked_until :: "(string \<rightharpoonup> entry) \<Rightarrow> string \<Rightarrow> int \<Rightarrow> bool" where
  "locked_until m email X \<longleftrightarrow> (\<exists>E \<ge> X. m (lockedKeyPrefix @ email) = Some (''1'', Some E))"

text \<open>The failure counter of the guard.\<close>

abbreviation failed :: "'r Guard \<Rightarrow> (string \<rightharpoonup> entry) \<Rightarrow> string \<Rightarrow> nat \<Rightarrow> int \<Rightarrow> time \<Rightarrow> bool" where
  "failed g m email n B t \<equiv> counter m (attemptsKeyPrefix @ email) (int64_Seconds (g_window g)) n B t"

context redis_server
begin

lemma wp_set_lock:
  assumes "reachable rd" "0 < ttl" "X \<le> ms (w_now w) + px ttl"
  shows "wp (redis_call rd (\<lambda>t r. ((), rd_SET rd (lockedKeyPrefix @ email) ''1'' ttl t r)))
    (\<lambda>x w'. x = Inr () \<and> w_now w \<le> w_now w' \<and> locked_until (kv (w_services w')) email X) w"
proof -
  let ?t = "w_now w + int (w_ticks w (w_reads w))"
  have "kv (rd_SET rd (lockedKeyPrefix @ email) ''1'' ttl ?t (w_services w)) (lockedKeyPrefix @ email)
      = Some (''1'', Some (ms ?t + px ttl))"
    by (rule purged_Some[OF SET[OF assms(2)]]) (simp add: live_def px_def)
  moreover have "X \<le> ms ?t + px ttl" using assms(3) ms_mono[of "w_now w" ?t] by linarith
  ultimately show ?thesis
    by (simp add: wp_redis_call_reachable[OF assms(1)] Let_def locked_until_def)
qed

lemma wp_del_attempts:
  assumes "reachable rd" "locked_until (kv (w_services w)) email X"
  shows "wp (redis_call rd (\<lambda>t r. ((), rd_DEL rd [attemptsKeyPrefix @ email] t r)))
    (\<lambda>x w'. w_now w \<le> w_now w' \<and> (ms (w_now w') \<le> X \<longrightarrow> locked_until (kv (w_services w')) email X)) w"
proof -
  let ?t = "w_now w + int (w_ticks w (w_reads w))"
  from assms(2) obtain E where E: "X \<le> E" "kv (w_services w) (lockedKeyPrefix @ email) = Some (''1'', Some E)"
    by (auto simp: locked_until_def)
  have "kv (rd_DEL rd [attemptsKeyPrefix @ email] ?t (w_services w)) (lockedKeyPrefix @ email) = Some (''1'', Some E)"
    if "ms ?t \<le> X"
    by (rule purged_Some[OF DEL]) (use E that in \<open>simp add: live_def restrict_map_def\<close>)
  then show ?thesis
    using E(1) by (auto simp: wp_redis_call_reachable[OF assms(1)] Let_def locked_until_def)
qed

lemma RecordFailure_below:
  assumes "reachable rd" "g_redis g = rd" "0 < int64_Seconds (g_window g)" "int n + 1 < 2 ^ 63"
    and "failed g (kv (w_services w)) email n B (w_now w)"
    and "int n + 1 < g_maxAttempts g"
  shows "wp (RecordFailure g email) (\<lambda>r w'. w_now w \<le> w_now w' \<and> (ms (w_now w') \<le> B \<longrightarrow> r = Inr False
    \<and> failed g (kv (w_services w')) email (n + 1) B (w_now w'))) w"
  unfolding RecordFailure_def Let_def wp_bind assms(2)
proof (rule wp_mono[OF wp_Eval_counts[OF assms(1,5,3,4)]], elim conjE, goal_cases)
  case (1 x w')
  show ?case
  proof (cases "ms (w_now w') \<le> B")
    case True
    with 1 assms(6) show ?thesis by (simp add: wp_simps)
  next
    case False
    show ?thesis
      by (rule wp_forward[where t = "w_now w'"]) (use False 1(1) in \<open>auto intro!: forward_intros dest: ms_mono\<close>)
  qed
qed

lemma RecordFailure_locks:
  assumes "reachable rd" "g_redis g = rd" "0 < int64_Seconds (g_window g)" "int n + 1 < 2 ^ 63"
    and "failed g (kv (w_services w)) email n B (w_now w)"
    and "g_maxAttempts g \<le> int n + 1" "0 < g_lockoutTTL g" "X \<le> ms (w_now w) + px (g_lockoutTTL g)"
  shows "wp (RecordFailure g email) (\<lambda>r w'. w_now w \<le> w_now w' \<and> (ms (w_now w') \<le> B \<longrightarrow> r = Inr True
    \<and> (ms (w_now w') \<le> X \<longrightarrow> locked_until (kv (w_services w')) email X))) w"
  unfolding RecordFailure_def Let_def wp_bind assms(2)
proof (rule wp_mono[OF wp_Eval_counts[OF assms(1,5,3,4)]], elim conjE, goal_cases)
  case (1 x w')
  show ?case
  proof (cases "ms (w_now w') \<le> B")
    case True
    have X: "X \<le> ms (w_now w') + px (g_lockoutTTL g)" using assms(8) ms_mono[OF 1(1)] by linarith
    show ?thesis
      using True 1 assms(6)
      by (auto simp: wp_simps intro!: wp_mono[OF wp_set_lock[OF assms(1,7) X]] wp_mono[OF wp_del_attempts[OF assms(1)]])
  next
    case False
    show ?thesis
      by (rule wp_forward[where t = "w_now w'"]) (use False 1(1) in \<open>auto intro!: forward_intros dest: ms_mono\<close>)
  qed
qed

lemma IsLocked_locked:
  assumes "reachable rd" "g_redis g = rd" "locked_until (kv (w_services w)) email X"
  shows "wp (IsLocked g email) (\<lambda>r w'. w_now w \<le> w_now w' \<and> (ms (w_now w') \<le> X \<longrightarrow> r = Inr True)) w"
proof -
  from assms(3) obtain E where "X \<le> E" "kv (w_services w) (lockedKeyPrefix @ email) = Some (''1'', Some E)"
    by (auto simp: locked_until_def)
  then have "live t (kv (w_services w) (lockedKeyPrefix @ email)) = Some (''1'', Some E)" if "ms t \<le> X" for t
    using that by (simp add: live_def)
  then show ?thesis
    by (simp add: IsLocked_def assms(2) wp_simps wp_redis_call_reachable[OF assms(1)] Let_def EXISTS)
qed

lemma record_failures_below:
  assumes "reachable rd" "g_redis g = rd" "0 < int64_Seconds (g_window g)"
    and "failed g (kv (w_services w)) email n B (w_now w)"
    and "int n + int k < g_maxAttempts g" "g_maxAttempts g < 2 ^ 63"
  shows "wp (record_failures g email k) (\<lambda>xs w'. w_now w \<le> w_now w' \<and> (ms (w_now w') \<le> B \<longrightarrow>
    xs = replicate k (Inr False) \<and> failed g (kv (w_services w')) email (n + k) B (w_now w'))) w"
  using assms(4,5)
proof (induction k arbitrary: n w)
  case 0
  then show ?case by (simp add: wp_simps)
next
  case (Suc k)
  have b: "int n + 1 < 2 ^ 63" "int n + 1 < g_maxAttempts g" using Suc.prems(2) assms(6) by auto
  show ?case unfolding record_failures.simps wp_simps
  proof (rule wp_mono[OF RecordFailure_below[OF assms(1,2,3) b(1) Suc.prems(1) b(2)]], elim conjE, goal_cases)
    case (1 x w')
    show ?case
    proof (cases "ms (w_now w') \<le> B")
      case True
      then show ?thesis
        using 1 Suc.prems(2) by (intro wp_mono[OF Suc.IH[of w' "n + 1"]]) auto
    next
      case False
      show ?thesis
        by (rule wp_forward[OF forward_record_failures, where t = "w_now w'"]) (use False 1(1) in \<open>auto dest: ms_mono\<close>)
    qed
  qed
qed

lemma guard_locks:
  assumes "reachable rd" "g_redis g = rd" "0 < int64_Seconds (g_window g)" "0 < g_lockoutTTL g"
    and "live (w_now w) (kv (w_services w) (attemptsKeyPrefix @ email)) = None"
    and "g_maxAttempts g = int n + 1" "g_maxAttempts g < 2 ^ 63"
    and "D = min (1000 * int64_Seconds (g_window g)) (px (g_lockoutTTL g))"
  shows "wp (do { xs \<leftarrow> record_failures g email n; x \<leftarrow> RecordFailure g email; l \<leftarrow> IsLocked g email; ret (xs, x, l) })
    (\<lambda>(xs, x, l) w'. ms (w_now w') \<le> ms (w_now w) + D \<longrightarrow>
       xs = replicate n (Inr False) \<and> x = Inr True \<and> l = Inr True) w"
proof -
  let ?B = "ms (w_now w) + D"
  have f0: "failed g (kv (w_services w)) email 0 ?B (w_now w)" using assms(5,8) by (simp add: counter_def)
  show ?thesis unfolding wp_simps
  proof (rule wp_mono[OF record_failures_below[OF assms(1-3) f0, of n]], goal_cases)
    case (3 xs w1)
    have X: "?B \<le> ms (w_now w1) + px (g_lockoutTTL g)" using 3 ms_mono[of "w_now w" "w_now w1"] assms(8) by linarith
    show ?case
    proof (cases "ms (w_now w1) \<le> ?B")
      case True
      with 3 have f: "failed g (kv (w_services w1)) email n ?B (w_now w1)" "xs = replicate n (Inr False)" by auto
      show ?thesis
      proof (rule wp_mono[OF RecordFailure_locks[OF assms(1-3) _ f(1) _ assms(4) X]], goal_cases)
        case (3 x w2)
        show ?case
        proof (cases "ms (w_now w2) \<le> ?B")
          case True
          with 3 show ?thesis by (auto intro!: wp_mono[OF IsLocked_locked[OF assms(1,2)]] simp: f(2))
        next
          case False
          show ?thesis
            by (rule wp_forward[OF forward_IsLocked order_refl]) (use False in \<open>auto dest: ms_mono\<close>)
        qed
      qed (use assms(6,7) in auto)
    next
      case False
      show ?thesis
        by (rule wp_forward[OF forward_RecordFailure order_refl], rule wp_forward[OF forward_IsLocked])
          (use False in \<open>auto dest: ms_mono order_trans\<close>)
    qed
  qed (use assms(6,7) in auto)
qed

lemma IsLocked_free:
  assumes "reachable rd" "g_redis g = rd" "live (w_now w) (kv (w_services w) (lockedKeyPrefix @ email)) = None"
    and "\<And>w'. w_now w \<le> w_now w' \<Longrightarrow> purged (w_now w') (kv (w_services w)) (kv (w_services w')) \<Longrightarrow> Q (Inr False) w'"
  shows "wp (IsLocked g email) Q w"
proof -
  have "live t (kv (w_services w) (lockedKeyPrefix @ email)) = None" if "w_now w \<le> t" for t
    using live_gone[OF assms(3) that] .
  then show ?thesis
    by (auto simp: IsLocked_def assms(2) wp_simps wp_redis_call_reachable[OF assms(1)] Let_def EXISTS intro!: assms(4))
qed

lemma Reset_unlocks:
  assumes "reachable rd" "g_redis g = rd"
  shows "wp (do { _ \<leftarrow> Reset g email; IsLocked g email }) (\<lambda>r _. r = Inr False) w"
proof -
  have "kv (rd_DEL rd [attemptsKeyPrefix @ email, lockedKeyPrefix @ email] t r) (lockedKeyPrefix @ email) = None" for t r
    by (rule purged_None[OF DEL]) (simp add: restrict_map_def)
  then show ?thesis
    unfolding Reset_def wp_simps assms(2) wp_redis_call_reachable[OF assms(1)] Let_def
    by (intro IsLocked_free[OF assms]) simp_all
qed

lemma AttemptsRemaining_counts:
  assumes "reachable rd" "g_redis g = rd" "live (w_now w) (kv (w_services w) (lockedKeyPrefix @ email)) = None"
    and "failed g (kv (w_services w)) email n B (w_now w)" "int n \<le> g_maxAttempts g" "g_maxAttempts g < 2 ^ 63"
  shows "wp (AttemptsRemaining g email) (\<lambda>r w'. ms (w_now w') \<le> B \<longrightarrow> r = Inr (g_maxAttempts g - int n)) w"
  unfolding AttemptsRemaining_def wp_simps
proof (rule IsLocked_free[OF assms(1-3)], goal_cases)
  case (1 w1)
  let ?t = "w_now w1 + int (w_ticks w1 (w_reads w1))"
  have live: "live ?t (kv (w_services w1) (attemptsKeyPrefix @ email)) = live ?t (kv (w_services w) (attemptsKeyPrefix @ email))"
    by (rule purged_live[OF 1(2)]) simp
  have "map_option fst (live ?t (kv (w_services w) (attemptsKeyPrefix @ email))) =
      (if n = 0 then None else Some (itoa n))" if "ms ?t \<le> B"
  proof (cases "n = 0")
    case True
    then show ?thesis using assms(4) live_gone[of "w_now w" _ ?t] 1(1) by (simp add: counter_def)
  next
    case False
    then show ?thesis using assms(4) that by (auto simp: counter_def live_def)
  qed
  then have "fst (rd_GET rd (attemptsKeyPrefix @ email) ?t (w_services w1)) =
      (if n = 0 then None else Some (itoa n))" if "ms ?t \<le> B"
    using that by (simp only: GET live)
  moreover have "parse_int (itoa n) = Some (int n)" using assms(5,6) by (intro parse_int_itoa) simp
  ultimately have "ms ?t \<le> B \<Longrightarrow> ?case"
    using assms(5) by (cases "n = 0") (simp_all add: assms(2) wp_simps wp_redis_call_reachable[OF assms(1)] Let_def)
  moreover have "\<not> ms ?t \<le> B \<Longrightarrow> ?case"
    by (simp add: assms(2) wp_simps wp_redis_call_reachable[OF assms(1)] Let_def getLocalEntry_def split: option.split)
  ultimately show ?case by blast
qed

end

section \<open>Properties\<close>

text \<open>
  Claim C18. With Redis reachable, \<^verbatim>\<open>maxAttempts\<close> failed logins lock the account: starting without
  a failure counter, every failure before that one answers "not locked", that one answers
  "locked", and \<^verbatim>\<open>IsLocked\<close> then says so, as long as neither the counting window nor the lockout
  has run out since the first failure.
\<close>

theorem guard_locks_after_max:
  assumes "redis_server rd kv" "reachable rd" "g = NewGuard rd (int n + 1) window lockoutTTL"
    and "0 < int64_Seconds window" "0 < lockoutTTL" "int n + 1 < 2 ^ 63"
    and "live (w_now w) (kv (w_services w) (attemptsKeyPrefix @ email)) = None"
  shows "wp (do { xs \<leftarrow> record_failures g email n; x \<leftarrow> RecordFailure g email; l \<leftarrow> IsLocked g email; ret (xs, x, l) })
    (\<lambda>(xs, x, l) w'. ms (w_now w') \<le> ms (w_now w) + min (1000 * int64_Seconds window) (px lockoutTTL) \<longrightarrow>
       xs = replicate n (Inr False) \<and> x = Inr True \<and> l = Inr True) w"
  by (rule redis_server.guard_locks[OF assms(1,2)]) (use assms in \<open>simp_all add: NewGuard_def\<close>)

lemmas guard_run = RecordFailure_def IsLocked_def redis_Eval_def redis_call_def luaIncrExpire_def ref_redis_def
  ref_INCR_def ref_EXPIRE_def NewGuard_def wp_simps Let_def empty_world_def int64_Seconds_def

theorem guard_locks_after_max_witness:
  "wp (do { xs \<leftarrow> record_failures (NewGuard ref_redis 1 minute minute) ''a@b.co'' 0;
            x \<leftarrow> RecordFailure (NewGuard ref_redis 1 minute minute) ''a@b.co'';
            l \<leftarrow> IsLocked (NewGuard ref_redis 1 minute minute) ''a@b.co''; ret (xs, x, l) })
    (\<lambda>(xs, x, l) w'. x = Inr True \<and> l = Inr True) empty_world"
proof -
  let ?m = "do { xs \<leftarrow> record_failures (NewGuard ref_redis 1 minute minute) ''a@b.co'' 0;
            x \<leftarrow> RecordFailure (NewGuard ref_redis 1 minute minute) ''a@b.co'';
            l \<leftarrow> IsLocked (NewGuard ref_redis 1 minute minute) ''a@b.co''; ret (xs, x, l) }"
  have t: "wp ?m (\<lambda>_ w'. w_now w' \<le> 10) empty_world"
    by (simp add: guard_run)
  have "wp ?m (\<lambda>(xs, x, l) w'. ms (w_now w') \<le> ms (w_now empty_world) + min (1000 * int64_Seconds minute) (px minute) \<longrightarrow>
       xs = replicate 0 (Inr False) \<and> x = Inr True \<and> l = Inr True) empty_world"
    by (rule guard_locks_after_max[OF ref.redis_server_axioms reachable_ref])
      (simp_all add: int64_Seconds_def empty_world_def)
  from wp_conj[OF t this] show ?thesis
    by (rule wp_mono) (auto simp: ms_def px_def int64_Seconds_def empty_world_def)
qed

text \<open>
  A successful login lifts the lock: with Redis reachable, \<^verbatim>\<open>Reset\<close> followed by
  \<^verbatim>\<open>IsLocked\<close> answers "not locked", whatever was counted before.
\<close>

theorem guard_reset_unlocks:
  assumes "redis_server rd kv" "reachable rd"
  shows "wp (do { _ \<leftarrow> Reset (NewGuard rd m window ttl) email; IsLocked (NewGuard rd m window ttl) email })
    (\<lambda>r _. r = Inr False) w"
  by (rule redis_server.Reset_unlocks[OF assms]) (simp add: NewGuard_def)

theorem guard_reset_unlocks_witness:
  "wp (do { _ \<leftarrow> Reset (NewGuard ref_redis 5 minute minute) ''a@b.co''; IsLocked (NewGuard ref_redis 5 minute minute) ''a@b.co'' })
    (\<lambda>r _. r = Inr False) empty_world"
  by (rule guard_reset_unlocks[OF ref.redis_server_axioms reachable_ref])

text \<open>
  With Redis reachable and the account not locked, \<^verbatim>\<open>AttemptsRemaining\<close> is what is left
  of \<^verbatim>\<open>maxAttempts\<close> after the failures of the running window.
\<close>

theorem guard_attempts_remaining:
  assumes "redis_server rd kv" "reachable rd" "g = NewGuard rd m window ttl" "int n \<le> m" "m < 2 ^ 63"
    and "live (w_now w) (kv (w_services w) (lockedKeyPrefix @ email)) = None"
    and "failed g (kv (w_services w)) email n B (w_now w)"
  shows "wp (AttemptsRemaining g email) (\<lambda>r w'. ms (w_now w') \<le> B \<longrightarrow> r = Inr (m - int n)) w"
  using redis_server.AttemptsRemaining_counts[OF assms(1,2) _ assms(6,7)] assms by (simp add: NewGuard_def)

theorem guard_attempts_remaining_witness:
  "wp (AttemptsRemaining (NewGuard ref_redis 5 minute minute) ''a@b.co'')
    (\<lambda>r _. r = Inr 2) (empty_world\<lparr>w_services := [attemptsKeyPrefix @ ''a@b.co'' \<mapsto> (''3'', Some 1000)]\<rparr>)"
proof -
  let ?w = "empty_world\<lparr>w_services := [attemptsKeyPrefix @ ''a@b.co'' \<mapsto> (''3'', Some 1000)]\<rparr>"
  let ?m = "AttemptsRemaining (NewGuard ref_redis 5 minute minute) ''a@b.co''"
  have "wp ?m (\<lambda>r w'. ms (w_now w') \<le> 1000 \<longrightarrow> r = Inr (5 - int 3)) ?w"
    by (rule guard_attempts_remaining[OF ref.redis_server_axioms reachable_ref])
      (auto simp: empty_world_def NewGuard_def counter_def itoa_consts)
  moreover have "wp ?m (\<lambda>_ w'. w_now w' \<le> 10) ?w"
    by (simp add: AttemptsRemaining_def getLocalEntry_def wp_redis_call_reachable guard_run split: option.split sum.split)
  ultimately have "wp ?m (\<lambda>r w'. (ms (w_now w') \<le> 1000 \<longrightarrow> r = Inr (5 - int 3)) \<and> w_now w' \<le> 10) ?w" by (rule wp_conj)
  then show ?thesis by (rule wp_mono) (auto simp: ms_def)
qed

end
