(* ===== verification/Ratelimit.thy ===== *)
theory Ratelimit
  imports Redis
begin

text \<open>
  \<^verbatim>\<open>internal/lib/ratelimit/ratelimit.go\<close>: the fixed-window limiter. A key's requests in one window
  are counted under one Redis key; when Redis fails the limiter lets the request through.
\<close>

section \<open>Package time\<close>

text \<open>\<^verbatim>\<open>t.Truncate(d)\<close> rounds down to a multiple of \<^verbatim>\<open>d\<close> since the zero time, the start of year 1.\<close>

definition Truncate :: "time \<Rightarrow> duration \<Rightarrow> time" where
  "Truncate t d = (if d \<le> 0 then t else t - (t - time_zero) mod d)"

section \<open>The limiter\<close>

definition rl_keyPrefix :: string where
  "rl_keyPrefix = ''rl:''"

record 'r Limiter =
  l_redis :: "'r redis"
  l_limit :: int
  l_window :: duration

definition NewLimiter :: "'r redis \<Rightarrow> int \<Rightarrow> duration \<Rightarrow> 'r Limiter" where
  "NewLimiter redisClient limit window = \<lparr>l_redis = redisClient, l_limit = limit, l_window = window\<rparr>"

definition redisKey :: "string \<Rightarrow> int \<Rightarrow> string" where
  "redisKey key windowStart = rl_keyPrefix @ key @ '':'' @ itoa_int windowStart"

text \<open>\<^verbatim>\<open>int64(l.window * 2 / time.Second)\<close>, division towards zero.\<close>

definition ttlSecs :: "duration \<Rightarrow> int" where
  "ttlSecs window = sgn window * (\<bar>window * 2\<bar> div second)"

definition Allow :: "'r Limiter \<Rightarrow> string \<Rightarrow> ('r world, bool \<times> string option) state" where
  "Allow l key = do {
     now \<leftarrow> time_Now;
     let windowStart = Unix (Truncate now (l_window l));
     x \<leftarrow> redis_Eval (l_redis l) (luaIncrExpire (l_redis l) (redisKey key windowStart) (ttlSecs (l_window l)));
     ret (case x of
        Inl err \<Rightarrow> (True, Some (''rate limiter redis error: '' @ err))
      | Inr cnt \<Rightarrow> (cnt \<le> l_limit l, None))
   }"

definition Limit :: "'r Limiter \<Rightarrow> int" where
  "Limit l = l_limit l"

definition Window :: "'r Limiter \<Rightarrow> duration" where
  "Window l = l_window l"

section \<open>Keys\<close>

lemma itoa_int_no_colon: "CHR '':'' \<notin> set (itoa_int i)"
proof -
  have "CHR '':'' \<notin> set (itoa n)" for n
    using itoa_digits[of n] by (auto simp: list_all_iff is_digit_def)
  then show ?thesis by (simp add: itoa_int_def)
qed

lemma itoa_int_inj: "itoa_int i = itoa_int j \<Longrightarrow> i = j"
proof -
  have d: "CHR ''-'' \<notin> set (itoa n)" for n
    using itoa_digits[of n] by (auto simp: list_all_iff is_digit_def)
  have inj: "itoa m = itoa n \<Longrightarrow> m = n" for m n by (metis dec_val_itoa)
  have "itoa m \<noteq> CHR ''-'' # itoa n" "CHR ''-'' # itoa n \<noteq> itoa m" for m n using d[of m] by (metis list.set_intros(1))+
  then show "itoa_int i = itoa_int j \<Longrightarrow> i = j"
    using inj[of "nat i" "nat j"] inj[of "nat (- i)" "nat (- j)"] by (auto simp: itoa_int_def split: if_splits)
qed

text \<open>
  Two requests are counted together only when they have the same key in the same window:
  the Redis keys of different clients, or of different windows, are different, even when a
  client's key contains colons (an IPv6 address, or the prefix of the login limiter).
\<close>

theorem redisKey_injective: "redisKey k s = redisKey k' s' \<longleftrightarrow> k = k' \<and> s = s'"
proof
  assume "redisKey k s = redisKey k' s'"
  then have eq: "k @ CHR '':'' # itoa_int s = k' @ CHR '':'' # itoa_int s'" by (simp add: redisKey_def rl_keyPrefix_def)
  have "LastIndex (k @ CHR '':'' # itoa_int s) (CHR '':'') = Some (length k)"
    "LastIndex (k' @ CHR '':'' # itoa_int s') (CHR '':'') = Some (length k')"
    by (rule LastIndex_append[OF itoa_int_no_colon])+
  with eq have "length k = length k'" by simp
  with eq show "k = k' \<and> s = s'" using itoa_int_inj by auto
qed simp

section \<open>Counting\<close>

text \<open>Requests of one client, one after the other.\<close>

fun allows :: "'r Limiter \<Rightarrow> string \<Rightarrow> nat \<Rightarrow> ('r world, (bool \<times> string option) list) state" where
  "allows l key 0 = ret []"
| "allows l key (Suc n) = do { x \<leftarrow> Allow l key; xs \<leftarrow> allows l key n; ret (x # xs) }"

lemma forward_Allow [forward_intros]: "forward (Allow l key)"
  unfolding Allow_def Let_def by (intro forward_intros)

lemma forward_allows [forward_intros]: "forward (allows l key n)"
  by (induction n) (auto intro!: forward_intros)

text \<open>The last nanosecond of the window that contains \<open>t\<close>.\<close>

definition window_end :: "time \<Rightarrow> duration \<Rightarrow> time" where
  "window_end t d = Truncate t d + d - 1"

lemma Truncate_le: "0 < d \<Longrightarrow> Truncate t d \<le> t"
  by (simp add: Truncate_def)

lemma Truncate_same:
  assumes "0 < d" "t \<le> u" "u \<le> window_end t d"
  shows "Truncate u d = Truncate t d"
proof -
  let ?a = "t - time_zero" and ?b = "u - time_zero"
  have "0 \<le> ?a mod d" using assms(1) by simp
  then have "?a - ?a mod d \<le> ?b" using assms(2) by linarith
  moreover have "?b < ?a - ?a mod d + d" using assms by (simp add: window_end_def Truncate_def)
  ultimately have "?b div d = ?a div d"
    using assms(1) by (intro int_div_pos_eq[where r = "?b - (?a - ?a mod d)"]) (auto simp: minus_mod_eq_mult_div)
  then have "?b - ?b mod d = ?a - ?a mod d" by (simp add: minus_mod_eq_mult_div)
  then show ?thesis using assms(1) by (simp add: Truncate_def)
qed

context redis_server
begin

lemma allows_count:
  assumes "reachable rd" "l_redis l = rd" "second \<le> l_window l" "int n + int k < 2 ^ 63"
    and "counter (kv (w_services w)) (redisKey key (Unix s)) (ttlSecs (l_window l)) n B (w_now w)"
    and "ms e \<le> B" "\<And>u. w_now w \<le> u \<Longrightarrow> u \<le> e \<Longrightarrow> Truncate u (l_window l) = s"
  shows "wp (allows l key k) (\<lambda>xs w'. w_now w' \<le> e \<longrightarrow>
    xs = map (\<lambda>i. (int n + int i + 1 \<le> l_limit l, None)) [0..<k]) w"
  using assms(4,5,7)
proof (induction k arbitrary: n w)
  case 0
  then show ?case by (simp add: wp_simps)
next
  case (Suc k)
  let ?t = "w_now w + int (w_ticks w (w_reads w))"
  let ?w1 = "w\<lparr>w_now := ?t, w_reads := Suc (w_reads w)\<rparr>"
  let ?s = "ttlSecs (l_window l)"
  have "0 < ?s" using assms(3) by (simp add: ttlSecs_def pos_imp_zdiv_pos_iff)
  show ?case
  proof (cases "?t \<le> e")
    case True
    then have s: "Truncate ?t (l_window l) = s" by (intro Suc.prems(3)) simp_all
    have c: "counter (kv (w_services ?w1)) (redisKey key (Unix s)) ?s n B (w_now ?w1)"
      using Suc.prems(2) live_gone ms_mono[of "w_now w" ?t] by (auto simp: counter_def split: if_splits)
    have b: "int n + 1 < 2 ^ 63" using Suc.prems(1) by simp
    show ?thesis
      unfolding allows.simps Allow_def wp_simps Let_def assms(2) s
    proof (rule wp_mono[OF wp_Eval_counts[OF assms(1) c \<open>0 < ?s\<close> b]], elim conjE, goal_cases)
      case (1 x w')
      show ?case
      proof (cases "w_now w' \<le> e")
        case True
        with 1 have x: "x = Inr (int n + 1)"
          and c': "counter (kv (w_services w')) (redisKey key (Unix s)) ?s (n + 1) B (w_now w')"
          using ms_mono[OF True] assms(6) by auto
        have u: "Truncate u (l_window l) = s" if "w_now w' \<le> u" "u \<le> e" for u
          using that 1(1) by (intro Suc.prems(3)) simp_all
        show ?thesis
          using Suc.prems(1) by (intro wp_mono[OF Suc.IH[OF _ c' u]]) (auto simp: x map_upt_Suc ac_simps simp del: upt_Suc)
      next
        case False
        show ?thesis by (rule wp_forward[OF forward_allows order_refl]) (use False in auto)
      qed
    qed
  next
    case False
    show ?thesis
      unfolding allows.simps Allow_def wp_simps Let_def
      by (rule wp_forward[OF forward_redis_Eval, where t = ?t], simp, rule wp_forward[OF forward_allows])
        (use False in auto)
  qed
qed

end

text \<open>
  Claim C19. The limiter enforces its limit: with Redis reachable, of \<open>n\<close> requests with one key
  within one window exactly the first \<^verbatim>\<open>limit\<close> are allowed, when the window's counter did not
  exist before.
\<close>

theorem limiter_enforces_limit:
  assumes "redis_server rd kv" "reachable rd" "second \<le> window" "int n < 2 ^ 63"
    and "live (w_now w) (kv (w_services w) (redisKey key (Unix (Truncate (w_now w) window)))) = None"
  shows "wp (allows (NewLimiter rd limit window) key n) (\<lambda>xs w'. w_now w' \<le> window_end (w_now w) window \<longrightarrow>
    xs = map (\<lambda>i. (int i < limit, None)) [0..<n]) w"
proof -
  let ?B = "ms (w_now w) + 1000 * ttlSecs window" and ?e = "window_end (w_now w) window"
  have c: "counter (kv (w_services w)) (redisKey key (Unix (Truncate (w_now w) window)))
      (ttlSecs (l_window (NewLimiter rd limit window))) 0 ?B (w_now w)"
    using assms(5) by (simp add: counter_def NewLimiter_def)
  have "?e \<le> w_now w + window" using assms(3) Truncate_le[of window "w_now w"]
    by (simp add: window_end_def)
  moreover have "window \<le> second * ttlSecs window"
    using assms(3) by (simp add: ttlSecs_def)
  ultimately have "ms ?e \<le> ms (w_now w + second * ttlSecs window)" by (intro ms_mono) simp
  also have "\<dots> = ?B" by (simp add: ms_def)
  finally have e: "ms ?e \<le> ?B" .
  have u: "Truncate u (l_window (NewLimiter rd limit window)) = Truncate (w_now w) window"
    if "w_now w \<le> u" "u \<le> ?e" for u
    using Truncate_same[OF _ that] assms(3) by (simp add: NewLimiter_def)
  from redis_server.allows_count[OF assms(1,2) _ _ _ c e u, of n] assms(3,4) show ?thesis
    by (simp add: NewLimiter_def add1_zle_eq)
qed

theorem limiter_enforces_limit_witness:
  "wp (allows (NewLimiter ref_redis 1 minute) ''9.9.9.9'' 2) (\<lambda>xs w'. xs = [(True, None), (False, None)]) empty_world"
proof -
  let ?m = "allows (NewLimiter ref_redis 1 minute) ''9.9.9.9'' 2"
  have "wp ?m (\<lambda>xs w'. w_now w' \<le> window_end (w_now empty_world) minute \<longrightarrow>
      xs = map (\<lambda>i. (int i < 1, None)) [0..<2]) empty_world"
    by (rule limiter_enforces_limit[OF ref.redis_server_axioms reachable_ref]) (simp_all add: empty_world_def)
  moreover have "wp ?m (\<lambda>_ w'. w_now w' \<le> 10) empty_world"
    by (simp add: numeral_2_eq_2 Allow_def redis_Eval_def wp_redis_call_reachable NewLimiter_def wp_simps Let_def
        empty_world_def)
  ultimately have "wp ?m (\<lambda>xs w'. (w_now w' \<le> window_end (w_now empty_world) minute \<longrightarrow>
      xs = map (\<lambda>i. (int i < 1, None)) [0..<2]) \<and> w_now w' \<le> 10) empty_world" by (rule wp_conj)
  then show ?thesis
    by (rule wp_mono) (simp add: window_end_def Truncate_def time_zero_def empty_world_def numeral_2_eq_2)
qed

end
