(* ===== verification/Interceptors.thy ===== *)
theory Interceptors
  imports Ratelimit
begin

text \<open>
  \<^verbatim>\<open>internal/interceptor\<close>: the logging and the rate-limiting interceptor, and the chain of both in
  front of the handlers that \<^verbatim>\<open>app.New\<close> installs. An interceptor takes the handler as a function.
\<close>

section \<open>Durations as text\<close>

text \<open>
  \<^verbatim>\<open>Duration.String\<close>, which \<^verbatim>\<open>%v\<close> prints: a fraction without trailing zeros, units from hours to
  nanoseconds. \<^verbatim>\<open>Duration.Round\<close> rounds half away from zero.
\<close>

definition fmtFrac :: "nat \<Rightarrow> nat \<Rightarrow> string" where
  "fmtFrac u prec =
     (let s = itoa (u mod 10 ^ prec);
          ds = replicate (prec - length s) (CHR ''0'') @ s;
          ts = rev (dropWhile (\<lambda>c. c = CHR ''0'') (rev ds))
      in if ts = [] then [] else CHR ''.'' # ts)"

definition Duration_abs_String :: "nat \<Rightarrow> string" where
  "Duration_abs_String u =
     (if u = 0 then ''0s''
      else if u < 1000 then itoa u @ ''ns''
      else if u < 1000000 then itoa (u div 1000) @ fmtFrac u 3 @ bytes_of [194, 181] @ ''s''
      else if u < 1000000000 then itoa (u div 1000000) @ fmtFrac u 6 @ ''ms''
      else let s = u div 1000000000; m = s div 60; h = m div 60;
               secs = itoa (s mod 60) @ fmtFrac u 9 @ ''s''
           in if m = 0 then secs
              else if h = 0 then itoa (m mod 60) @ ''m'' @ secs
              else itoa h @ ''h'' @ itoa (m mod 60) @ ''m'' @ secs)"

definition Duration_String :: "duration \<Rightarrow> string" where
  "Duration_String d = (if d < 0 then CHR ''-'' # Duration_abs_String (nat (- d)) else Duration_abs_String (nat d))"

definition Duration_Round :: "duration \<Rightarrow> duration \<Rightarrow> duration" where
  "Duration_Round d m =
     (if m \<le> 0 then d
      else let r = \<bar>d\<bar> mod m in sgn d * (if r + r < m then \<bar>d\<bar> - r else \<bar>d\<bar> + m - r))"

section \<open>Rate limiting\<close>

definition sensitiveMethods :: "bool gomap" where
  "sensitiveMethods = [(''Login'', True), (''Register'', True), (''ChangePassword'', True),
     (''RequestPasswordReset'', True), (''VerifyResetCode'', True), (''ResetPassword'', True)]"

definition is_sensitive :: "string \<Rightarrow> bool" where
  "is_sensitive method = (case map_of sensitiveMethods method of None \<Rightarrow> False | Some b \<Rightarrow> b)"

definition too_many_requests :: "duration \<Rightarrow> rpc_error" where
  "too_many_requests d = Status ResourceExhausted
     (''too many requests from your IP, try again in '' @ Duration_String d)"

definition too_many_logins :: "duration \<Rightarrow> rpc_error" where
  "too_many_logins d = Status ResourceExhausted
     (''too many login attempts from your IP, try again in '' @ Duration_String d)"

definition RateLimit ::
  "'r Limiter \<Rightarrow> 'r Limiter \<Rightarrow> string \<Rightarrow> (ctx \<Rightarrow> 'q \<Rightarrow> ('r world, rpc_error + 'b) state) \<Rightarrow>
   ctx \<Rightarrow> 'q \<Rightarrow> ('r world, rpc_error + 'b) state" where
  "RateLimit globalLimiter loginLimiter fullMethod handler ctx req = do {
     let ip = extractIP ctx;
     let method = shortMethod fullMethod;
     (allowed, err) \<leftarrow> Allow globalLimiter ip;
     if err = None \<and> \<not> allowed then ret (Inl (too_many_requests (Window globalLimiter)))
     else if is_sensitive method then do {
       (allowed', err') \<leftarrow> Allow loginLimiter (''auth:'' @ ip);
       if err' = None \<and> \<not> allowed' then ret (Inl (too_many_logins (Window loginLimiter)))
       else handler ctx req
     } else handler ctx req
   }"

section \<open>Logging\<close>

text \<open>The line that the interceptor writes, returned beside the answer.\<close>

record access_line =
  al_method :: string
  al_ip :: string
  al_dur :: duration
  al_status :: string

fun code_String :: "code \<Rightarrow> string" where
  "code_String InvalidArgument = ''InvalidArgument''"
| "code_String AlreadyExists = ''AlreadyExists''"
| "code_String Internal = ''Internal''"
| "code_String Unauthenticated = ''Unauthenticated''"
| "code_String ResourceExhausted = ''ResourceExhausted''"
| "code_String NotFound = ''NotFound''"

text \<open>A panic passes through the interceptor, which then logs nothing.\<close>

definition Logging ::
  "string \<Rightarrow> (ctx \<Rightarrow> 'q \<Rightarrow> ('r world, rpc_error + 'b) state) \<Rightarrow>
   ctx \<Rightarrow> 'q \<Rightarrow> ('r world, (rpc_error + 'b) \<times> access_line option) state" where
  "Logging fullMethod handler ctx req = do {
     start \<leftarrow> time_Now;
     r \<leftarrow> handler ctx req;
     let line = (\<lambda>status now. \<lparr>al_method = shortMethod fullMethod, al_ip = peerIP ctx,
       al_dur = Duration_Round (now - start) 1000000, al_status = status\<rparr>);
     case r of
        Inl (GoPanic e) \<Rightarrow> ret (Inl (GoPanic e), None)
      | Inl (Status c msg) \<Rightarrow> do { now \<leftarrow> time_Now; ret (Inl (Status c msg), Some (line (code_String c) now)) }
      | Inr resp \<Rightarrow> do { now \<leftarrow> time_Now; ret (Inr resp, Some (line ''OK'' now)) }
   }"

section \<open>The chain\<close>

fun rpc_name :: "rpc \<Rightarrow> string" where
  "rpc_name (RpcRegister _) = ''Register''"
| "rpc_name (RpcLogin _) = ''Login''"
| "rpc_name (RpcValidateToken _) = ''ValidateToken''"
| "rpc_name (RpcRefreshToken _) = ''RefreshToken''"
| "rpc_name (RpcLogout _) = ''Logout''"
| "rpc_name RpcLogoutAll = ''LogoutAll''"
| "rpc_name RpcListSessions = ''ListSessions''"
| "rpc_name (RpcRevokeSession _) = ''RevokeSession''"
| "rpc_name (RpcChangePassword _) = ''ChangePassword''"
| "rpc_name (RpcRequestPasswordReset _) = ''RequestPasswordReset''"
| "rpc_name (RpcVerifyResetCode _) = ''VerifyResetCode''"
| "rpc_name (RpcResetPassword _) = ''ResetPassword''"

definition FullMethodName :: "rpc \<Rightarrow> string" where
  "FullMethodName r = ''/api.AuthService/'' @ rpc_name r"

text \<open>\<^verbatim>\<open>grpc.ChainUnaryInterceptor(Logging, RateLimit)\<close>: the first one is the outermost.\<close>

definition grpc_call ::
  "'r Limiter \<Rightarrow> 'r Limiter \<Rightarrow> 'r world golib \<Rightarrow> 'r world AuthService \<Rightarrow> ctx \<Rightarrow> rpc \<Rightarrow>
   ('r world, (rpc_error + rpc_reply) \<times> access_line option) state" where
  "grpc_call globalLimiter loginLimiter L s ctx r =
     Logging (FullMethodName r)
       (RateLimit globalLimiter loginLimiter (FullMethodName r) (dispatch L s)) ctx r"

section \<open>What a whole call keeps\<close>

text \<open>A property that reading the clock, the limiters and the handlers keep is kept by a call.\<close>

locale call_chain =
  fixes gl ll :: "'r Limiter"
    and L :: "'r world golib"
    and s :: "'r world AuthService"
    and P :: "'r world \<Rightarrow> bool"
  assumes tick: "P w \<Longrightarrow> wp time_Now (\<lambda>_. P) w"
    and allow_global: "P w \<Longrightarrow> wp (Allow gl k) (\<lambda>_. P) w"
    and allow_login: "P w \<Longrightarrow> wp (Allow ll k) (\<lambda>_. P) w"
    and handled: "P w \<Longrightarrow> wp (dispatch L s ctx r) (\<lambda>_. P) w"
begin

lemma RateLimit_keeps: "P w \<Longrightarrow> wp (RateLimit gl ll m (dispatch L s) ctx r) (\<lambda>_. P) w"
  unfolding RateLimit_def Let_def wp_bind
  by (rule wp_mono[OF allow_global])
    (auto simp: wp_simps split: prod.split intro!: handled wp_mono[OF allow_login])

lemma grpc_call_keeps: "P w \<Longrightarrow> wp (grpc_call gl ll L s ctx r) (\<lambda>_. P) w"
  unfolding grpc_call_def Logging_def Let_def wp_bind
  by (rule wp_mono[OF tick], assumption, rule wp_mono[OF RateLimit_keeps])
    (auto simp: wp_bind wp_return split: sum.split rpc_error.split intro!: wp_mono[OF tick])

end

section \<open>Properties\<close>

lemma shortMethod_rpc: "shortMethod (FullMethodName r) = rpc_name r"
proof -
  have "CHR ''/'' \<notin> set (rpc_name r)" by (cases r) simp_all
  from shortMethod_append[OF this, of "''/api.AuthService''"] show ?thesis by (simp add: FullMethodName_def)
qed

text \<open>
  Claim C31. When Redis cannot be reached the rate limiter fails open: it runs the handler, after
  some time has passed and with nothing else changed, whatever the limits and the method.
\<close>

theorem RateLimit_fails_open:
  assumes "\<And>t r. rd_send (l_redis gl) t r \<noteq> None" "\<And>t r. rd_send (l_redis ll) t r \<noteq> None"
  shows "\<exists>t k. w_now w \<le> t \<and>
    run_state (RateLimit gl ll m handler ctx req) w = run_state (handler ctx req) (w\<lparr>w_now := t, w_reads := k\<rparr>)"
proof -
  have allow: "\<exists>t k err. w_now w \<le> t \<and> run_state (Allow l key) w = ((True, Some err), w\<lparr>w_now := t, w_reads := k\<rparr>)"
    if "\<And>t r. rd_send (l_redis l) t r \<noteq> None" for l key and w :: "'a world"
  proof -
    have "wp (Allow l key) (\<lambda>r w'. \<exists>t k err. w_now w \<le> t \<and> r = (True, Some err) \<and> w' = w\<lparr>w_now := t, w_reads := k\<rparr>) w"
      unfolding Allow_def redis_Eval_def redis_call_def wp_simps Let_def
      by (subst option.case_eq_if)
        (auto simp: that wp_simps intro!: exI[of _ "w_now w + int (w_ticks w (w_reads w)) + int (w_ticks w (Suc (w_reads w)))"]
            exI[of _ "Suc (Suc (w_reads w))"])
    then show ?thesis by (auto simp: wp_def split: prod.splits)
  qed
  obtain t k err where 1: "w_now w \<le> t"
    "run_state (Allow gl (extractIP ctx)) w = ((True, Some err), w\<lparr>w_now := t, w_reads := k\<rparr>)"
    using allow[OF assms(1), of w] by metis
  obtain t' k' err' where 2: "t \<le> t'" "run_state (Allow ll (''auth:'' @ extractIP ctx)) (w\<lparr>w_now := t, w_reads := k\<rparr>) =
      ((True, Some err'), w\<lparr>w_now := t', w_reads := k'\<rparr>)"
    using allow[OF assms(2), of "w\<lparr>w_now := t, w_reads := k\<rparr>" "''auth:'' @ extractIP ctx"] by auto
  show ?thesis
  proof (cases "is_sensitive (shortMethod m)")
    case True
    with 1 2 show ?thesis
      by (intro exI[of _ t'] exI[of _ k']) (simp add: RateLimit_def State_Monad.bind_def Let_def)
  next
    case False
    with 1 show ?thesis
      by (intro exI[of _ t] exI[of _ k]) (simp add: RateLimit_def State_Monad.bind_def Let_def)
  qed
qed

theorem RateLimit_fails_open_witness:
  "\<exists>t k. run_state (RateLimit (NewLimiter (ref_redis\<lparr>rd_send := (\<lambda>_ _. Some ''down'')\<rparr>) 0 minute)
      (NewLimiter (ref_redis\<lparr>rd_send := (\<lambda>_ _. Some ''down'')\<rparr>) 0 minute) ''/api.AuthService/Login''
      (\<lambda>_ _. ret (Inr ())) \<lparr>metadata = None, peer = None\<rparr> ()) empty_world
    = (Inr (), empty_world\<lparr>w_now := t, w_reads := k\<rparr>)"
proof -
  have "\<exists>t k. w_now empty_world \<le> t \<and> run_state (RateLimit (NewLimiter (ref_redis\<lparr>rd_send := (\<lambda>_ _. Some ''down'')\<rparr>) 0 minute)
      (NewLimiter (ref_redis\<lparr>rd_send := (\<lambda>_ _. Some ''down'')\<rparr>) 0 minute) ''/api.AuthService/Login''
      (\<lambda>_ _. ret (Inr ())) \<lparr>metadata = None, peer = None\<rparr> ()) empty_world
    = run_state (ret (Inr ())) (empty_world\<lparr>w_now := t, w_reads := k\<rparr>)"
    by (rule RateLimit_fails_open) (simp_all add: NewLimiter_def)
  then show ?thesis by (auto simp: State_Monad.return_def)
qed

lemma limiter_sel: "l_window (NewLimiter rd limit window) = window"
  by (simp add: NewLimiter_def)

text \<open>
  The stores of the process: what the handlers of a service on the in-memory adapters change.
\<close>

definition stores :: "'r world \<Rightarrow> UserStore_state \<times> SessionStore_state \<times> Cache_state \<times> ResetStore_state \<times> task list" where
  "stores w = (w_users w, w_sessions w, w_cache w, w_resets w, w_tasks w)"

lemma Allow_stores: "wp (Allow l key) (\<lambda>_ w'. stores w' = stores w) w"
  unfolding Allow_def redis_Eval_def redis_call_def Let_def
  by (auto simp: wp_simps Let_def stores_def split: option.split prod.split)

text \<open>
  A client over the limit is cut off: when \<open>n \<ge> limit\<close> requests of an address are
  already counted in the running window, the next one is refused with "too many requests", and
  the handler does not run: no store changes and no goroutine is started.
\<close>

theorem RateLimit_refuses_over_limit:
  assumes "redis_server rd kv" "reachable rd" "second \<le> window" "limit \<le> int n" "int n + 1 < 2 ^ 63"
    and "forward (handler ctx req)"
    and "counter (kv (w_services w)) (redisKey (extractIP ctx) (Unix (Truncate (w_now w) window))) (ttlSecs window) n
      (ms (window_end (w_now w) window)) (w_now w)"
  shows "wp (RateLimit (NewLimiter rd limit window) ll m handler ctx req) (\<lambda>r w'.
    w_now w' \<le> window_end (w_now w) window \<longrightarrow> r = Inl (too_many_requests window) \<and> stores w' = stores w) w"
proof -
  let ?l = "NewLimiter rd limit window" and ?e = "window_end (w_now w) window"
  have u: "Truncate u (l_window ?l) = Truncate (w_now w) window" if "w_now w \<le> u" "u \<le> ?e" for u
    using Truncate_same[OF _ that] assms(3) by (simp add: NewLimiter_def)
  have c: "counter (kv (w_services w)) (redisKey (extractIP ctx) (Unix (Truncate (w_now w) window)))
      (ttlSecs (l_window ?l)) n (ms ?e) (w_now w)" using assms(7) by (simp add: limiter_sel)
  have "wp (allows ?l (extractIP ctx) 1) (\<lambda>xs w'. w_now w' \<le> ?e \<longrightarrow>
      xs = map (\<lambda>i. (int n + int i + 1 \<le> l_limit ?l, None)) [0..<1]) w"
    by (rule redis_server.allows_count[OF assms(1,2) _ _ _ c order_refl u])
      (use assms(3,5) in \<open>simp_all add: NewLimiter_def\<close>)
  then have "wp (Allow ?l (extractIP ctx)) (\<lambda>x w'. w_now w' \<le> ?e \<longrightarrow> x = (False, None)) w"
    unfolding One_nat_def allows.simps wp_bind
    by (rule wp_mono) (use assms(4) in \<open>auto simp: wp_simps NewLimiter_def\<close>)
  from wp_conj[OF this Allow_stores] show ?thesis
    unfolding RateLimit_def Let_def wp_bind
  proof (rule wp_mono, elim conjE, goal_cases)
    case (1 x w')
    show ?case
    proof (cases "w_now w' \<le> ?e")
      case True
      with 1 show ?thesis by (simp add: wp_simps Window_def NewLimiter_def)
    next
      case False
      show ?thesis
        by (rule wp_forward[where t = "w_now w'"]) (use False assms(6) in \<open>auto intro!: forward_intros\<close>)
    qed
  qed
qed

theorem RateLimit_refuses_over_limit_witness:
  "wp (RateLimit (NewLimiter ref_redis 3 minute) (NewLimiter ref_redis 1 minute) ''/api.AuthService/Logout''
      (\<lambda>_ _. ret (Inr ())) \<lparr>metadata = None, peer = Some ''9.9.9.9:1''\<rparr> ()) (\<lambda>r _. r = Inl (too_many_requests minute))
    (empty_world\<lparr>w_services := [redisKey ''9.9.9.9'' 0 \<mapsto> (''3'', Some 120000)]\<rparr>)"
proof -
  let ?w = "empty_world\<lparr>w_services := [redisKey ''9.9.9.9'' 0 \<mapsto> (''3'', Some 120000)]\<rparr>"
  let ?ctx = "\<lparr>metadata = None, peer = Some ''9.9.9.9:1''\<rparr>"
  let ?m = "RateLimit (NewLimiter ref_redis 3 minute) (NewLimiter ref_redis 1 minute) ''/api.AuthService/Logout''
      (\<lambda>_ _. ret (Inr ())) ?ctx ()"
  have ip: "extractIP ?ctx = ''9.9.9.9''" by (simp add: extractIP_def peerIP_def)
  have "wp ?m (\<lambda>r w'. w_now w' \<le> window_end (w_now ?w) minute \<longrightarrow> r = Inl (too_many_requests minute) \<and> stores w' = stores ?w) ?w"
    by (rule RateLimit_refuses_over_limit[OF ref.redis_server_axioms reachable_ref, where n = 3])
      (auto simp: ip counter_def empty_world_def window_end_def Truncate_def time_zero_def Unix_def itoa_consts ms_def
        intro: forward_intros)
  moreover have "wp ?m (\<lambda>_ w'. w_now w' \<le> 10) ?w"
    by (simp add: RateLimit_def Allow_def redis_Eval_def wp_redis_call_reachable NewLimiter_def wp_simps Let_def
        empty_world_def split: sum.split)
  ultimately have "wp ?m (\<lambda>r w'. (w_now w' \<le> window_end (w_now ?w) minute \<longrightarrow>
      r = Inl (too_many_requests minute) \<and> stores w' = stores ?w) \<and> w_now w' \<le> 10) ?w" by (rule wp_conj)
  then show ?thesis
    by (rule wp_mono) (simp add: window_end_def Truncate_def time_zero_def empty_world_def)
qed

end
