(* ===== verification/Redis_Cache.thy ===== *)
theory Redis_Cache
  imports Redis
begin

text \<open>
  \<^verbatim>\<open>internal/adapters/cache/redis\<close>: the session cache (\<^verbatim>\<open>cache.go\<close>) and the store of reset codes and
  tokens (\<^verbatim>\<open>reset.go\<close>) on Redis. The values are JSON texts: the encoders that \<^verbatim>\<open>encoding/json\<close>
  derives for the three structs, and what \<^verbatim>\<open>cjson\<close> does to a code's text inside the script, are
  parameters.
\<close>

section \<open>Encodings\<close>

record otpData =
  od_UserID :: string
  od_OTPHash :: string
  od_Attempts :: int

record resetTokenData =
  rtd_UserID :: string
  rtd_Email :: string

text \<open>
  \<open>cjson_incr\<close>: \<^verbatim>\<open>cjson.decode\<close>, the assignment \<^verbatim>\<open>d.attempts = (d.attempts or 0) + 1\<close> and
  \<^verbatim>\<open>cjson.encode\<close>, with the new count; an error aborts the script.
\<close>

record json =
  jm_session :: "CachedSession \<Rightarrow> string + string"
  ju_session :: "string \<Rightarrow> string + CachedSession"
  jm_otp :: "otpData \<Rightarrow> string + string"
  ju_otp :: "string \<Rightarrow> string + otpData"
  jm_reset :: "resetTokenData \<Rightarrow> string + string"
  ju_reset :: "string \<Rightarrow> string + resetTokenData"
  cjson_incr :: "string \<Rightarrow> string + (string \<times> int)"

section \<open>The session cache\<close>

definition keyPrefix :: string where "keyPrefix = ''refresh:''"

record 'r Cache =
  ca_client :: "'r redis"
  ca_json :: json

definition redis_cache_Set :: "'r Cache \<Rightarrow> string \<Rightarrow> CachedSession \<Rightarrow> duration \<Rightarrow> ('r world, port_error option) state" where
  "redis_cache_Set c tokenHash sess ttl =
     (if ttl \<le> 0 then ret None
      else case jm_session (ca_json c) sess of
        Inl err \<Rightarrow> ret (Some (ErrOther (''cache marshal: '' @ err)))
      | Inr data \<Rightarrow> do {
          x \<leftarrow> redis_call (ca_client c) (\<lambda>t r. ((), rd_SET (ca_client c) (keyPrefix @ tokenHash) data ttl t r));
          ret (case x of Inl err \<Rightarrow> Some (ErrOther (''cache set: '' @ err)) | Inr _ \<Rightarrow> None)
        })"

definition redis_cache_Get :: "'r Cache \<Rightarrow> string \<Rightarrow> ('r world, port_error + CachedSession) state" where
  "redis_cache_Get c tokenHash = do {
     x \<leftarrow> redis_call (ca_client c) (rd_GET (ca_client c) (keyPrefix @ tokenHash));
     ret (case x of
        Inl err \<Rightarrow> Inl (ErrOther (''cache get: '' @ err))
      | Inr None \<Rightarrow> Inl (ErrOther ''cache get: redis: nil'')
      | Inr (Some data) \<Rightarrow>
          (case ju_session (ca_json c) data of
             Inl err \<Rightarrow> Inl (ErrOther (''cache unmarshal: '' @ err))
           | Inr sess \<Rightarrow> Inr sess))
   }"

definition redis_cache_Delete :: "'r Cache \<Rightarrow> string \<Rightarrow> ('r world, port_error option) state" where
  "redis_cache_Delete c tokenHash = do {
     x \<leftarrow> redis_call (ca_client c) (\<lambda>t r. ((), rd_DEL (ca_client c) [keyPrefix @ tokenHash] t r));
     ret (case x of Inl err \<Rightarrow> Some (ErrOther err) | Inr _ \<Rightarrow> None)
   }"

definition redis_SessionCache :: "'r Cache \<Rightarrow> 'r world SessionCache" where
  "redis_SessionCache c = \<lparr>sc_Set = redis_cache_Set c, sc_Get = redis_cache_Get c, sc_Delete = redis_cache_Delete c\<rparr>"

section \<open>Reset codes and tokens\<close>

definition otpPrefix :: string where "otpPrefix = ''pwreset:''"
definition resetTokenPrefix :: string where "resetTokenPrefix = ''pwreset_token:''"

definition redis_SaveOTP ::
  "crypto \<Rightarrow> 'r Cache \<Rightarrow> string \<Rightarrow> string \<Rightarrow> string \<Rightarrow> duration \<Rightarrow> ('r world, port_error option) state" where
  "redis_SaveOTP C c userID email otpHash ttl =
     (case jm_otp (ca_json c) \<lparr>od_UserID = userID, od_OTPHash = otpHash, od_Attempts = 0\<rparr> of
        Inl err \<Rightarrow> ret (Some (ErrOther (''marshal otp: '' @ err)))
      | Inr data \<Rightarrow> do {
          x \<leftarrow> redis_call (ca_client c) (\<lambda>t r. ((), rd_SET (ca_client c) (otpPrefix @ Hash C email) data ttl t r));
          ret (case x of Inl err \<Rightarrow> Some (ErrOther (''save otp: '' @ err)) | Inr _ \<Rightarrow> None)
        })"

definition redis_GetOTP :: "crypto \<Rightarrow> 'r Cache \<Rightarrow> string \<Rightarrow> ('r world, port_error + OTPRecord) state" where
  "redis_GetOTP C c email = do {
     x \<leftarrow> redis_call (ca_client c) (rd_GET (ca_client c) (otpPrefix @ Hash C email));
     ret (case x of
        Inl err \<Rightarrow> Inl (ErrOther (''get otp: '' @ err))
      | Inr None \<Rightarrow> Inl ErrResetCodeNotFound
      | Inr (Some raw) \<Rightarrow>
          (case ju_otp (ca_json c) raw of
             Inl err \<Rightarrow> Inl (ErrOther (''unmarshal otp: '' @ err))
           | Inr d \<Rightarrow> Inr \<lparr>o_UserID = od_UserID d, o_OTPHash = od_OTPHash d, o_Attempts = od_Attempts d\<rparr>))
   }"

definition incrOTPScript :: "'r Cache \<Rightarrow> string \<Rightarrow> time \<Rightarrow> 'r \<Rightarrow> (string + int) \<times> 'r" where
  "incrOTPScript c key t r =
     (case rd_GET (ca_client c) key t r of
        (None, r1) \<Rightarrow> (Inr (-1), r1)
      | (Some raw, r1) \<Rightarrow>
          (case cjson_incr (ca_json c) raw of
             Inl err \<Rightarrow> (Inl err, r1)
           | Inr (enc, attempts) \<Rightarrow>
               (case rd_PTTL (ca_client c) key t r1 of
                  (ttl, r2) \<Rightarrow>
                    if ttl \<le> 0 then (Inr (-1), r2)
                    else (Inr attempts, rd_SET_PX (ca_client c) key enc ttl t r2))))"

definition redis_IncrOTPAttempts :: "crypto \<Rightarrow> 'r Cache \<Rightarrow> string \<Rightarrow> ('r world, port_error + int) state" where
  "redis_IncrOTPAttempts C c email = do {
     let key = otpPrefix @ Hash C email;
     x \<leftarrow> redis_Eval (ca_client c) (incrOTPScript c key);
     ret (case x of
        Inl err \<Rightarrow> Inl (ErrOther (''incr otp attempts: '' @ err))
      | Inr n \<Rightarrow> if n = -1 then Inl ErrResetCodeNotFound else Inr n)
   }"

definition redis_DeleteOTP :: "crypto \<Rightarrow> 'r Cache \<Rightarrow> string \<Rightarrow> ('r world, port_error option) state" where
  "redis_DeleteOTP C c email = do {
     x \<leftarrow> redis_call (ca_client c) (\<lambda>t r. ((), rd_DEL (ca_client c) [otpPrefix @ Hash C email] t r));
     ret (case x of Inl err \<Rightarrow> Some (ErrOther err) | Inr _ \<Rightarrow> None)
   }"

definition redis_SaveResetToken ::
  "'r Cache \<Rightarrow> string \<Rightarrow> string \<Rightarrow> string \<Rightarrow> duration \<Rightarrow> ('r world, port_error option) state" where
  "redis_SaveResetToken c tokenHash userID email ttl =
     (case jm_reset (ca_json c) \<lparr>rtd_UserID = userID, rtd_Email = email\<rparr> of
        Inl err \<Rightarrow> ret (Some (ErrOther (''marshal reset token: '' @ err)))
      | Inr data \<Rightarrow> do {
          x \<leftarrow> redis_call (ca_client c) (\<lambda>t r. ((), rd_SET (ca_client c) (resetTokenPrefix @ tokenHash) data ttl t r));
          ret (case x of Inl err \<Rightarrow> Some (ErrOther (''save reset token: '' @ err)) | Inr _ \<Rightarrow> None)
        })"

definition redis_GetResetToken :: "'r Cache \<Rightarrow> string \<Rightarrow> ('r world, port_error + ResetTokenRecord) state" where
  "redis_GetResetToken c tokenHash = do {
     x \<leftarrow> redis_call (ca_client c) (rd_GET (ca_client c) (resetTokenPrefix @ tokenHash));
     ret (case x of
        Inl err \<Rightarrow> Inl (ErrOther (''get reset token: '' @ err))
      | Inr None \<Rightarrow> Inl ErrResetTokenNotFound
      | Inr (Some raw) \<Rightarrow>
          (case ju_reset (ca_json c) raw of
             Inl err \<Rightarrow> Inl (ErrOther (''unmarshal reset token: '' @ err))
           | Inr d \<Rightarrow> Inr \<lparr>t_UserID = rtd_UserID d, t_Email = rtd_Email d\<rparr>))
   }"

definition redis_DeleteResetToken :: "'r Cache \<Rightarrow> string \<Rightarrow> ('r world, port_error option) state" where
  "redis_DeleteResetToken c tokenHash = do {
     x \<leftarrow> redis_call (ca_client c) (\<lambda>t r. ((), rd_DEL (ca_client c) [resetTokenPrefix @ tokenHash] t r));
     ret (case x of Inl err \<Rightarrow> Some (ErrOther err) | Inr _ \<Rightarrow> None)
   }"

definition redis_ResetCache :: "crypto \<Rightarrow> 'r Cache \<Rightarrow> 'r world PasswordResetStore" where
  "redis_ResetCache C c = \<lparr>rs_SaveOTP = redis_SaveOTP C c, rs_GetOTP = redis_GetOTP C c,
     rs_IncrOTPAttempts = redis_IncrOTPAttempts C c, rs_DeleteOTP = redis_DeleteOTP C c,
     rs_SaveResetToken = redis_SaveResetToken c, rs_GetResetToken = redis_GetResetToken c,
     rs_DeleteResetToken = redis_DeleteResetToken c\<rparr>"

section \<open>What is written is read back\<close>

context redis_server
begin

lemma wp_SET:
  assumes "reachable rd" "0 < ttl"
  shows "wp (redis_call rd (\<lambda>t r. ((), rd_SET rd k v ttl t r))) (\<lambda>x w'. x = Inr () \<and> w_now w \<le> w_now w' \<and>
    (\<exists>E \<ge> ms (w_now w) + px ttl. kv (w_services w') k = Some (v, Some E))) w"
proof -
  let ?t = "w_now w + int (w_ticks w (w_reads w))"
  have "kv (rd_SET rd k v ttl ?t (w_services w)) k = Some (v, Some (ms ?t + px ttl))"
    by (rule purged_Some[OF SET[OF assms(2)]]) (simp add: live_def px_def)
  then show ?thesis
    using ms_mono[of "w_now w" ?t] by (simp add: wp_redis_call_reachable[OF assms(1)] Let_def)
qed

lemma wp_GET:
  assumes "reachable rd" "kv (w_services w) k = Some (v, Some E)"
  shows "wp (redis_call rd (rd_GET rd k)) (\<lambda>x w'. w_now w \<le> w_now w' \<and> (ms (w_now w') \<le> E \<longrightarrow> x = Inr (Some v)
    \<and> kv (w_services w') k = Some (v, Some E)) \<and> (E < ms (w_now w') \<longrightarrow> x = Inr None)) w"
proof -
  let ?t = "w_now w + int (w_ticks w (w_reads w))"
  have "live ?t (kv (w_services w) k) = (if ms ?t \<le> E then Some (v, Some E) else None)"
    using assms(2) by (simp add: live_def)
  moreover from this have "ms ?t \<le> E \<Longrightarrow> kv (snd (rd_GET rd k ?t (w_services w))) k = Some (v, Some E)"
    using purged_Some[of ?t "kv (w_services w)" "kv (snd (rd_GET rd k ?t (w_services w)))" k] GET[of k ?t "w_services w"]
    by simp
  ultimately show ?thesis
    by (simp add: wp_redis_call_reachable[OF assms(1)] Let_def GET)
qed

lemma wp_GET_none:
  assumes "reachable rd" "kv (w_services w) k = None"
  shows "wp (redis_call rd (rd_GET rd k)) (\<lambda>x _. x = Inr None) w"
  using GET[of k _ "w_services w"] assms(2) by (simp add: wp_redis_call_reachable[OF assms(1)] Let_def)

lemma wp_DEL:
  assumes "reachable rd"
  shows "wp (redis_call rd (\<lambda>t r. ((), rd_DEL rd [k] t r))) (\<lambda>x w'. x = Inr () \<and> kv (w_services w') k = None) w"
  using purged_None[OF DEL, of "w_services w" "[k]" k]
  by (simp add: wp_redis_call_reachable[OF assms(1)] Let_def)

lemma cache_roundtrip:
  assumes "reachable rd" "ca_client c = rd" "0 < ttl"
    and "jm_session (ca_json c) s = Inr data" "ju_session (ca_json c) data = Inr s"
  shows "wp (do { e \<leftarrow> redis_cache_Set c h s ttl; r \<leftarrow> redis_cache_Get c h; ret (e, r) })
    (\<lambda>(e, r) w'. e = None \<and> (ms (w_now w') \<le> ms (w_now w) + px ttl \<longrightarrow> r = Inr s)) w"
  unfolding redis_cache_Set_def redis_cache_Get_def assms(2,4) wp_simps sum.case
  using assms(3)
proof (simp add: wp_simps, intro wp_mono[OF wp_SET[OF assms(1,3)]], elim conjE exE, goal_cases)
  case (1 x w1 E)
  then show ?case
    by (simp add: wp_simps) (rule wp_mono[OF wp_GET[OF assms(1)]], assumption, auto simp: assms(5))
qed

lemma cache_deleted:
  assumes "reachable rd" "ca_client c = rd"
  shows "wp (do { e \<leftarrow> redis_cache_Delete c h; r \<leftarrow> redis_cache_Get c h; ret (e, r) })
    (\<lambda>(e, r) _. e = None \<and> (\<exists>err. r = Inl err)) w"
  unfolding redis_cache_Delete_def redis_cache_Get_def assms(2) wp_simps
  by (rule wp_mono[OF wp_DEL[OF assms(1)]], elim conjE, simp add: wp_simps, rule wp_mono[OF wp_GET_none[OF assms(1)]])
    simp_all

text \<open>The stored text of a code decodes to \<open>d\<close> and lives until millisecond \<open>E\<close>.\<close>

definition holds_otp :: "'r Cache \<Rightarrow> string \<Rightarrow> otpData \<Rightarrow> int \<Rightarrow> 'r world \<Rightarrow> bool" where
  "holds_otp c k d E w \<longleftrightarrow> (\<exists>raw. kv (w_services w) k = Some (raw, Some E) \<and> ju_otp (ca_json c) raw = Inr d)"

lemma incrOTPScript_counts:
  assumes "ca_client c = rd" "kv r k = Some (raw, Some E)" "ms t < E" "cjson_incr (ca_json c) raw = Inr (enc, n)"
  shows "fst (incrOTPScript c k t r) = Inr n \<and> kv (snd (incrOTPScript c k t r)) k = Some (enc, Some E)"
proof -
  have l: "live t (kv r k) = Some (raw, Some E)" using assms(2,3) by (simp add: live_def)
  obtain x r1 where 1: "rd_GET rd k t r = (x, r1)" by (cases "rd_GET rd k t r")
  with GET[of k t r] l have x: "x = Some raw" and p1: "purged t (kv r) (kv r1)" by auto
  have l1: "live t (kv r1 k) = Some (raw, Some E)" using purged_live[OF p1 order_refl] l by simp
  obtain ttl r2 where 2: "rd_PTTL rd k t r1 = (ttl, r2)" by (cases "rd_PTTL rd k t r1")
  with PTTL[OF l1] have ttl: "ttl = E - ms t" by auto
  have "kv (rd_SET_PX rd k enc ttl t r2) k = Some (enc, Some E)"
    using purged_Some[OF SET_PX, of ttl t r2 k enc k "(enc, Some E)"] assms(3) ttl by (simp add: live_def)
  with assms(1,3,4) 1 x 2 ttl show ?thesis by (simp add: incrOTPScript_def)
qed

end

text \<open>
  What \<^verbatim>\<open>cjson\<close> and \<^verbatim>\<open>encoding/json\<close> guarantee together: incrementing the text of a code increments
  its decoded counter and keeps the rest, for counts that a Lua number prints exactly.
\<close>

definition json_counts :: "json \<Rightarrow> bool" where
  "json_counts J \<longleftrightarrow> (\<forall>raw d. ju_otp J raw = Inr d \<longrightarrow> 0 \<le> od_Attempts d \<longrightarrow> od_Attempts d < 1000000 \<longrightarrow>
     (\<exists>enc. cjson_incr J raw = Inr (enc, od_Attempts d + 1) \<and>
        ju_otp J enc = Inr (d\<lparr>od_Attempts := od_Attempts d + 1\<rparr>)))"

text \<open>Verification attempts, one after the other.\<close>

fun incrs :: "crypto \<Rightarrow> 'r Cache \<Rightarrow> string \<Rightarrow> nat \<Rightarrow> ('r world, (port_error + int) list) state" where
  "incrs C c email 0 = ret []"
| "incrs C c email (Suc n) = do { x \<leftarrow> redis_IncrOTPAttempts C c email; xs \<leftarrow> incrs C c email n; ret (x # xs) }"

lemma forward_incr [forward_intros]: "forward (redis_IncrOTPAttempts C c email)"
  unfolding redis_IncrOTPAttempts_def Let_def by (intro forward_intros)

lemma forward_incrs [forward_intros]: "forward (incrs C c email n)"
  by (induction n) (auto intro!: forward_intros)

lemma forward_GetOTP [forward_intros]: "forward (redis_GetOTP C c email)"
  unfolding redis_GetOTP_def by (intro forward_intros)

context redis_server
begin

lemma incr_counts:
  assumes "reachable rd" "ca_client c = rd" "json_counts (ca_json c)"
    and "holds_otp c (otpPrefix @ Hash C email) d E w" "0 \<le> od_Attempts d" "od_Attempts d < 1000000"
  shows "wp (redis_IncrOTPAttempts C c email) (\<lambda>r w'. w_now w \<le> w_now w' \<and> (ms (w_now w') < E \<longrightarrow>
    r = Inr (od_Attempts d + 1)
    \<and> holds_otp c (otpPrefix @ Hash C email) (d\<lparr>od_Attempts := od_Attempts d + 1\<rparr>) E w')) w"
proof -
  from assms(4) obtain raw where raw: "kv (w_services w) (otpPrefix @ Hash C email) = Some (raw, Some E)"
    "ju_otp (ca_json c) raw = Inr d" by (auto simp: holds_otp_def)
  from assms(3,5,6) raw(2) obtain enc where enc: "cjson_incr (ca_json c) raw = Inr (enc, od_Attempts d + 1)"
    "ju_otp (ca_json c) enc = Inr (d\<lparr>od_Attempts := od_Attempts d + 1\<rparr>)" unfolding json_counts_def by blast
  let ?t = "w_now w + int (w_ticks w (w_reads w))"
  have "ms ?t < E \<Longrightarrow> fst (incrOTPScript c (otpPrefix @ Hash C email) ?t (w_services w)) = Inr (od_Attempts d + 1) \<and>
      kv (snd (incrOTPScript c (otpPrefix @ Hash C email) ?t (w_services w))) (otpPrefix @ Hash C email) = Some (enc, Some E)"
    by (rule incrOTPScript_counts[OF assms(2) raw(1) _ enc(1)])
  then show ?thesis
    unfolding redis_IncrOTPAttempts_def redis_Eval_def Let_def wp_simps assms(2) wp_redis_call_reachable[OF assms(1)]
    using enc(2) assms(5) by (auto simp: holds_otp_def)
qed

lemma incrs_count:
  assumes "reachable rd" "ca_client c = rd" "json_counts (ca_json c)"
    and "holds_otp c (otpPrefix @ Hash C email) d E w" "0 \<le> od_Attempts d" "od_Attempts d + int n \<le> 1000000"
  shows "wp (incrs C c email n) (\<lambda>xs w'. w_now w \<le> w_now w' \<and> (ms (w_now w') < E \<longrightarrow>
    xs = map (\<lambda>i. Inr (od_Attempts d + int i + 1)) [0..<n]
    \<and> holds_otp c (otpPrefix @ Hash C email) (d\<lparr>od_Attempts := od_Attempts d + int n\<rparr>) E w')) w"
  using assms(4-6)
proof (induction n arbitrary: d w)
  case 0
  then show ?case by (simp add: wp_simps)
next
  case (Suc n)
  have b: "od_Attempts d < 1000000" using Suc.prems(3) by simp
  show ?case unfolding incrs.simps wp_simps
  proof (rule wp_mono[OF incr_counts[OF assms(1-3) Suc.prems(1,2) b]], elim conjE, goal_cases)
    case (1 x w')
    show ?case
    proof (cases "ms (w_now w') < E")
      case True
      with 1 have h: "holds_otp c (otpPrefix @ Hash C email) (d\<lparr>od_Attempts := od_Attempts d + 1\<rparr>) E w'"
        and x: "x = Inr (od_Attempts d + 1)" by auto
      show ?thesis
        by (rule wp_mono[OF Suc.IH[OF h]])
          (use Suc.prems 1(1) x in \<open>auto simp: map_upt_Suc ac_simps simp del: upt_Suc\<close>)
    next
      case False
      show ?thesis
        by (rule wp_forward[OF forward_incrs order_refl]) (use False 1(1) in \<open>auto dest: ms_mono\<close>)
    qed
  qed
qed

lemma otp_counted:
  assumes "reachable rd" "ca_client c = rd" "json_counts (ca_json c)" "0 < ttl" "n \<le> 1000000"
    and "jm_otp (ca_json c) \<lparr>od_UserID = uid, od_OTPHash = oh, od_Attempts = 0\<rparr> = Inr data"
    and "ju_otp (ca_json c) data = Inr \<lparr>od_UserID = uid, od_OTPHash = oh, od_Attempts = 0\<rparr>"
  shows "wp (do { e \<leftarrow> redis_SaveOTP C c uid email oh ttl; xs \<leftarrow> incrs C c email n; r \<leftarrow> redis_GetOTP C c email; ret (e, xs, r) })
    (\<lambda>(e, xs, r) w'. ms (w_now w') < ms (w_now w) + px ttl \<longrightarrow> e = None \<and>
      xs = map (\<lambda>i. Inr (int i + 1)) [0..<n] \<and> r = Inr \<lparr>o_UserID = uid, o_OTPHash = oh, o_Attempts = int n\<rparr>) w"
  unfolding redis_SaveOTP_def assms(2,6) wp_simps sum.case
proof (rule wp_mono[OF wp_SET[OF assms(1,4)]], elim conjE exE, goal_cases)
  case (1 x w1 E)
  let ?d = "\<lparr>od_UserID = uid, od_OTPHash = oh, od_Attempts = 0\<rparr>"
  from 1 assms(7) have h: "holds_otp c (otpPrefix @ Hash C email) ?d E w1" by (auto simp: holds_otp_def)
  show ?case
    unfolding wp_simps
  proof (rule wp_mono[OF incrs_count[OF assms(1-3) h, of n]], goal_cases)
    case (3 xs w2)
    show ?case
    proof (cases "ms (w_now w2) < E")
      case True
      with 3 obtain raw where raw: "kv (w_services w2) (otpPrefix @ Hash C email) = Some (raw, Some E)"
        "ju_otp (ca_json c) raw = Inr (?d\<lparr>od_Attempts := int n\<rparr>)" by (auto simp: holds_otp_def)
      from True 3 show ?thesis
        unfolding redis_GetOTP_def assms(2) wp_simps
        by (intro wp_mono[OF wp_GET[OF assms(1) raw(1)]]) (use raw(2) 1 in \<open>auto\<close>)
    next
      case False
      show ?thesis
        by (rule wp_forward[OF forward_GetOTP order_refl]) (use False 1 in \<open>auto dest: ms_mono\<close>)
    qed
  qed (use assms(5) in auto)
qed

end

section \<open>Properties\<close>

text \<open>
  A concrete codec for the witnesses, good for one user: a code's text is its attempts in unary.
\<close>

definition toy_session :: CachedSession where
  "toy_session = \<lparr>c_SessionID = ''s1'', c_UserID = ''u0'', c_UserEmail = ''a@b.co'', c_DeviceID = ''d'', c_ExpiresAt = 60 * minute\<rparr>"

definition toy_json :: json where
  "toy_json = \<lparr>jm_session = (\<lambda>s. if s = toy_session then Inr ''s'' else Inl ''unsupported''),
     ju_session = (\<lambda>t. if t = ''s'' then Inr toy_session else Inl ''invalid''),
     jm_otp = (\<lambda>d. Inr (replicate (nat (od_Attempts d)) (CHR ''1''))),
     ju_otp = (\<lambda>t. Inr \<lparr>od_UserID = ''u0'', od_OTPHash = ''h'', od_Attempts = int (length t)\<rparr>),
     jm_reset = (\<lambda>d. Inr (rtd_Email d)), ju_reset = (\<lambda>t. Inr \<lparr>rtd_UserID = ''u0'', rtd_Email = t\<rparr>),
     cjson_incr = (\<lambda>t. Inr (CHR ''1'' # t, int (length t) + 1))\<rparr>"

lemma toy_json_counts: "json_counts toy_json"
  by (auto simp: json_counts_def toy_json_def)

lemmas redis_run = redis_cache_Set_def redis_cache_Get_def redis_SaveOTP_def redis_IncrOTPAttempts_def redis_GetOTP_def
  redis_Eval_def wp_redis_call_reachable wp_simps Let_def empty_world_def

text \<open>
  A cached session is read back: with Redis reachable, \<^verbatim>\<open>Get\<close> after \<^verbatim>\<open>Set\<close> returns the
  session that was set, for as long as its time to live has not passed, when the JSON text of
  that session decodes to it.
\<close>

theorem redis_cache_roundtrip:
  assumes "redis_server rd kv" "reachable rd" "c = \<lparr>ca_client = rd, ca_json = J\<rparr>" "0 < ttl"
    and "jm_session J s = Inr data" "ju_session J data = Inr s"
  shows "wp (do { e \<leftarrow> redis_cache_Set c h s ttl; r \<leftarrow> redis_cache_Get c h; ret (e, r) })
    (\<lambda>(e, r) w'. e = None \<and> (ms (w_now w') \<le> ms (w_now w) + px ttl \<longrightarrow> r = Inr s)) w"
  by (rule redis_server.cache_roundtrip[OF assms(1,2)]) (use assms in simp_all)

theorem redis_cache_roundtrip_witness:
  "wp (do { e \<leftarrow> redis_cache_Set \<lparr>ca_client = ref_redis, ca_json = toy_json\<rparr> ''h'' toy_session minute;
            r \<leftarrow> redis_cache_Get \<lparr>ca_client = ref_redis, ca_json = toy_json\<rparr> ''h''; ret (e, r) })
    (\<lambda>(e, r) w'. r = Inr toy_session) empty_world"
proof -
  let ?m = "do { e \<leftarrow> redis_cache_Set \<lparr>ca_client = ref_redis, ca_json = toy_json\<rparr> ''h'' toy_session minute;
            r \<leftarrow> redis_cache_Get \<lparr>ca_client = ref_redis, ca_json = toy_json\<rparr> ''h''; ret (e, r) }"
  have "wp ?m (\<lambda>_ w'. w_now w' \<le> 10) empty_world" by (simp add: redis_run toy_json_def)
  from wp_conj[OF this redis_cache_roundtrip[OF ref.redis_server_axioms reachable_ref refl, of minute toy_json toy_session "''s''"]]
  show ?thesis by (simp add: toy_json_def) (elim wp_mono, auto simp: ms_def px_def empty_world_def)
qed

text \<open>
  A deleted session is gone from the Redis cache: \<^verbatim>\<open>Get\<close> after a successful \<^verbatim>\<open>Delete\<close>
  misses, whatever was stored.
\<close>

theorem redis_cache_deleted:
  assumes "redis_server rd kv" "reachable rd"
  shows "wp (do { e \<leftarrow> redis_cache_Delete \<lparr>ca_client = rd, ca_json = J\<rparr> h;
                  r \<leftarrow> redis_cache_Get \<lparr>ca_client = rd, ca_json = J\<rparr> h; ret (e, r) })
    (\<lambda>(e, r) _. e = None \<and> (\<exists>err. r = Inl err)) w"
  by (rule redis_server.cache_deleted[OF assms]) simp

theorem redis_cache_deleted_witness:
  "wp (do { e \<leftarrow> redis_cache_Delete \<lparr>ca_client = ref_redis, ca_json = toy_json\<rparr> ''h'';
            r \<leftarrow> redis_cache_Get \<lparr>ca_client = ref_redis, ca_json = toy_json\<rparr> ''h''; ret (e, r) })
    (\<lambda>(e, r) _. e = None \<and> (\<exists>err. r = Inl err)) (empty_world\<lparr>w_services := [''refresh:h'' \<mapsto> (''s'', None)]\<rparr>)"
  by (rule redis_cache_deleted[OF ref.redis_server_axioms reachable_ref])



end
