(* ===== verification/Postgres.thy ===== *)
theory Postgres
  imports World
begin

text \<open>
  \<^verbatim>\<open>internal/adapters/storage/postgres\<close>: the user, session and audit repositories. The SQL statements
  of the source are functions on the tables that \<^verbatim>\<open>migrations\<close> creates, with their primary keys,
  unique columns and foreign keys; the database server behind them is a parameter: it holds the
  tables in its state \<open>'r\<close>, may refuse any statement, has its own clock, and draws UUIDs.
  A statement that fails has no effect; a transaction works on its own copy until it commits.
\<close>

section \<open>Tables and statements\<close>

text \<open>
  Rows are the structs the repositories scan them into (a session row has no e-mail column).
\<close>

record audit_row =
  ar_id :: string
  ar_user_id :: "string option"
  ar_event_type :: string
  ar_ip_address :: string
  ar_user_agent :: string
  ar_metadata :: "string option"
  ar_created_at :: time

record pg_db =
  pg_users :: "User list"
  pg_sessions :: "Session list"
  pg_audit :: "audit_row list"

datatype pg_error = NoRows | UniqueViolation | ForeignKeyViolation | PgError string

text \<open>\<^verbatim>\<open>TIMESTAMPTZ\<close> holds whole microseconds.\<close>

definition timestamptz :: "time \<Rightarrow> time" where
  "timestamptz t = t - t mod 1000"

definition insert_user :: "string \<Rightarrow> time \<Rightarrow> string \<Rightarrow> string \<Rightarrow> pg_db \<Rightarrow> pg_error + User \<times> pg_db" where
  "insert_user uuid now email passwordHash db =
     (let u = \<lparr>u_ID = uuid, u_Email = email, u_PasswordHash = passwordHash, u_CreatedAt = now, u_UpdatedAt = now\<rparr>
      in if list_ex (\<lambda>x. u_ID x = uuid \<or> u_Email x = email) (pg_users db) then Inl UniqueViolation
         else Inr (u, db\<lparr>pg_users := pg_users db @ [u]\<rparr>))"

definition first_row :: "'a list \<Rightarrow> pg_error + 'a" where
  "first_row xs = (case xs of [] \<Rightarrow> Inl NoRows | x # _ \<Rightarrow> Inr x)"

definition select_user :: "(User \<Rightarrow> bool) \<Rightarrow> pg_db \<Rightarrow> pg_error + User \<times> pg_db" where
  "select_user P db = (case first_row (filter P (pg_users db)) of Inl e \<Rightarrow> Inl e | Inr u \<Rightarrow> Inr (u, db))"

text \<open>\<^verbatim>\<open>UPDATE users SET password_hash = $2, updated_at = now() WHERE id = $1\<close>, with the row count.\<close>

definition update_user :: "time \<Rightarrow> string \<Rightarrow> string \<Rightarrow> pg_db \<Rightarrow> pg_error + nat \<times> pg_db" where
  "update_user now userID passwordHash db =
     Inr (length (filter (\<lambda>u. u_ID u = userID) (pg_users db)),
          db\<lparr>pg_users := map (\<lambda>u. if u_ID u = userID then u\<lparr>u_PasswordHash := passwordHash, u_UpdatedAt := now\<rparr> else u)
            (pg_users db)\<rparr>)"

definition insert_session :: "string \<Rightarrow> time \<Rightarrow> Session \<Rightarrow> pg_db \<Rightarrow> pg_error + Session \<times> pg_db" where
  "insert_session uuid now s db =
     (let row = s\<lparr>s_ID := uuid, s_UserEmail := [], s_ExpiresAt := timestamptz (s_ExpiresAt s), s_LastUsedAt := now,
                  s_CreatedAt := now\<rparr>
      in if list_ex (\<lambda>x. s_ID x = uuid \<or> s_TokenHash x = s_TokenHash s) (pg_sessions db) then Inl UniqueViolation
         else if \<not> list_ex (\<lambda>u. u_ID u = s_UserID s) (pg_users db)
         then Inl ForeignKeyViolation
         else Inr (s\<lparr>s_ID := uuid, s_CreatedAt := now, s_LastUsedAt := now\<rparr>, db\<lparr>pg_sessions := pg_sessions db @ [row]\<rparr>))"

text \<open>\<^verbatim>\<open>sessions s JOIN users u ON u.id = s.user_id\<close>: one row per matching pair.\<close>

definition select_session :: "string \<Rightarrow> pg_db \<Rightarrow> pg_error + Session \<times> pg_db" where
  "select_session tokenHash db =
     (case first_row [s\<lparr>s_UserEmail := u_Email u\<rparr>. s \<leftarrow> pg_sessions db, u \<leftarrow> pg_users db,
         u_ID u = s_UserID s \<and> s_TokenHash s = tokenHash] of
        Inl e \<Rightarrow> Inl e | Inr s \<Rightarrow> Inr (s, db))"

text \<open>\<^verbatim>\<open>DELETE FROM sessions WHERE ... RETURNING token_hash\<close>.\<close>

definition delete_sessions :: "(Session \<Rightarrow> bool) \<Rightarrow> pg_db \<Rightarrow> string list \<times> pg_db" where
  "delete_sessions P db =
     (map s_TokenHash (filter P (pg_sessions db)), db\<lparr>pg_sessions := filter (\<lambda>s. \<not> P s) (pg_sessions db)\<rparr>)"

section \<open>The server and the pool\<close>

text \<open>
  \<open>pg_fail\<close> decides whether a statement, named by its operation, is refused (the connection, a
  timeout, a text that is no UUID); \<open>pg_rows\<close> how reading a result ends: with the last row, with
  \<^verbatim>\<open>rows.Err()\<close> after some rows, or with a failing \<^verbatim>\<open>rows.Scan\<close>. The flag of a failure says whether the
  statement was rolled back.
\<close>

datatype rows_end = AllRows | RowsErr nat string bool | ScanErr string bool

record 'r postgres =
  pg_get :: "'r \<Rightarrow> pg_db"
  pg_put :: "pg_db \<Rightarrow> 'r \<Rightarrow> 'r"
  pg_fail :: "string \<Rightarrow> time \<Rightarrow> 'r \<Rightarrow> string option"
  pg_rows :: "string \<Rightarrow> time \<Rightarrow> 'r \<Rightarrow> rows_end"
  pg_now :: "time \<Rightarrow> 'r \<Rightarrow> time"
  gen_random_uuid :: "time \<Rightarrow> 'r \<Rightarrow> string"

text \<open>One statement in its own transaction.\<close>

definition pg_exec ::
  "'r postgres \<Rightarrow> string \<Rightarrow> (time \<Rightarrow> string \<Rightarrow> pg_db \<Rightarrow> pg_error + 'a \<times> pg_db) \<Rightarrow> ('r world, pg_error + 'a) state" where
  "pg_exec pg op f = do {
     t \<leftarrow> time_Now;
     r \<leftarrow> gets w_services;
     case pg_fail pg op t r of
        Some err \<Rightarrow> ret (Inl (PgError err))
      | None \<Rightarrow>
          (case f (pg_now pg t r) (gen_random_uuid pg t r) (pg_get pg r) of
             Inl e \<Rightarrow> ret (Inl e)
           | Inr (a, db) \<Rightarrow> do {
               _ \<leftarrow> modify (\<lambda>w. w\<lparr>w_services := pg_put pg db r\<rparr>);
               ret (Inr a)
             })
   }"

text \<open>A \<^verbatim>\<open>DELETE ... RETURNING\<close> whose rows are read one by one: what is returned, and the error.\<close>

definition pg_delete_rows ::
  "'r postgres \<Rightarrow> string \<Rightarrow> (Session \<Rightarrow> bool) \<Rightarrow> ('r world, pg_error + string list \<times> string option) state" where
  "pg_delete_rows pg op P = do {
     t \<leftarrow> time_Now;
     r \<leftarrow> gets w_services;
     case pg_fail pg op t r of
        Some err \<Rightarrow> ret (Inl (PgError err))
      | None \<Rightarrow> do {
     let (hashes, db) = delete_sessions P (pg_get pg r);
     case pg_rows pg op t r of
        AllRows \<Rightarrow> do { _ \<leftarrow> modify (\<lambda>w. w\<lparr>w_services := pg_put pg db r\<rparr>); ret (Inr (hashes, None)) }
      | RowsErr n err rolled_back \<Rightarrow> do {
          _ \<leftarrow> (if rolled_back then ret () else modify (\<lambda>w. w\<lparr>w_services := pg_put pg db r\<rparr>));
          ret (Inr (take n hashes, Some err))
        }
      | ScanErr err rolled_back \<Rightarrow> do {
          _ \<leftarrow> (if rolled_back then ret () else modify (\<lambda>w. w\<lparr>w_services := pg_put pg db r\<rparr>));
          ret (Inr ([], Some (''scan token hash: '' @ err)))
        }
   } }"

definition pg_text :: "pg_error \<Rightarrow> string" where
  "pg_text e = (case e of NoRows \<Rightarrow> ''no rows in result set''
     | UniqueViolation \<Rightarrow> ''duplicate key value violates unique constraint''
     | ForeignKeyViolation \<Rightarrow> ''insert or update violates foreign key constraint'' | PgError s \<Rightarrow> s)"

section \<open>UserRepository\<close>

definition pg_user_Create :: "'r postgres \<Rightarrow> string \<Rightarrow> string \<Rightarrow> ('r world, port_error + User) state" where
  "pg_user_Create pg email passwordHash = do {
     x \<leftarrow> pg_exec pg ''create user'' (\<lambda>now uuid. insert_user uuid now email passwordHash);
     ret (case x of
        Inl e \<Rightarrow> if e = UniqueViolation then Inl ErrUserAlreadyExists
                  else Inl (ErrOther (''create user: '' @ pg_text e))
      | Inr u \<Rightarrow> Inr u)
   }"

definition pg_user_GetByEmail :: "'r postgres \<Rightarrow> string \<Rightarrow> ('r world, port_error + User) state" where
  "pg_user_GetByEmail pg email = do {
     x \<leftarrow> pg_exec pg ''get user by email'' (\<lambda>now uuid. select_user (\<lambda>u. u_Email u = email));
     ret (case x of
        Inl e \<Rightarrow> if e = NoRows then Inl ErrUserNotFound else Inl (ErrOther (''get user by email: '' @ pg_text e))
      | Inr u \<Rightarrow> Inr u)
   }"

definition pg_user_GetByID :: "'r postgres \<Rightarrow> string \<Rightarrow> ('r world, port_error + User) state" where
  "pg_user_GetByID pg i = do {
     x \<leftarrow> pg_exec pg ''get user by id'' (\<lambda>now uuid. select_user (\<lambda>u. u_ID u = i));
     ret (case x of
        Inl e \<Rightarrow> if e = NoRows then Inl ErrUserNotFound else Inl (ErrOther (''get user by id: '' @ pg_text e))
      | Inr u \<Rightarrow> Inr u)
   }"

definition pg_user_UpdatePasswordHash :: "'r postgres \<Rightarrow> string \<Rightarrow> string \<Rightarrow> ('r world, port_error + unit) state" where
  "pg_user_UpdatePasswordHash pg userID passwordHash = do {
     x \<leftarrow> pg_exec pg ''update password hash'' (\<lambda>now uuid. update_user now userID passwordHash);
     ret (case x of
        Inl e \<Rightarrow> Inl (ErrOther (''update password hash: '' @ pg_text e))
      | Inr n \<Rightarrow> if n = 0 then Inl ErrUserNotFound else Inr ())
   }"

definition pg_UserStore :: "'r postgres \<Rightarrow> 'r world UserStore" where
  "pg_UserStore pg = \<lparr>us_Create = pg_user_Create pg, us_GetByEmail = pg_user_GetByEmail pg,
     us_GetByID = pg_user_GetByID pg, us_UpdatePasswordHash = pg_user_UpdatePasswordHash pg\<rparr>"

section \<open>SessionRepository\<close>

definition pg_session_Create :: "'r postgres \<Rightarrow> Session \<Rightarrow> ('r world, port_error + Session) state" where
  "pg_session_Create pg s = do {
     x \<leftarrow> pg_exec pg ''create session'' (\<lambda>now uuid. insert_session uuid now s);
     ret (case x of Inl e \<Rightarrow> Inl (ErrOther (pg_text e)) | Inr s' \<Rightarrow> Inr s')
   }"

definition pg_session_GetByTokenHash :: "'r postgres \<Rightarrow> string \<Rightarrow> ('r world, port_error + Session) state" where
  "pg_session_GetByTokenHash pg tokenHash = do {
     x \<leftarrow> pg_exec pg ''get session by token hash'' (\<lambda>now uuid. select_session tokenHash);
     ret (case x of
        Inl e \<Rightarrow> if e = NoRows then Inl ErrSessionNotFound
                  else Inl (ErrOther (''get session by token hash: '' @ pg_text e))
      | Inr s \<Rightarrow> Inr s)
   }"

definition pg_session_DeleteByID :: "'r postgres \<Rightarrow> string \<Rightarrow> string \<Rightarrow> ('r world, port_error + string) state" where
  "pg_session_DeleteByID pg sessionID userID = do {
     x \<leftarrow> pg_exec pg ''delete session'' (\<lambda>now uuid db.
       (case delete_sessions (\<lambda>s. s_ID s = sessionID \<and> s_UserID s = userID) db of (hs, db') \<Rightarrow>
        case first_row hs of Inl e \<Rightarrow> Inl e | Inr h \<Rightarrow> Inr (h, db')));
     ret (case x of
        Inl e \<Rightarrow> if e = NoRows then Inl ErrSessionNotFound else Inl (ErrOther (''delete session: '' @ pg_text e))
      | Inr h \<Rightarrow> Inr h)
   }"

definition pg_session_DeleteByTokenHash :: "'r postgres \<Rightarrow> string \<Rightarrow> ('r world, port_error + unit) state" where
  "pg_session_DeleteByTokenHash pg tokenHash = do {
     x \<leftarrow> pg_exec pg ''delete session by token hash'' (\<lambda>now uuid db.
       Inr (delete_sessions (\<lambda>s. s_TokenHash s = tokenHash) db));
     ret (case x of Inl e \<Rightarrow> Inl (ErrOther (''delete session by token hash: '' @ pg_text e)) | Inr _ \<Rightarrow> Inr ())
   }"

text \<open>
  The transaction of \<^verbatim>\<open>RotateToken\<close>: begin, delete, insert, commit, each of which may be refused;
  \<^verbatim>\<open>defer tx.Rollback\<close> drops the copy on every early return.
\<close>

definition pg_session_RotateToken :: "'r postgres \<Rightarrow> string \<Rightarrow> Session \<Rightarrow> ('r world, port_error + Session) state" where
  "pg_session_RotateToken pg oldHash s = do {
     t \<leftarrow> time_Now;
     r \<leftarrow> gets w_services;
     case pg_fail pg ''begin tx'' t r of
        Some err \<Rightarrow> ret (Inl (ErrOther (''begin tx: '' @ err)))
      | None \<Rightarrow>
     (case pg_fail pg ''delete old session'' t r of
        Some err \<Rightarrow> ret (Inl (ErrOther (''delete old session: '' @ err)))
      | None \<Rightarrow>
     (case delete_sessions (\<lambda>x. s_TokenHash x = oldHash) (pg_get pg r) of (hs, tx) \<Rightarrow>
      if hs = [] then ret (Inl ErrSessionNotFound)
      else
     (case pg_fail pg ''create new session'' t r of
        Some err \<Rightarrow> ret (Inl (ErrOther (''create new session: '' @ err)))
      | None \<Rightarrow>
     (case insert_session (gen_random_uuid pg t r) (pg_now pg t r) s tx of
        Inl e \<Rightarrow> ret (Inl (ErrOther (''create new session: '' @ pg_text e)))
      | Inr (s', tx') \<Rightarrow>
     (case pg_fail pg ''commit'' t r of
        Some err \<Rightarrow> ret (Inl (ErrOther err))
      | None \<Rightarrow> do {
          _ \<leftarrow> modify (\<lambda>w. w\<lparr>w_services := pg_put pg tx' r\<rparr>);
          ret (Inr s')
        })))))
   }"

definition pg_session_DeleteAllByUserID :: "'r postgres \<Rightarrow> string \<Rightarrow> ('r world, string list \<times> port_error option) state" where
  "pg_session_DeleteAllByUserID pg userID = do {
     x \<leftarrow> pg_delete_rows pg ''delete all sessions'' (\<lambda>s. s_UserID s = userID);
     ret (case x of
        Inl e \<Rightarrow> ([], Some (ErrOther (''delete all sessions: '' @ pg_text e)))
      | Inr (hashes, err) \<Rightarrow> (hashes, map_option ErrOther err))
   }"

definition pg_session_DeleteAllByUserIDExcept ::
  "'r postgres \<Rightarrow> string \<Rightarrow> string \<Rightarrow> ('r world, string list \<times> port_error option) state" where
  "pg_session_DeleteAllByUserIDExcept pg userID keepTokenHash = do {
     x \<leftarrow> pg_delete_rows pg ''delete sessions except one''
       (if keepTokenHash = [] then (\<lambda>s. s_UserID s = userID)
        else (\<lambda>s. s_UserID s = userID \<and> s_TokenHash s \<noteq> keepTokenHash));
     ret (case x of
        Inl e \<Rightarrow> ([], Some (ErrOther (''delete sessions except one: '' @ pg_text e)))
      | Inr (hashes, err) \<Rightarrow> (hashes, map_option ErrOther err))
   }"

text \<open>\<^verbatim>\<open>ORDER BY last_used_at DESC\<close>; reading may stop early as above.\<close>

definition pg_session_ListByUserID :: "'r postgres \<Rightarrow> string \<Rightarrow> ('r world, Session list \<times> port_error option) state" where
  "pg_session_ListByUserID pg userID = do {
     t \<leftarrow> time_Now;
     r \<leftarrow> gets w_services;
     ret (case pg_fail pg ''list sessions'' t r of
        Some err \<Rightarrow> ([], Some (ErrOther (''list sessions: '' @ err)))
      | None \<Rightarrow>
          (let rows = sort_key (\<lambda>s. - s_LastUsedAt s) (filter (\<lambda>s. s_UserID s = userID) (pg_sessions (pg_get pg r)))
           in case pg_rows pg ''list sessions'' t r of
                AllRows \<Rightarrow> (rows, None)
              | RowsErr n err _ \<Rightarrow> (take n rows, Some (ErrOther err))
              | ScanErr err _ \<Rightarrow> ([], Some (ErrOther (''scan session: '' @ err)))))
   }"

definition pg_SessionStore :: "'r postgres \<Rightarrow> 'r world SessionStore" where
  "pg_SessionStore pg = \<lparr>ss_Create = pg_session_Create pg, ss_GetByTokenHash = pg_session_GetByTokenHash pg,
     ss_DeleteByID = pg_session_DeleteByID pg, ss_DeleteByTokenHash = pg_session_DeleteByTokenHash pg,
     ss_RotateToken = pg_session_RotateToken pg, ss_DeleteAllByUserID = pg_session_DeleteAllByUserID pg,
     ss_DeleteAllByUserIDExcept = pg_session_DeleteAllByUserIDExcept pg, ss_ListByUserID = pg_session_ListByUserID pg\<rparr>"

section \<open>AuditRepository\<close>

text \<open>\<open>marshal\<close> is \<^verbatim>\<open>json.Marshal\<close> on the metadata map; without metadata the column is NULL.\<close>

definition insert_audit :: "string \<Rightarrow> time \<Rightarrow> AuditEvent \<Rightarrow> string option \<Rightarrow> pg_db \<Rightarrow> pg_error + unit \<times> pg_db" where
  "insert_audit uuid now e meta db =
     (if list_ex (\<lambda>x. ar_id x = uuid) (pg_audit db) then Inl UniqueViolation
      else if (case a_UserID e of None \<Rightarrow> False | Some i \<Rightarrow> \<not> list_ex (\<lambda>u. u_ID u = i) (pg_users db))
      then Inl ForeignKeyViolation
      else Inr ((), db\<lparr>pg_audit := pg_audit db @ [\<lparr>ar_id = uuid, ar_user_id = a_UserID e,
        ar_event_type = event_name (a_EventType e), ar_ip_address = a_IPAddress e, ar_user_agent = a_UserAgent e,
        ar_metadata = meta, ar_created_at = now\<rparr>]\<rparr>))"

definition pg_audit_Log :: "(string gomap \<Rightarrow> string + string) \<Rightarrow> 'r postgres \<Rightarrow> AuditEvent \<Rightarrow> ('r world, port_error option) state" where
  "pg_audit_Log marshal pg e =
     (case (if a_Metadata e = [] then Inr None
            else case marshal (a_Metadata e) of Inl err \<Rightarrow> Inl err | Inr m \<Rightarrow> Inr (Some m)) of
        Inl err \<Rightarrow> ret (Some (ErrOther (''audit marshal metadata: '' @ err)))
      | Inr meta \<Rightarrow> do {
          x \<leftarrow> pg_exec pg ''audit log'' (\<lambda>now uuid. insert_audit uuid now e meta);
          ret (case x of Inl err \<Rightarrow> Some (ErrOther (''audit log: '' @ pg_text err)) | Inr _ \<Rightarrow> None)
        })"

section \<open>Invariant and abstraction\<close>

text \<open>
  The constraints of the schema hold, no stored digest is empty (the service stores SHA-256 digests),
  the server keeps what it is given, and a drawn UUID is not in use. The abstraction sees the tables instead of the in-memory stores.
\<close>

definition tables_ok :: "pg_db \<Rightarrow> bool" where
  "tables_ok db \<longleftrightarrow> distinct (map u_ID (pg_users db)) \<and> distinct (map u_Email (pg_users db))
     \<and> distinct (map s_ID (pg_sessions db)) \<and> distinct (map s_TokenHash (pg_sessions db))
     \<and> (\<forall>s \<in> set (pg_sessions db). s_UserID s \<in> u_ID ` set (pg_users db) \<and> s_TokenHash s \<noteq> [])"

definition database :: "'r postgres \<Rightarrow> bool" where
  "database pg \<longleftrightarrow> (\<forall>db r. pg_get pg (pg_put pg db r) = db)
     \<and> (\<forall>t r. gen_random_uuid pg t r \<notin> u_ID ` set (pg_users (pg_get pg r)) \<union> s_ID ` set (pg_sessions (pg_get pg r)))"

definition by_key :: "('a \<Rightarrow> string) \<Rightarrow> 'a list \<Rightarrow> string \<rightharpoonup> 'a" where
  "by_key f xs = map_of (map (\<lambda>x. (f x, x)) xs)"

section \<open>Statements and constraints\<close>

definition fresh_uuid_of :: "pg_db \<Rightarrow> string \<Rightarrow> bool" where
  "fresh_uuid_of db i \<longleftrightarrow> i \<notin> u_ID ` set (pg_users db) \<union> s_ID ` set (pg_sessions db)"

lemma by_key_Some: "distinct (map f xs) \<Longrightarrow> by_key f xs k = Some x \<longleftrightarrow> x \<in> set xs \<and> f x = k"
  unfolding by_key_def by (subst map_of_eq_Some_iff) (auto simp: comp_def)

lemma by_key_None: "by_key f xs k = None \<longleftrightarrow> k \<notin> f ` set xs"
  by (auto simp: by_key_def map_of_eq_None_iff image_image)

lemma by_key_ran: "distinct (map f xs) \<Longrightarrow> ran (by_key f xs) = set xs"
  by (auto simp: ran_def by_key_Some)

lemma by_key_append: "f x \<notin> f ` set xs \<Longrightarrow> by_key f (xs @ [x]) = (by_key f xs)(f x \<mapsto> x)"
  by (auto simp: by_key_def fun_eq_iff map_add_def split: option.split)
    (metis by_key_None by_key_def option.distinct(1))

lemma option_ext: "(\<And>x. a = Some x \<longleftrightarrow> b = Some x) \<Longrightarrow> a = b"
  by (metis not_None_eq)

lemma by_key_filter:
  assumes "distinct (map f xs)"
  shows "by_key f (filter P xs) k = Some x \<longleftrightarrow> by_key f xs k = Some x \<and> P x"
  using assms by (auto simp: by_key_Some distinct_map_filter)

lemma by_key_delete:
  assumes "distinct (map f xs)"
  shows "by_key f (filter (\<lambda>x. f x \<noteq> k) xs) = (by_key f xs)(k := None)"
  by (rule ext, rule option_ext) (auto simp: by_key_filter[OF assms] by_key_Some[OF assms])

lemma by_key_restrict:
  assumes "distinct (map f xs)"
  shows "by_key f (filter (\<lambda>x. \<not> P x) xs) = by_key f xs |` (- {k. \<exists>x. by_key f xs k = Some x \<and> P x})"
  by (rule ext, rule option_ext) (auto simp: by_key_filter[OF assms] restrict_map_def)

lemma by_key_map:
  assumes "\<And>x. f (g x) = f x"
  shows "by_key f (map g xs) = (\<lambda>k. map_option g (by_key f xs k))"
  by (induction xs) (auto simp: by_key_def assms)

lemma filter_unique:
  assumes "distinct (map f xs)"
  shows "filter (\<lambda>x. f x = k) xs = (case by_key f xs k of None \<Rightarrow> [] | Some x \<Rightarrow> [x])"
  using assms
proof (induction xs)
  case (Cons x xs)
  then have "by_key f xs (f x) = None" by (simp add: by_key_None)
  with Cons show ?case by (auto simp: by_key_def split: option.splits)
qed (simp add: by_key_def)

lemma tables_okD:
  assumes "tables_ok db"
  shows "distinct (map u_ID (pg_users db))" "distinct (map u_Email (pg_users db))"
    "distinct (map s_ID (pg_sessions db))" "distinct (map s_TokenHash (pg_sessions db))"
    "\<And>s. s \<in> set (pg_sessions db) \<Longrightarrow> s_UserID s \<in> u_ID ` set (pg_users db)"
    "\<And>s. s \<in> set (pg_sessions db) \<Longrightarrow> s_TokenHash s \<noteq> []"
  using assms by (auto simp: tables_ok_def)

lemma insert_user_ok:
  assumes "tables_ok db" "fresh_uuid_of db uuid" "insert_user uuid now email h db = Inr (u, db')"
  shows "tables_ok db'" "u_Email u = email" "u_PasswordHash u = h" "u_ID u \<notin> u_ID ` set (pg_users db)"
    "\<forall>x \<in> set (pg_users db). u_Email x \<noteq> email"
    "by_key u_ID (pg_users db') = (by_key u_ID (pg_users db))(u_ID u \<mapsto> u)" "pg_sessions db' = pg_sessions db"
  using assms
  by (auto simp: insert_user_def Let_def tables_ok_def fresh_uuid_of_def list_ex_iff by_key_append split: if_splits)

lemma insert_user_err:
  assumes "fresh_uuid_of db uuid" "insert_user uuid now email h db = Inl e"
  shows "e = UniqueViolation \<and> (\<exists>x \<in> set (pg_users db). u_Email x = email)"
  using assms by (auto simp: insert_user_def Let_def fresh_uuid_of_def list_ex_iff split: if_splits)

lemma select_user_ok: "select_user P db = Inr (u, db') \<Longrightarrow> db' = db \<and> u \<in> set (pg_users db) \<and> P u"
  by (auto simp: select_user_def first_row_def split: list.splits dest: filter_eq_ConsD)

lemma select_user_err: "select_user P db = Inl e \<Longrightarrow> e = NoRows \<and> (\<forall>x \<in> set (pg_users db). \<not> P x)"
  by (auto simp: select_user_def first_row_def filter_empty_conv split: list.splits)

lemma update_user_ok:
  assumes "tables_ok db" "update_user now i h db = Inr (n, db')"
  shows "tables_ok db'" "n = 0 \<Longrightarrow> by_key u_ID (pg_users db) i = None \<and> db' = db"
    "n \<noteq> 0 \<Longrightarrow> \<exists>u. by_key u_ID (pg_users db) i = Some u \<and> pg_sessions db' = pg_sessions db \<and>
       by_key u_ID (pg_users db') = (by_key u_ID (pg_users db))(i \<mapsto> u\<lparr>u_PasswordHash := h, u_UpdatedAt := now\<rparr>)"
proof -
  note d = tables_okD[OF assms(1)]
  let ?g = "\<lambda>u. if u_ID u = i then u\<lparr>u_PasswordHash := h, u_UpdatedAt := now\<rparr> else u"
  have g: "u_ID (?g u) = u_ID u" "u_Email (?g u) = u_Email u" for u by auto
  have db': "db' = db\<lparr>pg_users := map ?g (pg_users db)\<rparr>" and n: "n = length (filter (\<lambda>u. u_ID u = i) (pg_users db))"
    using assms(2) by (auto simp: update_user_def)
  have "u_ID ` set (map ?g (pg_users db)) = u_ID ` set (pg_users db)"
    unfolding set_map image_image g ..
  then show "tables_ok db'" using assms(1) by (simp add: db' tables_ok_def comp_def g)
  show "by_key u_ID (pg_users db) i = None \<and> db' = db" if "n = 0"
  proof -
    have "\<forall>u \<in> set (pg_users db). u_ID u \<noteq> i" using that by (simp add: n filter_empty_conv)
    then have "map ?g (pg_users db) = pg_users db" "by_key u_ID (pg_users db) i = None"
      by (auto intro!: map_idI simp: by_key_None)
    then show ?thesis by (simp add: db')
  qed
  show "\<exists>u. by_key u_ID (pg_users db) i = Some u \<and> pg_sessions db' = pg_sessions db \<and>
       by_key u_ID (pg_users db') = (by_key u_ID (pg_users db))(i \<mapsto> u\<lparr>u_PasswordHash := h, u_UpdatedAt := now\<rparr>)"
    if nz: "n \<noteq> 0"
  proof -
    obtain u where u: "by_key u_ID (pg_users db) i = Some u"
      using nz unfolding n filter_unique[OF d(1)] by (auto split: option.splits)
    have "by_key u_ID (pg_users db') = (\<lambda>k. map_option ?g (by_key u_ID (pg_users db) k))"
      by (simp add: db' by_key_map g)
    also have "\<dots> = (by_key u_ID (pg_users db))(i \<mapsto> u\<lparr>u_PasswordHash := h, u_UpdatedAt := now\<rparr>)"
    proof
      fix k
      have "by_key u_ID (pg_users db) k = Some x \<Longrightarrow> u_ID x = k" for x by (simp add: by_key_Some[OF d(1)])
      with u show "map_option ?g (by_key u_ID (pg_users db) k) =
          ((by_key u_ID (pg_users db))(i \<mapsto> u\<lparr>u_PasswordHash := h, u_UpdatedAt := now\<rparr>)) k"
        by (cases "by_key u_ID (pg_users db) k") auto
    qed
    finally show ?thesis using u by (simp add: db')
  qed
qed

lemma timestamptz_micro: "micro (timestamptz t) t"
  using pos_mod_bound[of 1000 t] pos_mod_sign[of 1000 t] by (auto simp: timestamptz_def micro_def)

lemma insert_session_ok:
  assumes "tables_ok db" "fresh_uuid_of db uuid" "s_UserEmail s = []" "s_TokenHash s \<noteq> []"
    and "insert_session uuid now s db = Inr (s', db')"
  shows "tables_ok db'" "pg_users db' = pg_users db"
    "\<exists>st. stored_session (by_key s_TokenHash (pg_sessions db)) s s' st \<and>
       by_key s_TokenHash (pg_sessions db') = (by_key s_TokenHash (pg_sessions db))(s_TokenHash s \<mapsto> st)"
proof -
  let ?st = "s\<lparr>s_ID := uuid, s_UserEmail := [], s_ExpiresAt := timestamptz (s_ExpiresAt s), s_LastUsedAt := now,
     s_CreatedAt := now\<rparr>"
  have n: "s_TokenHash s \<notin> s_TokenHash ` set (pg_sessions db)" "uuid \<notin> s_ID ` set (pg_sessions db)"
      "s_UserID s \<in> u_ID ` set (pg_users db)"
    and db': "s' = s\<lparr>s_ID := uuid, s_CreatedAt := now, s_LastUsedAt := now\<rparr>"
      "db' = db\<lparr>pg_sessions := pg_sessions db @ [?st]\<rparr>"
    using assms(5) by (auto simp: insert_session_def Let_def list_ex_iff split: if_splits) (metis imageI)
  show "tables_ok db'" "pg_users db' = pg_users db" using assms(1,4) n by (auto simp: tables_ok_def db')
  have "stored_session (by_key s_TokenHash (pg_sessions db)) s s' ?st"
    using assms(3) n(2) timestamptz_micro[of "s_ExpiresAt s"]
    unfolding stored_session_def by_key_ran[OF tables_okD(4)[OF assms(1)]]
    by (intro exI[of _ uuid] exI[of _ now] exI[of _ "timestamptz (s_ExpiresAt s)"]) (auto simp: db')
  moreover have "by_key s_TokenHash (pg_sessions db') = (by_key s_TokenHash (pg_sessions db))(s_TokenHash s \<mapsto> ?st)"
    using by_key_append[of s_TokenHash ?st "pg_sessions db"] n(1) by (simp add: db')
  ultimately show "\<exists>st. stored_session (by_key s_TokenHash (pg_sessions db)) s s' st \<and>
       by_key s_TokenHash (pg_sessions db') = (by_key s_TokenHash (pg_sessions db))(s_TokenHash s \<mapsto> st)" by blast
qed

lemma concat_if: "concat (map (\<lambda>u. if P u then [g u] else []) us) = map g (filter P us)"
  by (induction us) auto

text \<open>The join finds the one row with the digest and the one user it refers to.\<close>

lemma select_session_eq:
  assumes "tables_ok db"
  shows "select_session h db = (case by_key s_TokenHash (pg_sessions db) h of None \<Rightarrow> Inl NoRows
    | Some s \<Rightarrow> Inr (s\<lparr>s_UserEmail := u_Email (the (by_key u_ID (pg_users db) (s_UserID s)))\<rparr>, db))"
proof -
  note d = tables_okD[OF assms]
  have join: "[s\<lparr>s_UserEmail := u_Email u\<rparr>. s \<leftarrow> ss, u \<leftarrow> pg_users db, u_ID u = s_UserID s \<and> s_TokenHash s = h]
      = [s\<lparr>s_UserEmail := u_Email u\<rparr>. s \<leftarrow> filter (\<lambda>s. s_TokenHash s = h) ss, u \<leftarrow> filter (\<lambda>u. u_ID u = s_UserID s) (pg_users db)]"
    for ss
  proof (induction ss)
    case (Cons s ss)
    then show ?case by (cases "s_TokenHash s = h") (simp_all add: concat_if)
  qed simp
  show ?thesis
  proof (cases "by_key s_TokenHash (pg_sessions db) h")
    case None
    then show ?thesis unfolding select_session_def join filter_unique[OF d(4)] by (simp add: first_row_def)
  next
    case (Some s)
    then have "s_UserID s \<in> u_ID ` set (pg_users db)" using d(5) by (simp add: by_key_Some[OF d(4)])
    then obtain u where "by_key u_ID (pg_users db) (s_UserID s) = Some u" by (metis by_key_None not_None_eq)
    with Some show ?thesis
      unfolding select_session_def join filter_unique[OF d(4)] by (simp add: filter_unique[OF d(1)] first_row_def)
  qed
qed

lemma delete_sessions_ok:
  assumes "tables_ok db" "delete_sessions P db = (hs, db')"
  shows "tables_ok db'" "pg_users db' = pg_users db" "distinct hs"
    "set hs = {h. \<exists>s. by_key s_TokenHash (pg_sessions db) h = Some s \<and> P s}"
    "by_key s_TokenHash (pg_sessions db') = by_key s_TokenHash (pg_sessions db) |` (- set hs)"
proof -
  note d = tables_okD[OF assms(1)]
  have db': "hs = map s_TokenHash (filter P (pg_sessions db))"
    "db' = db\<lparr>pg_sessions := filter (\<lambda>s. \<not> P s) (pg_sessions db)\<rparr>"
    using assms(2) by (auto simp: delete_sessions_def)
  show "tables_ok db'" "pg_users db' = pg_users db"
    using assms(1) by (auto simp: db' tables_ok_def distinct_map_filter)
  show "distinct hs" using d(4) by (simp add: db' distinct_map_filter)
  show hs: "set hs = {h. \<exists>s. by_key s_TokenHash (pg_sessions db) h = Some s \<and> P s}"
    by (auto simp: db' by_key_Some[OF d(4)])
  show "by_key s_TokenHash (pg_sessions db') = by_key s_TokenHash (pg_sessions db) |` (- set hs)"
    unfolding hs by (simp add: db' by_key_restrict[OF d(4)])
qed

lemma restrict_delete: "m |` (- {k}) = m(k := None)"
  by (rule ext) (simp add: restrict_map_def)

lemma delete_by_hash:
  assumes "tables_ok db" "delete_sessions (\<lambda>s. s_TokenHash s = h) db = (hs, db')"
  shows "by_key s_TokenHash (pg_sessions db) |` (- set hs) = (by_key s_TokenHash (pg_sessions db))(h := None)"
    "hs = [] \<longleftrightarrow> h \<notin> dom (by_key s_TokenHash (pg_sessions db))"
proof -
  note d = tables_okD(4)[OF assms(1)]
  show "by_key s_TokenHash (pg_sessions db) |` (- set hs) = (by_key s_TokenHash (pg_sessions db))(h := None)"
    using assms(2) unfolding delete_sessions_ok(5)[OF assms, symmetric]
    by (auto simp: delete_sessions_def by_key_delete[OF d])
  show "hs = [] \<longleftrightarrow> h \<notin> dom (by_key s_TokenHash (pg_sessions db))"
    using assms(2) filter_unique[OF d, of h] by (auto simp: delete_sessions_def split: option.splits)
qed

end
