(* ===== verification/Postgres_Proofs.thy ===== *)
theory Postgres_Proofs
  imports Postgres
begin

text \<open>
  The PostgreSQL repositories meet the contracts of the user and session stores, whatever else the world
  holds beside the tables: the locale \<open>beside_tables\<close> says what a view of the rest has to satisfy. Then the
  properties of \<^verbatim>\<open>RotateToken\<close> and \<^verbatim>\<open>GetByTokenHash\<close>, and a reference server for their witnesses.
\<close>

section \<open>The tables in a view of the world\<close>

text \<open>\<open>B\<close> abstracts the rest of the world, \<open>I\<close> is its invariant.\<close>

abbreviation pg_tables :: "'r postgres \<Rightarrow> 'r world \<Rightarrow> pg_db" where
  "pg_tables pg w \<equiv> pg_get pg (w_services w)"

definition pg_view :: "('r world \<Rightarrow> vault) \<Rightarrow> 'r postgres \<Rightarrow> 'r world \<Rightarrow> vault" where
  "pg_view B pg w = (B w)\<lparr>v_users := by_key u_ID (pg_users (pg_tables pg w)),
     v_sessions := by_key s_TokenHash (pg_sessions (pg_tables pg w))\<rparr>"

definition pg_inv :: "('r world \<Rightarrow> bool) \<Rightarrow> 'r postgres \<Rightarrow> 'r world \<Rightarrow> bool" where
  "pg_inv I pg w \<longleftrightarrow> I w \<and> database pg \<and> tables_ok (pg_tables pg w)"

lemma pg_invD:
  assumes "pg_inv I pg w"
  shows "I w" "database pg" "tables_ok (pg_tables pg w)"
  using assms by (auto simp: pg_inv_def)

abbreviation with_tables :: "pg_db \<Rightarrow> vault \<Rightarrow> vault" where
  "with_tables db v \<equiv> v\<lparr>v_users := by_key u_ID (pg_users db), v_sessions := by_key s_TokenHash (pg_sessions db)\<rparr>"

lemma pg_view_sel [simp]:
  "v_users (pg_view B pg w) = by_key u_ID (pg_users (pg_tables pg w))"
  "v_sessions (pg_view B pg w) = by_key s_TokenHash (pg_sessions (pg_tables pg w))"
  by (simp_all add: pg_view_def)

lemma with_tables_same [simp]: "with_tables (pg_tables pg w) (pg_view B pg w) = pg_view B pg w"
  by (simp add: pg_view_def)

lemma later_with_tables:
  assumes "later (with_tables db' (pg_view B pg w)) v'"
  shows "pg_sessions db' = pg_sessions (pg_tables pg w) \<Longrightarrow>
      later ((pg_view B pg w)\<lparr>v_users := by_key u_ID (pg_users db')\<rparr>) v'"
    "pg_users db' = pg_users (pg_tables pg w) \<Longrightarrow>
      later ((pg_view B pg w)\<lparr>v_sessions := by_key s_TokenHash (pg_sessions db')\<rparr>) v'"
  using assms by (simp_all add: pg_view_def later_def)

section \<open>One statement against the contract\<close>

locale beside_tables =
  fixes pg :: "'r postgres"
    and I :: "'r world \<Rightarrow> bool"
    and B :: "'r world \<Rightarrow> vault"
  assumes base_tick: "I w \<Longrightarrow> w_now w \<le> t \<Longrightarrow> I (w\<lparr>w_now := t, w_reads := n\<rparr>) \<and> later (B w) (B (w\<lparr>w_now := t, w_reads := n\<rparr>))"
    and base_put: "I w \<Longrightarrow> w_now w \<le> t \<Longrightarrow> I (w\<lparr>w_now := t, w_reads := n, w_services := pg_put pg db (w_services w)\<rparr>)
      \<and> later (B w) (B (w\<lparr>w_now := t, w_reads := n, w_services := pg_put pg db (w_services w)\<rparr>))"
begin

lemma pg_tick:
  assumes "pg_inv I pg w" "w_now w \<le> t"
  shows "pg_inv I pg (w\<lparr>w_now := t, w_reads := n\<rparr>)"
    "later (pg_view B pg w) (pg_view B pg (w\<lparr>w_now := t, w_reads := n\<rparr>))"
  using assms base_tick[OF pg_invD(1)[OF assms(1)] assms(2), of n] by (simp_all add: pg_inv_def pg_view_def later_def)

lemma pg_commit:
  assumes "pg_inv I pg w" "w_now w \<le> t" "tables_ok db"
  shows "pg_inv I pg (w\<lparr>w_now := t, w_reads := n, w_services := pg_put pg db (w_services w)\<rparr>)"
    "later (with_tables db (pg_view B pg w)) (pg_view B pg (w\<lparr>w_now := t, w_reads := n, w_services := pg_put pg db (w_services w)\<rparr>))"
  using assms base_put[OF pg_invD(1)[OF assms(1)] assms(2), of db n]
  by (simp_all add: pg_inv_def pg_view_def later_def database_def)

lemma wp_pg_exec:
  assumes "pg_inv I pg w"
    and "\<And>now uuid a db. fresh_uuid_of (pg_tables pg w) uuid \<Longrightarrow> f now uuid (pg_tables pg w) = Inr (a, db) \<Longrightarrow> tables_ok db"
    and "\<And>s w'. pg_inv I pg w' \<Longrightarrow> later (pg_view B pg w) (pg_view B pg w') \<Longrightarrow> Q (Inl (PgError s)) w'"
    and "\<And>now uuid e w'. pg_inv I pg w' \<Longrightarrow> later (pg_view B pg w) (pg_view B pg w') \<Longrightarrow>
      fresh_uuid_of (pg_tables pg w) uuid \<Longrightarrow> f now uuid (pg_tables pg w) = Inl e \<Longrightarrow> Q (Inl e) w'"
    and "\<And>now uuid a db w'. pg_inv I pg w' \<Longrightarrow> later (with_tables db (pg_view B pg w)) (pg_view B pg w') \<Longrightarrow>
      fresh_uuid_of (pg_tables pg w) uuid \<Longrightarrow> f now uuid (pg_tables pg w) = Inr (a, db) \<Longrightarrow> Q (Inr a) w'"
  shows "wp (pg_exec pg op f) Q w"
proof -
  let ?t = "w_now w + int (w_ticks w (w_reads w))"
  have F: "fresh_uuid_of (pg_tables pg w) (gen_random_uuid pg t (w_services w))" for t
    using assms(1) by (simp add: pg_inv_def database_def fresh_uuid_of_def)
  have ok: "tables_ok db" if "f n (gen_random_uuid pg t (w_services w)) (pg_tables pg w) = Inr (a, db)" for n t a db
    using assms(2)[OF F that] .
  have t: "w_now w \<le> ?t" by simp
  let ?f = "f (pg_now pg ?t (w_services w)) (gen_random_uuid pg ?t (w_services w)) (pg_tables pg w)"
  show ?thesis
  proof (cases "pg_fail pg op ?t (w_services w)")
    case None
    then show ?thesis
      using assms(4)[OF pg_tick[OF assms(1) t] F] assms(5)[OF pg_commit[OF assms(1) t ok] F]
      by (cases ?f) (auto simp: pg_exec_def wp_simps Let_def)
  next
    case (Some err)
    then show ?thesis using assms(3)[OF pg_tick[OF assms(1) t]] by (simp add: pg_exec_def wp_simps Let_def)
  qed
qed

section \<open>The users table meets its contract\<close>

lemma pg_user_Create_refines:
  assumes "pg_inv I pg w"
  shows "wp (pg_user_Create pg e h) (\<lambda>r w'. pg_inv I pg w' \<and> user_Create_spec e h (pg_view B pg w) r (pg_view B pg w')) w"
proof -
  let ?db = "pg_tables pg w"
  have ok: "tables_ok ?db" using assms by (simp add: pg_inv_def)
  note ran = by_key_ran[OF tables_okD(1)[OF ok]]
  show ?thesis
    unfolding pg_user_Create_def wp_simps
  proof (rule wp_pg_exec[OF assms])
    show "tables_ok db" if "fresh_uuid_of ?db uuid" "insert_user uuid now e h ?db = Inr (a, db)" for now uuid a db
      using insert_user_ok(1)[OF ok that] .
  next
    fix uuid now a db and w' :: "'r world"
    assume i: "pg_inv I pg w'" and l: "later (with_tables db (pg_view B pg w)) (pg_view B pg w')"
      and f: "fresh_uuid_of ?db uuid" "insert_user uuid now e h ?db = Inr (a, db)"
    note I = insert_user_ok[OF ok f]
    from later_with_tables(1)[OF l I(7)] show "pg_inv I pg w' \<and> user_Create_spec e h (pg_view B pg w)
        (case Inr a of Inl e \<Rightarrow> if e = UniqueViolation then Inl ErrUserAlreadyExists
           else Inl (ErrOther (''create user: '' @ pg_text e)) | Inr u \<Rightarrow> Inr u) (pg_view B pg w')"
      using i I by (simp add: user_Create_spec_def ran by_key_None domIff)
  qed (auto simp: user_Create_spec_def ran dest: insert_user_err)
qed

end

sublocale beside_tables \<subseteq> user_store "pg_inv I pg" "pg_view B pg" "pg_UserStore pg"
proof (unfold_locales, goal_cases)
  case (1 w e h)
  then show ?case using pg_user_Create_refines by (simp add: pg_UserStore_def)
next
  case (2 w e)
  note d = tables_okD[OF pg_invD(3)[OF 2]]
  show ?case
    unfolding pg_UserStore_def UserStore.select_convs pg_user_GetByEmail_def wp_simps
    by (rule wp_pg_exec[OF 2])
      (use 2 in \<open>auto simp: user_GetByEmail_spec_def by_key_ran[OF d(1)] by_key_Some[OF d(1)] pg_inv_def simp del: pg_view_sel(2)
        dest!: select_user_ok select_user_err\<close>)
next
  case (3 w i)
  note d = tables_okD[OF pg_invD(3)[OF 3]]
  show ?case
    unfolding pg_UserStore_def UserStore.select_convs pg_user_GetByID_def wp_simps
    by (rule wp_pg_exec[OF 3])
      (use 3 in \<open>auto simp: user_GetByID_spec_def by_key_None by_key_Some[OF d(1)] pg_inv_def
        dest!: select_user_ok select_user_err\<close>)
next
  case (4 w i h)
  have ok: "tables_ok (pg_tables pg w)" using 4 by (simp add: pg_inv_def)
  show ?case
    unfolding pg_UserStore_def UserStore.select_convs pg_user_UpdatePasswordHash_def wp_simps
  proof (rule wp_pg_exec[OF 4])
    fix now uuid n db and w' :: "'r world"
    assume "pg_inv I pg w'" and l: "later (with_tables db (pg_view B pg w)) (pg_view B pg w')"
      and u: "update_user now i h (pg_tables pg w) = Inr (n, db)"
    note U = update_user_ok[OF ok u]
    show "pg_inv I pg w' \<and> user_Update_spec i h (pg_view B pg w)
        (case Inr n of Inl e \<Rightarrow> Inl (ErrOther (''update password hash: '' @ pg_text e))
         | Inr n \<Rightarrow> if n = 0 then Inl ErrUserNotFound else Inr ()) (pg_view B pg w')"
    proof (cases "n = 0")
      case True
      then show ?thesis using U(2) l \<open>pg_inv I pg w'\<close> by (simp add: user_Update_spec_def)
    next
      case False
      from U(3)[OF this] obtain u where "by_key u_ID (pg_users (pg_tables pg w)) i = Some u"
        "pg_sessions db = pg_sessions (pg_tables pg w)"
        "by_key u_ID (pg_users db) = (by_key u_ID (pg_users (pg_tables pg w)))(i \<mapsto> u\<lparr>u_PasswordHash := h, u_UpdatedAt := now\<rparr>)"
        by blast
      with later_with_tables(1)[OF l] False \<open>pg_inv I pg w'\<close> show ?thesis
        by (auto simp: user_Update_spec_def)
    qed
  qed (auto simp: user_Update_spec_def update_user_ok(1)[OF ok] update_user_def)
qed

section \<open>The sessions table meets its contract\<close>

context beside_tables
begin

lemma pg_session_Create_refines:
  assumes "pg_inv I pg w" "new_session (pg_view B pg w) s"
  shows "wp (pg_session_Create pg s) (\<lambda>r w'. pg_inv I pg w' \<and> session_Create_spec s (pg_view B pg w) r (pg_view B pg w')) w"
proof -
  have ok: "tables_ok (pg_tables pg w)" and em: "s_UserEmail s = []" "s_TokenHash s \<noteq> []"
    using assms by (auto simp: pg_inv_def new_session_def)
  show ?thesis unfolding pg_session_Create_def wp_simps
  proof (rule wp_pg_exec[OF assms(1)])
    fix now uuid a db and w' :: "'r world"
    assume "pg_inv I pg w'" and l: "later (with_tables db (pg_view B pg w)) (pg_view B pg w')"
      and f: "fresh_uuid_of (pg_tables pg w) uuid" "insert_session uuid now s (pg_tables pg w) = Inr (a, db)"
    note I = insert_session_ok[OF ok f(1) em f(2)]
    from later_with_tables(2)[OF l I(2)] I(3) \<open>pg_inv I pg w'\<close>
    show "pg_inv I pg w' \<and> session_Create_spec s (pg_view B pg w)
       (case Inr a of Inl e \<Rightarrow> Inl (ErrOther (pg_text e)) | Inr s' \<Rightarrow> Inr s') (pg_view B pg w')"
      by (auto simp: session_Create_spec_def)
  qed (auto simp: session_Create_spec_def intro: insert_session_ok(1)[OF ok _ em])
qed

lemma pg_session_Get_refines:
  assumes "pg_inv I pg w"
  shows "wp (pg_session_GetByTokenHash pg h)
    (\<lambda>r w'. pg_inv I pg w' \<and> session_Get_spec h (pg_view B pg w) r (pg_view B pg w')) w"
proof -
  have ok: "tables_ok (pg_tables pg w)" using assms by (simp add: pg_inv_def)
  have same: "(pg_view B pg w)\<lparr>v_sessions := (v_sessions (pg_view B pg w))(h \<mapsto> s)\<rparr> = pg_view B pg w"
    if "by_key s_TokenHash (pg_sessions (pg_tables pg w)) h = Some s" for s
    using that by (simp add: fun_upd_idem pg_view_def)
  show ?thesis unfolding pg_session_GetByTokenHash_def wp_simps select_session_eq[OF ok]
  proof (rule wp_pg_exec[OF assms])
    fix now uuid s' db and w' :: "'r world"
    assume "pg_inv I pg w'" and l: "later (with_tables db (pg_view B pg w)) (pg_view B pg w')"
      and f: "select_session h (pg_tables pg w) = Inr (s', db)"
    from f obtain s e where s: "by_key s_TokenHash (pg_sessions (pg_tables pg w)) h = Some s"
      and "s' = s\<lparr>s_UserEmail := e\<rparr>" "db = pg_tables pg w"
      by (auto simp: select_session_eq[OF ok] split: option.splits)
    with l same[OF s] \<open>pg_inv I pg w'\<close> show "pg_inv I pg w' \<and> session_Get_spec h (pg_view B pg w)
       (case Inr s' of Inl e \<Rightarrow> if e = NoRows then Inl ErrSessionNotFound
          else Inl (ErrOther (''get session by token hash: '' @ pg_text e)) | Inr s \<Rightarrow> Inr s) (pg_view B pg w')"
      by (auto simp: session_Get_spec_def intro!: exI[of _ "s_LastUsedAt s"])
  qed (use ok in \<open>auto simp: session_Get_spec_def select_session_eq[OF ok] split: option.splits\<close>)
qed

lemma later_deleted:
  assumes "delete_sessions P (pg_tables pg w) = (hs, db)" "pg_inv I pg w" "later (with_tables db (pg_view B pg w)) v'"
  shows "later ((pg_view B pg w)\<lparr>v_sessions := v_sessions (pg_view B pg w) |` (- set hs)\<rparr>) v'"
proof -
  have "tables_ok (pg_tables pg w)" using assms(2) by (simp add: pg_inv_def)
  note D = delete_sessions_ok[OF this assms(1)]
  from later_with_tables(2)[OF assms(3) D(2)] show ?thesis by (simp add: D(5))
qed

lemma pg_session_DeleteByID_refines:
  assumes "pg_inv I pg w"
  shows "wp (pg_session_DeleteByID pg i uid)
    (\<lambda>r w'. pg_inv I pg w' \<and> session_DeleteByID_spec i uid (pg_view B pg w) r (pg_view B pg w')) w"
proof -
  let ?P = "\<lambda>s. s_ID s = i \<and> s_UserID s = uid"
  obtain hs db where del: "delete_sessions ?P (pg_tables pg w) = (hs, db)" by fastforce
  have ok: "tables_ok (pg_tables pg w)" using assms by (simp add: pg_inv_def)
  note D = delete_sessions_ok[OF ok del] and d = tables_okD[OF ok]
  have "length (filter ?P xs) \<le> 1" if "distinct (map s_ID xs)" for xs
    using that by (induction xs) (auto simp: filter_empty_conv, metis imageI)
  from this[OF d(3)] have one: "hs = [] \<or> (\<exists>h. hs = [h])"
    using del by (cases "filter ?P (pg_sessions (pg_tables pg w))") (auto simp: delete_sessions_def)
  show ?thesis unfolding pg_session_DeleteByID_def wp_simps del prod.case
  proof (rule wp_pg_exec[OF assms])
    fix now uuid h db' and w' :: "'r world"
    assume "pg_inv I pg w'" and l: "later (with_tables db' (pg_view B pg w)) (pg_view B pg w')"
      and f: "(case delete_sessions ?P (pg_tables pg w) of (hs, db') \<Rightarrow>
         case first_row hs of Inl e \<Rightarrow> Inl e | Inr h \<Rightarrow> Inr (h, db')) = Inr (h, db')"
    from f one have "hs = [h]" "db' = db" by (auto simp: del first_row_def)
    with later_deleted[OF del assms] l D(4) \<open>pg_inv I pg w'\<close>
    show "pg_inv I pg w' \<and> session_DeleteByID_spec i uid (pg_view B pg w)
       (case Inr h of Inl e \<Rightarrow> if e = NoRows then Inl ErrSessionNotFound
          else Inl (ErrOther (''delete session: '' @ pg_text e)) | Inr h \<Rightarrow> Inr h) (pg_view B pg w')"
      by (auto simp: session_DeleteByID_spec_def restrict_delete)
  qed (use D in \<open>auto simp: session_DeleteByID_spec_def del first_row_def ran_def split: list.splits\<close>)
qed

lemma pg_session_Delete_refines:
  assumes "pg_inv I pg w"
  shows "wp (pg_session_DeleteByTokenHash pg h)
    (\<lambda>r w'. pg_inv I pg w' \<and> session_Delete_spec h (pg_view B pg w) r (pg_view B pg w')) w"
proof -
  let ?P = "\<lambda>s. s_TokenHash s = h"
  obtain hs db where del: "delete_sessions ?P (pg_tables pg w) = (hs, db)" by fastforce
  have ok: "tables_ok (pg_tables pg w)" using assms by (simp add: pg_inv_def)
  note D = delete_sessions_ok[OF ok del]
  show ?thesis unfolding pg_session_DeleteByTokenHash_def wp_simps
    by (rule wp_pg_exec[OF assms])
      (use D(1) later_deleted[OF del assms] in \<open>auto simp: session_Delete_spec_def del delete_by_hash(1)[OF ok del]\<close>)
qed

lemma pg_session_Rotate_refines:
  assumes "pg_inv I pg w" "new_session (pg_view B pg w) s"
  shows "wp (pg_session_RotateToken pg old s)
    (\<lambda>r w'. pg_inv I pg w' \<and> session_Rotate_spec old s (pg_view B pg w) r (pg_view B pg w')) w"
proof -
  let ?t = "w_now w + int (w_ticks w (w_reads w))" and ?P = "\<lambda>x. s_TokenHash x = old"
    and ?m = "by_key s_TokenHash (pg_sessions (pg_tables pg w))"
  obtain hs tx where del: "delete_sessions ?P (pg_tables pg w) = (hs, tx)" by fastforce
  have ok: "tables_ok (pg_tables pg w)" and em: "s_UserEmail s = []" "s_TokenHash s \<noteq> []"
    using assms by (auto simp: pg_inv_def new_session_def)
  note D = delete_sessions_ok[OF ok del]
  note old = delete_by_hash(2)[OF ok del] and m = delete_by_hash(1)[OF ok del]
  have tick: "pg_inv I pg (w\<lparr>w_now := ?t, w_reads := n\<rparr>)" "later (pg_view B pg w) (pg_view B pg (w\<lparr>w_now := ?t, w_reads := n\<rparr>))" for n
    using pg_tick[OF assms(1)] by simp_all
  have F: "fresh_uuid_of tx (gen_random_uuid pg ?t (w_services w))"
  proof -
    have "fresh_uuid_of (pg_tables pg w) (gen_random_uuid pg ?t (w_services w))"
      using assms(1) by (simp add: pg_inv_def database_def fresh_uuid_of_def)
    with del show ?thesis by (auto simp: fresh_uuid_of_def delete_sessions_def)
  qed
  have new: "pg_inv I pg w' \<and> session_Rotate_spec old s (pg_view B pg w) (Inr s') (pg_view B pg w')"
    if i: "insert_session (gen_random_uuid pg ?t (w_services w)) n s tx = Inr (s', tx')" and "hs \<noteq> []"
      and w': "w' = w\<lparr>w_now := ?t, w_reads := k, w_services := pg_put pg tx' (w_services w)\<rparr>" for n s' tx' w' k
  proof -
    note I = insert_session_ok[OF D(1) F em i]
    have "later (with_tables tx' (pg_view B pg w)) (pg_view B pg w')"
      unfolding w' using pg_commit(2)[OF assms(1) _ I(1)] by simp
    then have "later ((pg_view B pg w)\<lparr>v_sessions := by_key s_TokenHash (pg_sessions tx')\<rparr>) (pg_view B pg w')"
      using I(2) D(2) later_with_tables(2) by metis
    moreover have "pg_inv I pg w'" unfolding w' using pg_commit(1)[OF assms(1) _ I(1)] by simp
    ultimately show ?thesis using I(3) old \<open>hs \<noteq> []\<close> by (auto simp: session_Rotate_spec_def D(5) m)
  qed
  have err: "session_Rotate_spec old s (pg_view B pg w) (Inl e) (pg_view B pg (w\<lparr>w_now := ?t, w_reads := n\<rparr>))"
    if "e = ErrSessionNotFound \<Longrightarrow> hs = []" for e n
    using that tick(2)[of n] old by (auto simp: session_Rotate_spec_def)
  show ?thesis
    unfolding pg_session_RotateToken_def wp_simps Let_def del
    using tick(1)
    by (auto split: option.split sum.split simp: wp_simps del intro!: err new[THEN conjunct1, OF _ _ refl] new[THEN conjunct2, OF _ _ refl])
qed

text \<open>Bulk deletions: a failure may come before or after the statement has taken effect.\<close>

lemma pg_delete_rows_refines:
  assumes "pg_inv I pg w"
    and P: "\<And>s. s \<in> set (pg_sessions (pg_tables pg w)) \<Longrightarrow> P s \<longleftrightarrow> s_UserID s = uid \<and> s_TokenHash s \<notin> keep"
    and Q: "\<And>r w'. pg_inv I pg w' \<Longrightarrow> session_DeleteAll_spec uid keep (pg_view B pg w)
       (case r of Inl e \<Rightarrow> ([], Some (g e)) | Inr (hs, err) \<Rightarrow> (hs, map_option ErrOther err)) (pg_view B pg w') \<Longrightarrow> Q r w'"
  shows "wp (pg_delete_rows pg op P) Q w"
proof -
  let ?t = "w_now w + int (w_ticks w (w_reads w))" and ?m = "by_key s_TokenHash (pg_sessions (pg_tables pg w))"
  obtain hs db where del: "delete_sessions P (pg_tables pg w) = (hs, db)" by fastforce
  have ok: "tables_ok (pg_tables pg w)" using assms by (simp add: pg_inv_def)
  note D = delete_sessions_ok[OF ok del]
  have hs: "set hs = user_hashes ?m uid - keep"
    unfolding D(4) user_hashes_def by (auto simp: by_key_Some[OF tables_okD(4)[OF ok]] P)
  have t: "w_now w \<le> ?t" by simp
  note tick = pg_tick[OF assms(1) t] and com = pg_commit[OF assms(1) t D(1)]
  note gone = later_deleted[OF del assms(1) com(2)]
  have kept: "session_DeleteAll_spec uid keep (pg_view B pg w) (take n hs, Some e) (pg_view B pg (w\<lparr>w_now := ?t, w_reads := k\<rparr>))"
    and early: "session_DeleteAll_spec uid keep (pg_view B pg w) (take n hs, Some e)
      (pg_view B pg (w\<lparr>w_now := ?t, w_reads := k, w_services := pg_put pg db (w_services w)\<rparr>))"
    and all: "session_DeleteAll_spec uid keep (pg_view B pg w) (hs, None)
      (pg_view B pg (w\<lparr>w_now := ?t, w_reads := k, w_services := pg_put pg db (w_services w)\<rparr>))" for n e k
    using gone tick(2) D(3) set_take_subset[of n hs] by (auto simp: session_DeleteAll_spec_def Let_def hs)
  show ?thesis
    unfolding pg_delete_rows_def wp_simps Let_def del
    by (auto simp: wp_simps del split: option.split rows_end.split
        intro!: Q tick(1) com(1) kept kept[of 0, simplified] early early[of 0, simplified] all)
qed

lemma pg_session_Rotate_gone:
  assumes "pg_inv I pg w" "v_sessions (pg_view B pg w) old = None"
  shows "wp (pg_session_RotateToken pg old s)
    (\<lambda>r w'. pg_inv I pg w' \<and> later (pg_view B pg w) (pg_view B pg w') \<and> (\<exists>e. r = Inl e)) w"
proof -
  have ok: "tables_ok (pg_tables pg w)" using assms(1) by (simp add: pg_inv_def)
  obtain hs tx where del: "delete_sessions (\<lambda>x. s_TokenHash x = old) (pg_tables pg w) = (hs, tx)" by fastforce
  then have "hs = []" using delete_by_hash(2)[OF ok del] assms(2) by (auto simp: dom_def)
  with del pg_tick(1)[OF assms(1), of "w_now w + int (w_ticks w (w_reads w))"]
    pg_tick(2)[OF assms(1), of "w_now w + int (w_ticks w (w_reads w))"]
  show ?thesis by (auto simp: pg_session_RotateToken_def wp_simps Let_def split: option.split)
qed

end

sublocale beside_tables \<subseteq> session_store "pg_inv I pg" "pg_view B pg" "pg_SessionStore pg" False
proof (unfold_locales, goal_cases)
  case (1 w s)
  then show ?case by (simp add: pg_SessionStore_def pg_session_Create_refines)
next
  case (2 w h)
  then show ?case by (simp add: pg_SessionStore_def pg_session_Get_refines)
next
  case (3 w i uid)
  then show ?case by (simp add: pg_SessionStore_def pg_session_DeleteByID_refines)
next
  case (4 w h)
  then show ?case by (simp add: pg_SessionStore_def pg_session_Delete_refines)
next
  case (5 w s old)
  then show ?case by (simp add: pg_SessionStore_def pg_session_Rotate_refines)
next
  case (6 w old s)
  then show ?case by (simp add: pg_SessionStore_def pg_session_Rotate_gone)
next
  case (7 w uid)
  then show ?case
    unfolding pg_SessionStore_def SessionStore.select_convs pg_session_DeleteAllByUserID_def wp_simps
    by (rule pg_delete_rows_refines[where keep = "{}" and g = "\<lambda>e. ErrOther (''delete all sessions: '' @ pg_text e)"]) auto
next
  case (8 w uid keep)
  have ok: "tables_ok (pg_tables pg w)" using 8 by (simp add: pg_inv_def)
  from 8 show ?case
    unfolding pg_SessionStore_def SessionStore.select_convs pg_session_DeleteAllByUserIDExcept_def wp_simps
    by (rule pg_delete_rows_refines[where keep = "{keep}" and g = "\<lambda>e. ErrOther (''delete sessions except one: '' @ pg_text e)"])
      (auto dest: tables_okD(6)[OF ok])
next
  case (9 w uid)
  note d = tables_okD[OF pg_invD(3)[OF 9]]
  have "distinct (map s_TokenHash (sort_key f xs)) \<longleftrightarrow> distinct (map s_TokenHash xs)" for f :: "Session \<Rightarrow> int" and xs
    by (metis mset_sort mset_map mset_eq_imp_distinct_iff)
  then show ?case
    using 9 pg_tick(1)[OF 9, of "w_now w + int (w_ticks w (w_reads w))"]
      pg_tick(2)[OF 9, of "w_now w + int (w_ticks w (w_reads w))"]
    by (auto simp: pg_SessionStore_def pg_session_ListByUserID_def wp_simps Let_def session_List_spec_def
        by_key_ran[OF d(4)] distinct_map_filter[OF d(4)] split: option.split rows_end.split)
qed

text \<open>Nothing beside the tables but the in-memory part of the world.\<close>

interpretation pg: beside_tables pg "\<lambda>_. True" "mem_view C" for pg :: "'r postgres" and C
  by unfold_locales (auto simp: mem_view_def later_def)

section \<open>Properties\<close>


text \<open>
  Claim C16. Of two \<^verbatim>\<open>RotateToken\<close> transactions on the same old digest at most one succeeds on PostgreSQL: once
  the first has replaced the session, the replayed one is refused.
\<close>

theorem pg_rotate_once:
  assumes "pg_inv (\<lambda>_. True) pg w" "new_session (pg_view (mem_view C) pg w) s" "s_TokenHash s \<noteq> old"
  shows "wp (do { a \<leftarrow> pg_session_RotateToken pg old s; b \<leftarrow> pg_session_RotateToken pg old s2; ret (a, b) })
    (\<lambda>(a, b) w'. \<forall>s' s2'. a = Inr s' \<longrightarrow> b \<noteq> Inr s2') w"
proof -
  have no: "wp (pg_session_RotateToken pg old s2) (\<lambda>b _. \<forall>s2'. b \<noteq> Inr s2') w'"
    if "pg_inv (\<lambda>_. True) pg w'" "v_sessions (pg_view (mem_view C) pg w') old = None" for w'
    by (rule wp_mono[OF pg.pg_session_Rotate_gone[OF that]]) auto
  show ?thesis unfolding wp_bind
  proof (rule wp_mono[OF pg.pg_session_Rotate_refines[OF assms(1,2)]], elim conjE)
    fix a w' assume w': "pg_inv (\<lambda>_. True) pg w'" and a: "session_Rotate_spec old s (pg_view (mem_view C) pg w) a (pg_view (mem_view C) pg w')"
    show "wp (pg_session_RotateToken pg old s2) (\<lambda>b. wp (ret (a, b)) (\<lambda>(a, b) w'. \<forall>s' s2'. a = Inr s' \<longrightarrow> b \<noteq> Inr s2')) w'"
    proof (cases a)
      case (Inr s')
      with a assms(3) have "v_sessions (pg_view (mem_view C) pg w') old = None"
        by (auto simp: session_Rotate_spec_def later_iff simp del: pg_view_sel)
      from wp_mono[OF no[OF w' this]] show ?thesis by (auto simp: wp_simps)
    qed (simp add: wp_def split: prod.split)
  qed
qed

text \<open>
  On PostgreSQL \<^verbatim>\<open>GetByTokenHash\<close> returns the stored session of the digest together with the
  e-mail address of its user, and answers \<^verbatim>\<open>ErrSessionNotFound\<close> only when there is none; it changes no row.
\<close>

theorem pg_get_joins_email:
  assumes "pg_inv (\<lambda>_. True) pg w"
  shows "wp (pg_session_GetByTokenHash pg h) (\<lambda>r w'. pg_tables pg w' = pg_tables pg w \<and>
    (case r of
       Inr s' \<Rightarrow> \<exists>s u. v_sessions (pg_view (mem_view C) pg w) h = Some s \<and> v_users (pg_view (mem_view C) pg w) (s_UserID s) = Some u
         \<and> s' = s\<lparr>s_UserEmail := u_Email u\<rparr>
     | Inl e \<Rightarrow> e = ErrSessionNotFound \<longrightarrow> v_sessions (pg_view (mem_view C) pg w) h = None)) w"
proof -
  have db: "database pg" and ok: "tables_ok (pg_tables pg w)" using assms by (simp_all add: pg_inv_def)
  have "\<exists>u. by_key u_ID (pg_users (pg_tables pg w)) (s_UserID s) = Some u"
    if "by_key s_TokenHash (pg_sessions (pg_tables pg w)) h = Some s" for s
    using that tables_okD(5)[OF ok, of s] by (simp add: by_key_Some[OF tables_okD(4)[OF ok]]) (metis by_key_None not_None_eq)
  with db show ?thesis
    by (auto simp: pg_session_GetByTokenHash_def pg_exec_def wp_simps Let_def select_session_eq[OF ok] database_def
        split: option.split)
qed

section \<open>A reference server\<close>

definition ref_uuid :: "pg_db \<Rightarrow> string" where
  "ref_uuid db = replicate (Suc (sum_list (map (length \<circ> u_ID) (pg_users db)) + sum_list (map (length \<circ> s_ID) (pg_sessions db)))) (CHR ''a'')"

definition ref_postgres :: "pg_db postgres" where
  "ref_postgres = \<lparr>pg_get = (\<lambda>db. db), pg_put = (\<lambda>db _. db), pg_fail = (\<lambda>_ _ _. None), pg_rows = (\<lambda>_ _ _. AllRows),
     pg_now = (\<lambda>t _. timestamptz t), gen_random_uuid = (\<lambda>_ db. ref_uuid db)\<rparr>"

definition pg_world :: "pg_db \<Rightarrow> pg_db world" where
  "pg_world db = \<lparr>w_now = 0, w_ticks = (\<lambda>_. 1), w_reads = 0, w_rand = [], w_uuid = (\<lambda>_. []), w_uuids = 0, w_order = (\<lambda>m. m),
     w_tasks = [], w_users = \<lparr>us_heap = [], us_byID = [], us_byEmail = []\<rparr>,
     w_sessions = \<lparr>ss_heap = [], ss_byID = [], ss_byHash = []\<rparr>, w_cache = [],
     w_resets = \<lparr>rs_otps = [], rs_resetTokens = []\<rparr>, w_local = [], w_services = db\<rparr>"

definition pg_crypto :: crypto where
  "pg_crypto = \<lparr>sha256 = (\<lambda>s. take 32 (s @ replicate 32 (CHR ''0''))), IDKey = (\<lambda>p s t m j n. Some [])\<rparr>"

definition demo_row :: "string \<Rightarrow> string \<Rightarrow> Session" where
  "demo_row i h = \<lparr>s_ID = i, s_UserID = ''u0'', s_UserEmail = [], s_TokenHash = h, s_DeviceID = ''d'', s_UserAgent = ''ua'',
     s_IPAddress = ''9.9.9.9'', s_ExpiresAt = 60 * second, s_LastUsedAt = 0, s_CreatedAt = 0\<rparr>"

definition demo_tables :: pg_db where
  "demo_tables = \<lparr>pg_users = [\<lparr>u_ID = ''u0'', u_Email = ''a@b.co'', u_PasswordHash = ''x'', u_CreatedAt = 0, u_UpdatedAt = 0\<rparr>],
     pg_sessions = [demo_row ''s0'' ''h0''], pg_audit = []\<rparr>"

lemma ref_database: "database ref_postgres"
proof -
  have le: "x \<in> set xs \<Longrightarrow> length (f x) \<le> sum_list (map (length \<circ> f) xs)" for f :: "'a \<Rightarrow> string" and x xs
    by (rule member_le_sum_list) auto
  have "length (ref_uuid db) \<notin> length ` (u_ID ` set (pg_users db) \<union> s_ID ` set (pg_sessions db))" for db
    unfolding ref_uuid_def by (auto dest!: le[of _ _ u_ID] le[of _ _ s_ID])
  then have "ref_uuid db \<notin> u_ID ` set (pg_users db) \<union> s_ID ` set (pg_sessions db)" for db by blast
  then show ?thesis by (simp add: database_def ref_postgres_def)
qed

lemma demo_pg_inv: "pg_inv (\<lambda>_. True) ref_postgres (pg_world demo_tables)"
  by (simp add: pg_inv_def ref_database tables_ok_def) (simp add: ref_postgres_def pg_world_def demo_tables_def demo_row_def)

lemma demo_new_session: "new_session (pg_view (mem_view C) ref_postgres (pg_world demo_tables)) (demo_row [] ''h1'')"
  by (simp add: new_session_def domIff by_key_None) (simp add: ref_postgres_def pg_world_def demo_tables_def demo_row_def)

lemmas demo_pg_simps = pg_session_RotateToken_def pg_session_GetByTokenHash_def pg_exec_def wp_simps Let_def ref_postgres_def pg_world_def
  demo_tables_def demo_row_def delete_sessions_def insert_session_def select_session_def first_row_def ref_uuid_def


theorem pg_rotate_once_witness:
  "wp (do { a \<leftarrow> pg_session_RotateToken ref_postgres ''h0'' (demo_row [] ''h1'');
            b \<leftarrow> pg_session_RotateToken ref_postgres ''h0'' (demo_row [] ''h2''); ret (a, b) })
    (\<lambda>(a, b) w'. isl a = False \<and> isl b) (pg_world demo_tables)"
proof -
  have "wp (pg_session_RotateToken ref_postgres ''h0'' (demo_row [] ''h1'')) (\<lambda>r _. isl r = False) (pg_world demo_tables)"
    by (simp add: demo_pg_simps)
  moreover have "s_TokenHash (demo_row [] ''h1'') \<noteq> ''h0''" by (simp add: demo_row_def)
  note pg_rotate_once[OF demo_pg_inv demo_new_session this, of "demo_row [] ''h2''"]
  ultimately show ?thesis
    by (auto simp: wp_def isl_def split: prod.splits) (metis sum.exhaust)+
qed

theorem pg_get_joins_email_witness:
  "wp (pg_session_GetByTokenHash ref_postgres ''h0'') (\<lambda>r _. r = Inr ((demo_row ''s0'' ''h0'')\<lparr>s_UserEmail := ''a@b.co''\<rparr>))
     (pg_world demo_tables)"
proof -
  have "wp (pg_session_GetByTokenHash ref_postgres ''h0'') (\<lambda>r _. \<exists>x. r = Inr x) (pg_world demo_tables)"
    by (simp add: demo_pg_simps)
  from wp_conj[OF this pg_get_joins_email[OF demo_pg_inv, of "''h0''"]] show ?thesis
    by (rule wp_mono) (auto simp: by_key_def ref_postgres_def pg_world_def demo_tables_def demo_row_def)
qed

end
