(* ===== verification/App.thy ===== *)
theory App
  imports Memory_Service Interceptors Redis_Cache Postgres_Proofs
begin

text \<open>
  \<^verbatim>\<open>internal/app\<close>: reading the configuration into a running server. \<^verbatim>\<open>app.go\<close> chooses the token manager,
  loads its key and wires the PostgreSQL and Redis adapters into the service; \<^verbatim>\<open>gateway/app.go\<close> sets up the
  HTTP gateway. Also the event hook that does nothing (\<^verbatim>\<open>adapters/hooks\<close>). Files, PEM and X.509
  decoding, the gateway's router and the network are parameters.
\<close>

section \<open>Configuration\<close>

record JWTConfig =
  cfg_Secret :: string
  cfg_AccessTTL :: duration
  cfg_RefreshTTL :: duration
  cfg_Algorithm :: string
  cfg_PrivateKeyPath :: string

record BruteForceConfig =
  cfg_MaxAttempts :: int
  cfg_Window :: duration
  cfg_LockoutTTL :: duration

record RateLimitConfig =
  cfg_GlobalRPM :: int
  cfg_LoginRPM :: int

record SecurityConfig =
  cfg_BruteForce :: BruteForceConfig
  cfg_RateLimit :: RateLimitConfig

record GatewayConfig =
  cfg_GatewayPort :: int
  cfg_GRPCTarget :: string
  cfg_GRPCTLSCert :: string

section \<open>The token manager\<close>

text \<open>What \<^verbatim>\<open>x509.ParsePKCS8PrivateKey\<close> may return; the last case carries the name of another type.\<close>

datatype pkcs8_key = PKCS8_RSA string | PKCS8_ECDSA string | PKCS8_other string

record keylib =
  os_ReadFile :: "string \<Rightarrow> string + string"
  pem_Decode :: "string \<Rightarrow> string option"
  ParsePKCS1PrivateKey :: "string \<Rightarrow> string + string"
  ParseECPrivateKey :: "string \<Rightarrow> string + string"
  ParsePKCS8PrivateKey :: "string \<Rightarrow> string + pkcs8_key"

fun type_name :: "pkcs8_key \<Rightarrow> string" where
  "type_name (PKCS8_RSA _) = ''*rsa.PrivateKey''"
| "type_name (PKCS8_ECDSA _) = ''*ecdsa.PrivateKey''"
| "type_name (PKCS8_other t) = t"

definition parseRSAKey :: "keylib \<Rightarrow> string \<Rightarrow> string + string" where
  "parseRSAKey K pemBytes =
     (case pem_Decode K pemBytes of
        None \<Rightarrow> Inl ''no PEM block found''
      | Some block \<Rightarrow>
     (case ParsePKCS1PrivateKey K block of
        Inr key \<Rightarrow> Inr key
      | Inl _ \<Rightarrow>
     (case ParsePKCS8PrivateKey K block of
        Inl err \<Rightarrow> Inl (''parse RSA private key (PKCS1/PKCS8): '' @ err)
      | Inr key \<Rightarrow>
     (case key of
        PKCS8_RSA rsaKey \<Rightarrow> Inr rsaKey
      | _ \<Rightarrow> Inl (''PEM key is not RSA (got '' @ type_name key @ '')'')))))"

definition parseECDSAKey :: "keylib \<Rightarrow> string \<Rightarrow> string + string" where
  "parseECDSAKey K pemBytes =
     (case pem_Decode K pemBytes of
        None \<Rightarrow> Inl ''no PEM block found''
      | Some block \<Rightarrow>
     (case ParseECPrivateKey K block of
        Inr key \<Rightarrow> Inr key
      | Inl _ \<Rightarrow>
     (case ParsePKCS8PrivateKey K block of
        Inl err \<Rightarrow> Inl (''parse ECDSA private key (EC/PKCS8): '' @ err)
      | Inr key \<Rightarrow>
     (case key of
        PKCS8_ECDSA ecKey \<Rightarrow> Inr ecKey
      | _ \<Rightarrow> Inl (''PEM key is not ECDSA (got '' @ type_name key @ '')'')))))"

text \<open>The result is \<^const>\<open>None\<close> when \<^verbatim>\<open>NewHS256Manager\<close> panics. \<open>quote\<close> is the verb \<^verbatim>\<open>%q\<close>.\<close>

definition buildTokenManager :: "(string \<Rightarrow> string) \<Rightarrow> keylib \<Rightarrow> JWTConfig \<Rightarrow> (string + token_manager_choice) option" where
  "buildTokenManager quote K cfg =
     (if cfg_Algorithm cfg \<in> {'''', ''hs256''} then
        map_option (\<lambda>m. Inr (UseHS256 m)) (NewHS256Manager (cfg_Secret cfg) (cfg_AccessTTL cfg))
      else if cfg_Algorithm cfg = ''rs256'' then Some
        (case os_ReadFile K (cfg_PrivateKeyPath cfg) of
           Inl err \<Rightarrow> Inl (''read RSA key '' @ quote (cfg_PrivateKeyPath cfg) @ '': '' @ err)
         | Inr keyBytes \<Rightarrow>
        (case parseRSAKey K keyBytes of
           Inl err \<Rightarrow> Inl (''parse RSA key: '' @ err)
         | Inr priv \<Rightarrow> Inr (UseRS256 (NewRS256Manager priv (cfg_AccessTTL cfg)))))
      else if cfg_Algorithm cfg = ''es256'' then Some
        (case os_ReadFile K (cfg_PrivateKeyPath cfg) of
           Inl err \<Rightarrow> Inl (''read ECDSA key '' @ quote (cfg_PrivateKeyPath cfg) @ '': '' @ err)
         | Inr keyBytes \<Rightarrow>
        (case parseECDSAKey K keyBytes of
           Inl err \<Rightarrow> Inl (''parse ECDSA key: '' @ err)
         | Inr priv \<Rightarrow> Inr (UseES256 (NewES256Manager priv (cfg_AccessTTL cfg)))))
      else Some (Inl (''unsupported JWT_ALGORITHM '' @ quote (cfg_Algorithm cfg) @ '': must be hs256, rs256, or es256'')))"

section \<open>Wiring\<close>

definition NoOp :: "'w EventHook" where
  "NoOp = \<lparr>hk_OnEvent = (\<lambda>_. ret None)\<rparr>"

text \<open>The clients that \<^verbatim>\<open>main\<close> passes in, and the libraries behind the adapters.\<close>

record 'r backends =
  be_db :: "'r postgres"
  be_redis :: "'r redis"
  be_json :: json
  be_marshal :: "string gomap \<Rightarrow> string + string"
  be_lib :: "'r world golib"
  be_jwt :: jwtlib
  be_keys :: keylib
  be_quote :: "string \<Rightarrow> string"

definition app_service :: "'r backends \<Rightarrow> token_manager_choice \<Rightarrow> SecurityConfig \<Rightarrow> duration \<Rightarrow> 'r world AuthService" where
  "app_service be mgr sec ttl =
     New (pg_UserStore (be_db be)) (pg_SessionStore (be_db be))
       (access_tokens (be_jwt be) (lib_runtime (be_lib be)) mgr)
       (redis_SessionCache \<lparr>ca_client = be_redis be, ca_json = be_json be\<rparr>)
       (redis_ResetCache (lib_crypto (be_lib be)) \<lparr>ca_client = be_redis be, ca_json = be_json be\<rparr>)
       (Some \<lparr>as_Log = pg_audit_Log (be_marshal be) (be_db be)\<rparr>)
       (Some (guard_methods (NewGuard (be_redis be) (cfg_MaxAttempts (cfg_BruteForce sec))
          (cfg_Window (cfg_BruteForce sec)) (cfg_LockoutTTL (cfg_BruteForce sec)))))
       (Some NoOp) ttl"

text \<open>
  \<^verbatim>\<open>app.New\<close>. The gRPC application is the service behind its interceptors; the gateway's fields are those
  that \<^verbatim>\<open>gateway.New\<close> sets.
\<close>

record gateway_app =
  gw_port :: int
  gw_grpcTarget :: string
  gw_grpcTLSCert :: string
  gw_env :: string

definition gateway_New :: "int \<Rightarrow> int \<Rightarrow> string \<Rightarrow> string \<Rightarrow> string \<Rightarrow> gateway_app" where
  "gateway_New port grpcPort grpcTarget grpcTLSCert env =
     \<lparr>gw_port = port,
      gw_grpcTarget = (if grpcTarget = [] then ''localhost:'' @ itoa_int grpcPort else grpcTarget),
      gw_grpcTLSCert = grpcTLSCert, gw_env = env\<rparr>"

record 'r App =
  app_authService :: "'r world AuthService"
  app_handler :: "ctx \<Rightarrow> rpc \<Rightarrow> ('r world, (rpc_error + rpc_reply) \<times> access_line option) state"
  app_grpcPort :: int
  app_gateway :: gateway_app

definition app_New ::
  "'r backends \<Rightarrow> int \<Rightarrow> int \<Rightarrow> JWTConfig \<Rightarrow> SecurityConfig \<Rightarrow> GatewayConfig \<Rightarrow> string \<Rightarrow> (string + 'r App) option" where
  "app_New be grpcPort gatewayPort jwtCfg secCfg gatewayCfg env =
     (case buildTokenManager (be_quote be) (be_keys be) jwtCfg of
        None \<Rightarrow> None
      | Some (Inl err) \<Rightarrow> Some (Inl (''build token manager: '' @ err))
      | Some (Inr mgr) \<Rightarrow>
          (let service = app_service be mgr secCfg (cfg_RefreshTTL jwtCfg);
               globalLimiter = NewLimiter (be_redis be) (cfg_GlobalRPM (cfg_RateLimit secCfg)) minute;
               loginLimiter = NewLimiter (be_redis be) (cfg_LoginRPM (cfg_RateLimit secCfg)) minute
           in Some (Inr \<lparr>app_authService = service,
                app_handler = grpc_call globalLimiter loginLimiter (be_lib be) service,
                app_grpcPort = grpcPort,
                app_gateway = gateway_New gatewayPort grpcPort (cfg_GRPCTarget gatewayCfg) (cfg_GRPCTLSCert gatewayCfg) env\<rparr>)))"

section \<open>The gateway\<close>

text \<open>
  \<^verbatim>\<open>run\<close> up to the end of \<^verbatim>\<open>ListenAndServe\<close>. The network gives the outcome of each step, \<^const>\<open>None\<close> being
  success; the server that is started is returned beside the error.
\<close>

datatype credentials = TLSCreds string | InsecureCreds

datatype serve_end = ServerClosed | ServeErr string

record gateway_net =
  gn_NewClientTLSFromFile :: "string \<Rightarrow> string option"
  gn_RegisterHandler :: "string \<Rightarrow> credentials \<Rightarrow> string option"
  gn_HandlePath :: "string \<Rightarrow> string option"
  gn_ListenAndServe :: "string \<Rightarrow> serve_end"

record http_server =
  srv_Addr :: string
  srv_backend :: "string \<times> credentials"
  srv_docs :: "string list"
  srv_ReadHeaderTimeout :: duration
  srv_ReadTimeout :: duration
  srv_WriteTimeout :: duration
  srv_IdleTimeout :: duration

definition transport_creds :: "gateway_net \<Rightarrow> gateway_app \<Rightarrow> string + credentials" where
  "transport_creds N a =
     (if gw_grpcTLSCert a \<noteq> [] then
        (case gn_NewClientTLSFromFile N (gw_grpcTLSCert a) of
           Some err \<Rightarrow> Inl (''gateway.run: load gRPC TLS cert: '' @ err)
         | None \<Rightarrow> Inr (TLSCreds (gw_grpcTLSCert a)))
      else Inr InsecureCreds)"

definition docs_routes :: "gateway_net \<Rightarrow> gateway_app \<Rightarrow> string + string list" where
  "docs_routes N a =
     (if gw_env a = ''prod'' then Inr []
      else case gn_HandlePath N ''/openapi.json'' of
        Some err \<Rightarrow> Inl (''gateway.run: register /openapi.json: '' @ err)
      | None \<Rightarrow>
          (case gn_HandlePath N ''/docs'' of
             Some err \<Rightarrow> Inl (''gateway.run: register /docs: '' @ err)
           | None \<Rightarrow> Inr [''/openapi.json'', ''/docs'']))"

definition gateway_run :: "gateway_net \<Rightarrow> gateway_app \<Rightarrow> string option \<times> http_server option" where
  "gateway_run N a =
     (case transport_creds N a of
        Inl err \<Rightarrow> (Some err, None)
      | Inr creds \<Rightarrow>
     (case gn_RegisterHandler N (gw_grpcTarget a) creds of
        Some err \<Rightarrow> (Some (''gateway.run: '' @ err), None)
      | None \<Rightarrow>
     (case docs_routes N a of
        Inl err \<Rightarrow> (Some err, None)
      | Inr docs \<Rightarrow>
          (let server = \<lparr>srv_Addr = '':'' @ itoa_int (gw_port a), srv_backend = (gw_grpcTarget a, creds), srv_docs = docs,
                 srv_ReadHeaderTimeout = 5 * second, srv_ReadTimeout = 10 * second,
                 srv_WriteTimeout = 30 * second, srv_IdleTimeout = 120 * second\<rparr>
           in (case gn_ListenAndServe N (srv_Addr server) of
                 ServerClosed \<Rightarrow> None
               | ServeErr err \<Rightarrow> Some (''gateway.run: '' @ err), Some server)))))"

section \<open>Properties\<close>

text \<open>The family of algorithms a manager signs with and accepts, and its lifetime.\<close>

fun accepts :: "token_manager_choice \<Rightarrow> SigningMethod \<Rightarrow> bool" where
  "accepts (UseHS256 m) t \<longleftrightarrow> (case t of SigningMethodHMAC _ \<Rightarrow> True | _ \<Rightarrow> False)"
| "accepts (UseRS256 m) t \<longleftrightarrow> (case t of SigningMethodRSA _ \<Rightarrow> True | _ \<Rightarrow> False)"
| "accepts (UseES256 m) t \<longleftrightarrow> (case t of SigningMethodECDSA _ \<Rightarrow> True | _ \<Rightarrow> False)"

fun manager_ttl :: "token_manager_choice \<Rightarrow> duration" where
  "manager_ttl (UseHS256 m) = hs_accessTTL m"
| "manager_ttl (UseRS256 m) = rs_accessTTL m"
| "manager_ttl (UseES256 m) = es_accessTTL m"

lemma parseRSAKey_iff:
  "parseRSAKey K pem = Inr k \<longleftrightarrow> (\<exists>block. pem_Decode K pem = Some block \<and> (ParsePKCS1PrivateKey K block = Inr k
     \<or> isl (ParsePKCS1PrivateKey K block) \<and> ParsePKCS8PrivateKey K block = Inr (PKCS8_RSA k)))"
  by (auto simp: parseRSAKey_def split: option.split sum.split pkcs8_key.split)

lemma parseECDSAKey_iff:
  "parseECDSAKey K pem = Inr k \<longleftrightarrow> (\<exists>block. pem_Decode K pem = Some block \<and> (ParseECPrivateKey K block = Inr k
     \<or> isl (ParseECPrivateKey K block) \<and> ParsePKCS8PrivateKey K block = Inr (PKCS8_ECDSA k)))"
  by (auto simp: parseECDSAKey_def split: option.split sum.split pkcs8_key.split)

text \<open>The three ways a manager is built.\<close>

lemma buildTokenManager_Some:
  "buildTokenManager q K cfg = Some (Inr m) \<longleftrightarrow>
     (cfg_Algorithm cfg \<in> {[], ''hs256''} \<and> 32 \<le> length (cfg_Secret cfg)
        \<and> m = UseHS256 \<lparr>hs_secret = cfg_Secret cfg, hs_accessTTL = cfg_AccessTTL cfg\<rparr>)
   \<or> (cfg_Algorithm cfg = ''rs256'' \<and> (\<exists>pem k. os_ReadFile K (cfg_PrivateKeyPath cfg) = Inr pem \<and> parseRSAKey K pem = Inr k
        \<and> m = UseRS256 \<lparr>rs_priv = k, rs_accessTTL = cfg_AccessTTL cfg\<rparr>))
   \<or> (cfg_Algorithm cfg = ''es256'' \<and> (\<exists>pem k. os_ReadFile K (cfg_PrivateKeyPath cfg) = Inr pem \<and> parseECDSAKey K pem = Inr k
        \<and> m = UseES256 \<lparr>es_priv = k, es_accessTTL = cfg_AccessTTL cfg\<rparr>))"
proof -
  consider (hs) "cfg_Algorithm cfg \<in> {[], ''hs256''}" | (rs) "cfg_Algorithm cfg = ''rs256''" | (es) "cfg_Algorithm cfg = ''es256''"
    | (other) "cfg_Algorithm cfg \<notin> {[], ''hs256'', ''rs256'', ''es256''}" by blast
  then show ?thesis
  proof cases
    case hs
    then show ?thesis by (auto simp: buildTokenManager_def NewHS256Manager_def)
  next
    case rs
    then show ?thesis by (auto simp: buildTokenManager_def NewRS256Manager_def split: sum.split)
  next
    case es
    then show ?thesis by (auto simp: buildTokenManager_def NewES256Manager_def split: sum.split)
  next
    case other
    then show ?thesis by (simp add: buildTokenManager_def)
  qed
qed

lemma built_manager_ttl: "buildTokenManager q K cfg = Some (Inr m) \<Longrightarrow> manager_ttl m = cfg_AccessTTL cfg"
  unfolding buildTokenManager_Some by fastforce

text \<open>Every manager signs with one method and key, and its key function gives the public half for that method.\<close>

lemma manager_shape:
  "\<exists>meth k kf. (\<forall>u e rs. tm_GenerateAccessToken (access_tokens J R m) u e rs = signToken J R meth k u e rs (manager_ttl m))
     \<and> (\<forall>tok. tm_ValidateAccessToken (access_tokens J R m) tok = parseToken J R tok kf) \<and> kf meth = Inr (public_key k)"
proof (cases m)
  case (UseHS256 h)
  then show ?thesis by (intro exI[of _ "SigningMethodHMAC ''HS256''"] exI[of _ "HMACKey (hs_secret h)"] exI[of _ "HS256_keyFunc h"])
      (simp add: HS256_manager_def HS256_keyFunc_def)
next
  case (UseRS256 r)
  then show ?thesis by (intro exI[of _ "SigningMethodRSA ''RS256''"] exI[of _ "RSAPrivateKey (rs_priv r)"] exI[of _ "RS256_keyFunc r"])
      (simp add: RS256_manager_def RS256_keyFunc_def)
next
  case (UseES256 e)
  then show ?thesis by (intro exI[of _ "SigningMethodECDSA ''ES256''"] exI[of _ "ECDSAPrivateKey (es_priv e)"] exI[of _ "ES256_keyFunc e"])
      (simp add: ES256_manager_def ES256_keyFunc_def)
qed

text \<open>
  Claim C28. \<^verbatim>\<open>buildTokenManager\<close> builds exactly the manager the configuration asks for: an HMAC manager with a
  secret of at least 32 bytes when the algorithm is hs256 or empty (a shorter secret panics), and for
  rs256 and es256 a manager with the RSA or ECDSA key of the file; in every other case it is an error.
\<close>

theorem buildTokenManager_selects:
  "(buildTokenManager q K cfg = None \<longleftrightarrow> cfg_Algorithm cfg \<in> {[], ''hs256''} \<and> length (cfg_Secret cfg) < 32) \<and>
   (buildTokenManager q K cfg = Some (Inr m) \<longleftrightarrow>
     (case m of
        UseHS256 h \<Rightarrow> cfg_Algorithm cfg \<in> {[], ''hs256''} \<and> 32 \<le> length (cfg_Secret cfg)
          \<and> h = \<lparr>hs_secret = cfg_Secret cfg, hs_accessTTL = cfg_AccessTTL cfg\<rparr>
      | UseRS256 r \<Rightarrow> cfg_Algorithm cfg = ''rs256'' \<and> rs_accessTTL r = cfg_AccessTTL cfg
          \<and> (\<exists>pem block. os_ReadFile K (cfg_PrivateKeyPath cfg) = Inr pem \<and> pem_Decode K pem = Some block
          \<and> (ParsePKCS1PrivateKey K block = Inr (rs_priv r)
             \<or> isl (ParsePKCS1PrivateKey K block) \<and> ParsePKCS8PrivateKey K block = Inr (PKCS8_RSA (rs_priv r))))
      | UseES256 e \<Rightarrow> cfg_Algorithm cfg = ''es256'' \<and> es_accessTTL e = cfg_AccessTTL cfg
          \<and> (\<exists>pem block. os_ReadFile K (cfg_PrivateKeyPath cfg) = Inr pem \<and> pem_Decode K pem = Some block
          \<and> (ParseECPrivateKey K block = Inr (es_priv e)
             \<or> isl (ParseECPrivateKey K block) \<and> ParsePKCS8PrivateKey K block = Inr (PKCS8_ECDSA (es_priv e))))))"
  (is "_ \<and> (_ \<longleftrightarrow> ?rhs)")
proof (rule conjI)
  show "buildTokenManager q K cfg = None \<longleftrightarrow> cfg_Algorithm cfg \<in> {[], ''hs256''} \<and> length (cfg_Secret cfg) < 32"
    by (auto simp: buildTokenManager_def NewHS256Manager_def)
next
  show "buildTokenManager q K cfg = Some (Inr m) \<longleftrightarrow> ?rhs"
  proof (cases m)
    case (UseRS256 r)
    then show ?thesis unfolding buildTokenManager_Some by (cases r) (auto simp: parseRSAKey_iff)
  next
    case (UseES256 e)
    then show ?thesis unfolding buildTokenManager_Some by (cases e) (auto simp: parseECDSAKey_iff)
  qed (auto simp: buildTokenManager_Some)
qed

text \<open>
  Claim C21. A token that a configured manager has just issued is accepted by the same manager, with the user
  ID, address and roles it was issued for, as long as the configured lifetime less one second (expiry
  dates are whole seconds) has not passed.
\<close>

theorem issued_token_validates:
  assumes "jwt_library J header" "buildTokenManager q K cfg = Some (Inr m)"
  shows "wp (do { a \<leftarrow> tm_GenerateAccessToken (access_tokens J world_runtime m) u e rs;
      case a of Inl err \<Rightarrow> ret (a, None)
      | Inr tok \<Rightarrow> do { b \<leftarrow> tm_ValidateAccessToken (access_tokens J world_runtime m) tok; ret (a, Some b) } })
    (\<lambda>(a, b) w'. \<forall>tok. a = Inr tok \<longrightarrow> w_now w' + second \<le> w_now w + cfg_AccessTTL cfg \<longrightarrow>
      b = Some (Inr \<lparr>k_UserID = u, k_Email = e, k_Roles = rs\<rparr>)) w"
proof -
  let ?M = "access_tokens J (world_runtime :: 'a world runtime) m"
  from manager_shape[of J "world_runtime :: 'a world runtime" m] obtain meth k kf
    where g: "\<forall>u e rs. tm_GenerateAccessToken ?M u e rs = signToken J world_runtime meth k u e rs (cfg_AccessTTL cfg)"
      and v: "\<forall>tok. tm_ValidateAccessToken ?M tok = parseToken J world_runtime tok kf"
      and k: "kf meth = Inr (public_key k)"
    unfolding built_manager_ttl[OF assms(2)] by blast
  show ?thesis
    unfolding g[THEN spec, THEN spec, THEN spec] v[THEN spec] by (rule jwt_library.wp_sign_parse[OF assms(1), where m = meth and kf = kf, OF k])
qed

text \<open>
  Claim C27. A configured manager refuses every token whose header names an algorithm of another family, so
  that a public key is never taken for a shared secret.
\<close>

theorem other_algorithm_refused:
  assumes "jwt_library J header" "\<not> accepts m (header tok)"
  shows "wp (tm_ValidateAccessToken (access_tokens J world_runtime m) tok) (\<lambda>r _. \<exists>err. r = Inl err) w"
  using assms(2)
  by (cases m; cases "header tok")
    (auto simp: HS256_manager_def RS256_manager_def ES256_manager_def HS256_keyFunc_def RS256_keyFunc_def ES256_keyFunc_def
      intro!: jwt_library.wp_parse_refuses[OF assms(1)])

text \<open>
  Claim C39. In the application as \<^verbatim>\<open>app.New\<close> wires it no goroutine that a handler starts panics: the audit store
  and the hook are always there.
\<close>

theorem app_goroutines_never_panic:
  assumes "app_New be grpcPort gatewayPort jwtCfg secCfg gwCfg env = Some (Inr a)"
  shows "fst (run_state (run_task (app_authService a) t) w) \<noteq> None"
proof -
  have "auditStore (app_authService a) \<noteq> None" "hook (app_authService a) \<noteq> None"
    using assms by (auto simp: app_New_def Let_def app_service_def New_def split: option.splits sum.splits)
  then show ?thesis by (auto simp: run_task_def split: task.split prod.split)
qed

text \<open>
  The gateway serves the API documentation only outside production, and talks to the gRPC server over
  TLS exactly when a certificate is configured.
\<close>

theorem gateway_docs_and_tls:
  assumes "gateway_run N a = (err, Some srv)"
  shows "(gw_env a = ''prod'' \<longleftrightarrow> srv_docs srv = []) \<and> fst (srv_backend srv) = gw_grpcTarget a
    \<and> snd (srv_backend srv) = (if gw_grpcTLSCert a = [] then InsecureCreds else TLSCreds (gw_grpcTLSCert a))"
  using assms
  by (auto simp: gateway_run_def transport_creds_def docs_routes_def Let_def split: sum.splits option.splits if_splits)

section \<open>A concrete configuration\<close>

definition demo_cfg :: JWTConfig where
  "demo_cfg = \<lparr>cfg_Secret = replicate 32 (CHR ''k''), cfg_AccessTTL = 15 * minute, cfg_RefreshTTL = 60 * minute,
     cfg_Algorithm = ''hs256'', cfg_PrivateKeyPath = []\<rparr>"

definition demo_mgr :: token_manager_choice where
  "demo_mgr = UseHS256 \<lparr>hs_secret = replicate 32 (CHR ''k''), hs_accessTTL = 15 * minute\<rparr>"

definition no_keys :: keylib where
  "no_keys = \<lparr>os_ReadFile = (\<lambda>_. Inl ''no file''), pem_Decode = (\<lambda>_. None), ParsePKCS1PrivateKey = (\<lambda>_. Inl []),
     ParseECPrivateKey = (\<lambda>_. Inl []), ParsePKCS8PrivateKey = (\<lambda>_. Inl [])\<rparr>"

text \<open>A JWT library that can sign and read one set of claims, with any HMAC key.\<close>

definition one_claim :: jwtClaims where
  "one_claim = \<lparr>jc_UserID = ''u0'', jc_Email = ''a@b.co'', jc_Roles = [], jc_Subject = ''u0'', jc_IssuedAt = Some 0,
     jc_ExpiresAt = Some 900, jc_Issuer = ''auth-service''\<rparr>"

definition one_jwt :: jwtlib where
  "one_jwt = \<lparr>jl_SignedString = (\<lambda>m c k. if m = SigningMethodHMAC ''HS256'' \<and> c = one_claim \<and> k = HMACKey (replicate 32 (CHR ''k''))
       then Inr ''tok'' else Inl ''no''),
     jl_ParseWithClaims = (\<lambda>tok kf iss now. if tok = ''tok'' \<and> kf (SigningMethodHMAC ''HS256'') = Inr (HMACKey (replicate 32 (CHR ''k'')))
         \<and> iss = ''auth-service'' \<and> now < 900 * second then Inr (one_claim, True) else Inl ''no'')\<rparr>"

definition one_header :: "string \<Rightarrow> SigningMethod" where
  "one_header tok = (if tok = ''tok'' then SigningMethodHMAC ''HS256'' else SigningMethodOther ''none'')"

interpretation one: jwt_library one_jwt one_header
  by unfold_locales (auto simp: one_jwt_def one_header_def one_claim_def unexpired_def split: if_splits)

lemma demo_built: "buildTokenManager (\<lambda>s. s) no_keys demo_cfg = Some (Inr demo_mgr)"
  by (simp add: buildTokenManager_def demo_cfg_def demo_mgr_def NewHS256Manager_def)

theorem issued_token_validates_witness:
  "wp (do { a \<leftarrow> tm_GenerateAccessToken (access_tokens one_jwt world_runtime demo_mgr) ''u0'' ''a@b.co'' [];
      case a of Inl err \<Rightarrow> ret (a, None)
      | Inr tok \<Rightarrow> do { b \<leftarrow> tm_ValidateAccessToken (access_tokens one_jwt world_runtime demo_mgr) tok; ret (a, Some b) } })
    (\<lambda>(a, b) _. a = Inr ''tok'' \<and> b = Some (Inr \<lparr>k_UserID = ''u0'', k_Email = ''a@b.co'', k_Roles = []\<rparr>)) empty_world"
  (is "wp ?m _ _")
proof -
  have "wp ?m (\<lambda>(a, b) w'. a = Inr ''tok'' \<and> w_now w' \<le> 10) empty_world"
    by (simp add: demo_mgr_def HS256_manager_def signToken_def parseToken_def one_jwt_def one_claim_def world_runtime_def
        empty_world_def wp_simps Let_def Unix_def)
  from wp_conj[OF this issued_token_validates[OF one.jwt_library_axioms demo_built]] show ?thesis
    by (rule wp_mono) (auto simp: demo_cfg_def empty_world_def)
qed

theorem other_algorithm_refused_witness:
  "wp (tm_ValidateAccessToken (access_tokens one_jwt world_runtime (UseRS256 \<lparr>rs_priv = ''k'', rs_accessTTL = minute\<rparr>)) ''tok'')
     (\<lambda>r _. \<exists>err. r = Inl err) empty_world"
  by (rule other_algorithm_refused[OF one.jwt_library_axioms]) (simp add: one_header_def)

definition demo_backends :: "redis_db backends" where
  "demo_backends = \<lparr>be_db = \<lparr>pg_get = (\<lambda>_. demo_tables), pg_put = (\<lambda>_ r. r), pg_fail = (\<lambda>_ _ _. None), pg_rows = (\<lambda>_ _ _. AllRows),
       pg_now = (\<lambda>t _. t), gen_random_uuid = (\<lambda>_ _. ''s1'')\<rparr>, be_redis = ref_redis, be_json = toy_json, be_marshal = (\<lambda>_. Inr []),
     be_lib = \<lparr>lib_crypto = pg_crypto, lib_runtime = world_runtime, lib_unicode = ascii_unicode\<rparr>, be_jwt = one_jwt,
     be_keys = no_keys, be_quote = (\<lambda>s. s)\<rparr>"

definition demo_sec :: SecurityConfig where
  "demo_sec = \<lparr>cfg_BruteForce = \<lparr>cfg_MaxAttempts = 5, cfg_Window = 15 * minute, cfg_LockoutTTL = 15 * minute\<rparr>,
     cfg_RateLimit = \<lparr>cfg_GlobalRPM = 300, cfg_LoginRPM = 20\<rparr>\<rparr>"

definition demo_gateway :: GatewayConfig where
  "demo_gateway = \<lparr>cfg_GatewayPort = 8080, cfg_GRPCTarget = [], cfg_GRPCTLSCert = []\<rparr>"

definition demo_app :: "redis_db App" where
  "demo_app = (case app_New demo_backends 8081 8080 demo_cfg demo_sec demo_gateway ''dev'' of Some (Inr a) \<Rightarrow> a)"

theorem app_goroutines_never_panic_witness:
  "fst (run_state (run_task (app_authService demo_app) (HookTask \<lparr>h_Type = AuditEventLogout, h_UserID = ''u0'', h_UserEmail = ''a@b.co'',
     h_IPAddress = [], h_UserAgent = [], h_Metadata = []\<rparr>)) empty_world) \<noteq> None"
proof -
  have "app_New demo_backends 8081 8080 demo_cfg demo_sec demo_gateway ''dev'' = Some (Inr demo_app)"
    using demo_built by (simp add: demo_app_def app_New_def demo_backends_def Let_def)
  then show ?thesis by (rule app_goroutines_never_panic)
qed

definition open_net :: gateway_net where
  "open_net = \<lparr>gn_NewClientTLSFromFile = (\<lambda>_. None), gn_RegisterHandler = (\<lambda>_ _. None), gn_HandlePath = (\<lambda>_. None),
     gn_ListenAndServe = (\<lambda>_. ServerClosed)\<rparr>"

theorem gateway_docs_and_tls_witness:
  "\<exists>srv. gateway_run open_net (gateway_New 8080 8081 [] ''cert.pem'' ''prod'') = (None, Some srv)
     \<and> srv_docs srv = [] \<and> snd (srv_backend srv) = TLSCreds ''cert.pem''"
proof -
  obtain srv where srv: "gateway_run open_net (gateway_New 8080 8081 [] ''cert.pem'' ''prod'') = (None, Some srv)"
    by (simp add: gateway_run_def transport_creds_def docs_routes_def open_net_def gateway_New_def Let_def)
  from gateway_docs_and_tls[OF this] srv show ?thesis by (auto simp: gateway_New_def)
qed

end
