(* ===== verification/Production.thy ===== *)
theory Production
  imports App
begin

text \<open>
  The wiring of \<^verbatim>\<open>app.New\<close> as a backend: users and sessions in PostgreSQL, cached sessions, reset codes and
  reset tokens in Redis, the login guard on the same Redis, the access tokens of the configured
  manager. The two servers keep their states in one world; what the program relies on is that they do not share it.
  The Redis adapters meet the contracts of the cache and of the reset store, and with the PostgreSQL
  repositories they make up an \<open>auth_backend\<close>, so that the proofs about the handlers hold for the
  service that the program runs.
\<close>

section \<open>What the servers and libraries guarantee\<close>

text \<open>
  A code's text whose count a Lua number no longer prints as an integer: Go cannot decode it, and
  counting on does not change that.
\<close>

coinductive overflown :: "json \<Rightarrow> string \<Rightarrow> bool" for J where
  "isl (ju_otp J raw) \<Longrightarrow> (\<And>enc n. cjson_incr J raw = Inr (enc, n) \<Longrightarrow> 1000000 \<le> n \<and> overflown J enc) \<Longrightarrow> overflown J raw"

text \<open>
  \<^verbatim>\<open>encoding/json\<close> decodes what it encoded (the strings are UTF-8: protobuf and PostgreSQL accept no others), and
  \<^verbatim>\<open>cjson\<close> increments a code's count and keeps the rest, until the count overflows.
\<close>

definition json_ok :: "json \<Rightarrow> bool" where
  "json_ok J \<longleftrightarrow> (\<forall>s data. jm_session J s = Inr data \<longrightarrow> ju_session J data = Inr s)
     \<and> (\<forall>d data. jm_otp J d = Inr data \<longrightarrow> ju_otp J data = Inr d)
     \<and> (\<forall>d data. jm_reset J d = Inr data \<longrightarrow> ju_reset J data = Inr d)
     \<and> (\<forall>raw d. ju_otp J raw = Inr d \<longrightarrow> 0 \<le> od_Attempts d \<longrightarrow> (\<exists>enc n. cjson_incr J raw = Inr (enc, n) \<and>
          (n = od_Attempts d + 1 \<and> ju_otp J enc = Inr (d\<lparr>od_Attempts := n\<rparr>) \<or> 1000000 \<le> n \<and> overflown J enc)))"

text \<open>The tables are no part of Redis's state, nor the keys of PostgreSQL's.\<close>

definition spares_tables :: "'r postgres \<Rightarrow> (time \<Rightarrow> 'r \<Rightarrow> 'a \<times> 'r) \<Rightarrow> bool" where
  "spares_tables pg f \<longleftrightarrow> (\<forall>t r. pg_get pg (snd (f t r)) = pg_get pg r)"

definition separate :: "'r postgres \<Rightarrow> 'r redis \<Rightarrow> ('r \<Rightarrow> string \<rightharpoonup> entry) \<Rightarrow> bool" where
  "separate pg rd kv \<longleftrightarrow> (\<forall>db r. kv (pg_put pg db r) = kv r)
     \<and> (\<forall>k. spares_tables pg (rd_EXISTS rd k)) \<and> (\<forall>k. spares_tables pg (rd_GET rd k))
     \<and> (\<forall>k. spares_tables pg (rd_INCR rd k)) \<and> (\<forall>k. spares_tables pg (rd_PTTL rd k))
     \<and> (\<forall>k v ttl t r. pg_get pg (rd_SET rd k v ttl t r) = pg_get pg r)
     \<and> (\<forall>ks t r. pg_get pg (rd_DEL rd ks t r) = pg_get pg r)
     \<and> (\<forall>k v p t r. pg_get pg (rd_SET_PX rd k v p t r) = pg_get pg r)
     \<and> (\<forall>k n t r. pg_get pg (rd_EXPIRE rd k n t r) = pg_get pg r)"

definition backends_ok :: "'r backends \<Rightarrow> ('r \<Rightarrow> string \<rightharpoonup> entry) \<Rightarrow> bool" where
  "backends_ok be kv \<longleftrightarrow> redis_server (be_redis be) kv \<and> database (be_db be)
     \<and> separate (be_db be) (be_redis be) kv \<and> json_ok (be_json be)
     \<and> crypto_ok (lib_crypto (be_lib be)) \<and> lib_runtime (be_lib be) = world_runtime"

lemma backends_okD:
  assumes "backends_ok be kv"
  shows "redis_server (be_redis be) kv" "database (be_db be)" "separate (be_db be) (be_redis be) kv" "json_ok (be_json be)"
    "crypto_ok (lib_crypto (be_lib be))" "lib_runtime (be_lib be) = world_runtime"
  using assms by (auto simp: backends_ok_def)

section \<open>Redis as tables\<close>

text \<open>The last nanosecond of an expiry in milliseconds.\<close>

definition last_ns :: "int \<Rightarrow> time" where
  "last_ns E = (E + 1) * 1000000 - 1"

lemma ms_le_iff: "ms t \<le> E \<longleftrightarrow> t \<le> last_ns E"
  by (auto simp: ms_def last_ns_def)

text \<open>The decodable entries under a key prefix.\<close>

definition entries :: "(string \<Rightarrow> string + 'a) \<Rightarrow> string \<Rightarrow> (string \<rightharpoonup> entry) \<Rightarrow> string \<rightharpoonup> 'a \<times> time" where
  "entries dec p m h = (case m (p @ h) of
      Some (raw, Some E) \<Rightarrow> (case dec raw of Inr a \<Rightarrow> Some (a, last_ns E) | Inl _ \<Rightarrow> None)
    | _ \<Rightarrow> None)"

definition otp_of :: "json \<Rightarrow> string \<Rightarrow> string + OTPRecord" where
  "otp_of J raw = map_sum id (\<lambda>d. \<lparr>o_UserID = od_UserID d, o_OTPHash = od_OTPHash d, o_Attempts = od_Attempts d\<rparr>) (ju_otp J raw)"

definition reset_of :: "json \<Rightarrow> string \<Rightarrow> string + ResetTokenRecord" where
  "reset_of J raw = map_sum id (\<lambda>d. \<lparr>t_UserID = rtd_UserID d, t_Email = rtd_Email d\<rparr>) (ju_reset J raw)"

definition redis_tables :: "json \<Rightarrow> (string \<rightharpoonup> entry) \<Rightarrow> vault \<Rightarrow> vault" where
  "redis_tables J m v = v\<lparr>v_cache := entries (ju_session J) keyPrefix m, v_otps := entries (otp_of J) otpPrefix m,
     v_resets := entries (reset_of J) resetTokenPrefix m\<rparr>"

text \<open>Every key of the adapters expires, and a code is decodable unless its count has overflown.\<close>

definition code_ok :: "json \<Rightarrow> string \<Rightarrow> bool" where
  "code_ok J raw \<longleftrightarrow> (case ju_otp J raw of Inr d \<Rightarrow> 0 \<le> od_Attempts d | Inl _ \<Rightarrow> overflown J raw)"

definition redis_ok :: "json \<Rightarrow> (string \<rightharpoonup> entry) \<Rightarrow> bool" where
  "redis_ok J m \<longleftrightarrow> (\<forall>p \<in> {keyPrefix, otpPrefix, resetTokenPrefix}. \<forall>h raw x. m (p @ h) = Some (raw, x) \<longrightarrow> x \<noteq> None)
     \<and> (\<forall>h raw x. m (otpPrefix @ h) = Some (raw, x) \<longrightarrow> code_ok J raw)"

lemma prefixes_differ [simp]:
  "keyPrefix @ h \<noteq> otpPrefix @ h'" "otpPrefix @ h' \<noteq> keyPrefix @ h"
  "keyPrefix @ h \<noteq> resetTokenPrefix @ h'" "resetTokenPrefix @ h' \<noteq> keyPrefix @ h"
  "otpPrefix @ h \<noteq> resetTokenPrefix @ h'" "resetTokenPrefix @ h' \<noteq> otpPrefix @ h"
  by (simp_all add: keyPrefix_def otpPrefix_def resetTokenPrefix_def)

lemma entries_upd:
  "entries dec p (m(p @ h \<mapsto> (raw, Some E))) =
     (entries dec p m)(h := case dec raw of Inr a \<Rightarrow> Some (a, last_ns E) | Inl _ \<Rightarrow> None)"
  "entries dec p (m(p @ h := None)) = (entries dec p m)(h := None)"
  by (auto simp: entries_def fun_eq_iff)

lemma entries_other: "(\<And>h. p @ h \<noteq> k) \<Longrightarrow> entries dec p (m(k := e)) = entries dec p m"
  by (auto simp: entries_def fun_eq_iff)

lemma entries_Some:
  "entries dec p m h = Some (a, x) \<longleftrightarrow> (\<exists>raw E. m (p @ h) = Some (raw, Some E) \<and> dec raw = Inr a \<and> x = last_ns E)"
  by (auto simp: entries_def split: option.split sum.split)

lemma purged_keeps:
  assumes "purged t m m'"
  shows "keeps True t (entries dec p m) (entries dec p m')"
  unfolding keeps_def
proof
  fix h
  from assms have "m' (p @ h) = m (p @ h) \<or> live t (m (p @ h)) = None \<and> m' (p @ h) = None" by (simp add: purged_def)
  then show "entries dec p m' h = entries dec p m h \<or>
      True \<and> entries dec p m' h = None \<and> (\<exists>a x. entries dec p m h = Some (a, x) \<and> x < t)"
    using ms_le_iff[of t] by (auto simp: entries_def live_def not_le split: option.splits sum.splits if_splits)
qed

lemma purged_ok: "purged t m m' \<Longrightarrow> redis_ok J m \<Longrightarrow> redis_ok J m'"
  unfolding redis_ok_def purged_def by (metis option.distinct(1))

section \<open>The view of the whole\<close>

definition redis_view :: "'r backends \<Rightarrow> ('r \<Rightarrow> string \<rightharpoonup> entry) \<Rightarrow> 'r world \<Rightarrow> vault" where
  "redis_view be kv w = redis_tables (be_json be) (kv (w_services w)) ((mem_view (lib_crypto (be_lib be)) w)\<lparr>v_remote := True\<rparr>)"

definition redis_inv :: "'r backends \<Rightarrow> ('r \<Rightarrow> string \<rightharpoonup> entry) \<Rightarrow> 'r world \<Rightarrow> bool" where
  "redis_inv be kv w \<longleftrightarrow> backends_ok be kv \<and> redis_ok (be_json be) (kv (w_services w))
     \<and> inj_on (token_at (lib_crypto (be_lib be)) (w_rand w)) {i. i + 32 \<le> length (w_rand w)}"

abbreviation app_inv :: "'r backends \<Rightarrow> ('r \<Rightarrow> string \<rightharpoonup> entry) \<Rightarrow> 'r world \<Rightarrow> bool" where
  "app_inv be kv \<equiv> pg_inv (redis_inv be kv) (be_db be)"

abbreviation app_view :: "'r backends \<Rightarrow> ('r \<Rightarrow> string \<rightharpoonup> entry) \<Rightarrow> 'r world \<Rightarrow> vault" where
  "app_view be kv \<equiv> pg_view (redis_view be kv) (be_db be)"

lemma app_invD:
  assumes "app_inv be kv w"
  shows "backends_ok be kv" "redis_ok (be_json be) (kv (w_services w))"
  using assms by (auto simp: pg_inv_def redis_inv_def)

lemma app_view_sel [simp]:
  "v_remote (app_view be kv w) = True" "v_now (app_view be kv w) = w_now w"
  "v_cache (app_view be kv w) = entries (ju_session (be_json be)) keyPrefix (kv (w_services w))"
  "v_otps (app_view be kv w) = entries (otp_of (be_json be)) otpPrefix (kv (w_services w))"
  "v_resets (app_view be kv w) = entries (reset_of (be_json be)) resetTokenPrefix (kv (w_services w))"
  "v_tasks (app_view be kv w) = w_tasks w" "v_unused (app_view be kv w) = to_come (lib_crypto (be_lib be)) (w_rand w)"
  by (simp_all add: pg_view_def redis_view_def redis_tables_def)

lemma redis_tables_same [simp]: "redis_tables (be_json be) (kv (w_services w)) (app_view be kv w) = app_view be kv w"
  by (simp add: redis_tables_def pg_view_def redis_view_def)

interpretation app: beside_tables "be_db be" "redis_inv be kv" "redis_view be kv" for be :: "'r backends" and kv
  by unfold_locales
    (auto simp: redis_inv_def redis_view_def redis_tables_def mem_view_def later_def separate_def dest: backends_okD(3))

text \<open>A step that takes time and leaves Redis with the keys \<open>m\<close>, less expired ones.\<close>

lemma app_move:
  assumes "app_inv be kv w" "w_now w \<le> t" "purged t m (kv r)" "redis_ok (be_json be) m" "pg_get (be_db be) r = pg_tables (be_db be) w"
  shows "app_inv be kv (w\<lparr>w_now := t, w_reads := n, w_services := r\<rparr>)"
    "later (redis_tables (be_json be) m (app_view be kv w)) (app_view be kv (w\<lparr>w_now := t, w_reads := n, w_services := r\<rparr>))"
  using assms by (auto simp: pg_inv_def redis_inv_def pg_view_def redis_view_def redis_tables_def later_def mem_view_def
      intro: purged_ok purged_keeps)

lemma wp_app_call:
  assumes "app_inv be kv w" "spares_tables (be_db be) f"
    and eff: "\<And>t. w_now w \<le> t \<Longrightarrow> purged t (m t) (kv (snd (f t (w_services w)))) \<and> redis_ok (be_json be) (m t)"
    and "\<And>err w'. app_inv be kv w' \<Longrightarrow> later (app_view be kv w) (app_view be kv w') \<Longrightarrow> Q (Inl err) w'"
    and "\<And>err w'. app_inv be kv w' \<Longrightarrow> w_now w \<le> w_now w' \<Longrightarrow>
      later (redis_tables (be_json be) (m (w_now w')) (app_view be kv w)) (app_view be kv w') \<Longrightarrow> Q (Inl err) w'"
    and "\<And>w'. app_inv be kv w' \<Longrightarrow> w_now w \<le> w_now w' \<Longrightarrow>
      later (redis_tables (be_json be) (m (w_now w')) (app_view be kv w)) (app_view be kv w') \<Longrightarrow>
      Q (Inr (fst (f (w_now w') (w_services w)))) w'"
  shows "wp (redis_call (be_redis be) f) Q w"
proof -
  let ?t = "w_now w + int (w_ticks w (w_reads w))"
  have t: "w_now w \<le> ?t" by simp
  have sp: "pg_get (be_db be) (snd (f ?t (w_services w))) = pg_tables (be_db be) w"
    using assms(2) by (simp add: spares_tables_def)
  let ?w' = "w\<lparr>w_now := ?t, w_reads := Suc (w_reads w), w_services := snd (f ?t (w_services w))\<rparr>"
  have "app_inv be kv ?w'" "later (redis_tables (be_json be) (m ?t) (app_view be kv w)) (app_view be kv ?w')"
    using app_move[OF assms(1) t _ _ sp] eff[OF t] by auto
  with t assms(5,6)[of ?w'] have "Q (Inl err) ?w'" "Q (Inr (fst (f ?t (w_services w)))) ?w'" for err by simp_all
  moreover have "Q (Inl err) (w\<lparr>w_now := ?t, w_reads := Suc (w_reads w)\<rparr>)" for err
    by (rule assms(4)[OF app.pg_tick[OF assms(1) t]])
  ultimately show ?thesis
    by (simp add: redis_call_def wp_simps Let_def prod.case_eq_if split: option.split)
qed

section \<open>Commands on other keys\<close>

text \<open>Keys that are none of the adapters'.\<close>

definition foreign :: "string set \<Rightarrow> bool" where
  "foreign K \<longleftrightarrow> (\<forall>p \<in> {keyPrefix, otpPrefix, resetTokenPrefix}. \<forall>h. p @ h \<notin> K)"

definition app_aside :: "'r backends \<Rightarrow> ('r \<Rightarrow> string \<rightharpoonup> entry) \<Rightarrow> 'r world \<Rightarrow> 'r world \<Rightarrow> bool" where
  "app_aside be kv w w' \<longleftrightarrow> app_inv be kv w' \<and> later (app_view be kv w) (app_view be kv w')"

lemma app_aside_refl: "app_inv be kv w \<Longrightarrow> app_aside be kv w w"
  by (simp add: app_aside_def)

lemma app_aside_tick: "app_aside be kv w0 w \<Longrightarrow> wp time_Now (\<lambda>_. app_aside be kv w0) w"
  by (auto simp: app_aside_def wp_simps Let_def app.pg_tick elim!: later_trans intro!: app.pg_tick)

lemma wp_app_other:
  assumes "app_aside be kv w0 w" "spares_tables (be_db be) f" "\<And>t r. others t K (kv r) (kv (snd (f t r)))" "foreign K"
  shows "wp (redis_call (be_redis be) f) (\<lambda>_. app_aside be kv w0) w"
proof -
  let ?m = "\<lambda>t k. if k \<in> K then kv (snd (f t (w_services w))) k else kv (w_services w) k"
  from assms(1) have i: "app_inv be kv w" and l: "later (app_view be kv w0) (app_view be kv w)" by (simp_all add: app_aside_def)
  have ok: "redis_ok (be_json be) (?m t)" for t
    using app_invD(2)[OF i] assms(4) by (simp add: redis_ok_def foreign_def)
  have same: "redis_tables (be_json be) (?m t) (app_view be kv w) = app_view be kv w" for t
    using assms(4) by (subst redis_tables_same[symmetric]) (simp add: redis_tables_def foreign_def entries_def[abs_def] fun_eq_iff)
  show ?thesis
    by (rule wp_app_call[OF i assms(2), of ?m])
      (use others_split[OF assms(3)] ok same l in \<open>auto simp: app_aside_def elim: later_trans\<close>)
qed

lemma separate_spares:
  assumes "separate pg rd kv"
  shows "spares_tables pg (rd_EXISTS rd k)" "spares_tables pg (rd_GET rd k)" "spares_tables pg (\<lambda>t r. ((), rd_SET rd k v ttl t r))"
    "spares_tables pg (\<lambda>t r. ((), rd_DEL rd ks t r))" "spares_tables pg (luaIncrExpire rd k secs)"
  using assms by (simp_all add: separate_def spares_tables_def luaIncrExpire_def split: prod.split sum.split)
    (metis snd_conv)+

context redis_server
begin

lemma foreign_effects:
  "others t {k} (kv r) (kv (snd (rd_EXISTS rd k t r)))"
  "others t {k} (kv r) (kv (snd (luaIncrExpire rd k secs t r)))"
  "others t {k} (kv r) (kv (snd ((), rd_SET rd k v ttl t r)))"
  "others t (set ks) (kv r) (kv (snd ((), rd_DEL rd ks t r)))"
proof -
  show "others t {k} (kv r) (kv (snd (rd_EXISTS rd k t r)))" using EXISTS purged_others by blast
  show "others t {k} (kv r) (kv (snd (luaIncrExpire rd k secs t r)))"
    using INCR_others[of t k r] others_trans[OF INCR_others EXPIRE_others, of t k r secs]
    by (auto simp: luaIncrExpire_def split: prod.split sum.split)
  show "others t {k} (kv r) (kv (snd ((), rd_SET rd k v ttl t r)))" using SET_others by simp
  show "others t (set ks) (kv r) (kv (snd ((), rd_DEL rd ks t r)))"
    using DEL[of t r ks] unfolding purged_def others_def by (simp add: restrict_map_def) metis
qed

end

section \<open>Guard, limiter and run-time\<close>

lemma foreign_keys: "foreign {lockedKeyPrefix @ e}" "foreign {attemptsKeyPrefix @ e}" "foreign {redisKey e n}"
  "set ks \<subseteq> {attemptsKeyPrefix @ e, lockedKeyPrefix @ e} \<Longrightarrow> foreign (set ks)"
  by (auto simp: foreign_def lockedKeyPrefix_def attemptsKeyPrefix_def keyPrefix_def otpPrefix_def resetTokenPrefix_def
      redisKey_def rl_keyPrefix_def)

lemma app_aside_laws:
  assumes "app_aside be kv w0 w"
  shows "redis_server (be_redis be) kv" "separate (be_db be) (be_redis be) kv"
  using assms backends_okD[OF app_invD(1)] by (auto simp: app_aside_def)

interpretation app: guard_world "NewGuard (be_redis be) n win ttl" "app_aside be kv w0"
  for be :: "'r backends" and kv n win ttl w0
proof (unfold_locales, goal_cases)
  case (1 w)
  then show ?case by (rule app_aside_tick)
next
  case (2 w m)
  then show ?case by (simp add: app_aside_def pg_inv_def redis_inv_def pg_view_def redis_view_def mem_view_def)
qed (auto simp: NewGuard_def intro!: wp_app_other separate_spares[OF app_aside_laws(2)] foreign_keys
    redis_server.foreign_effects[OF app_aside_laws(1)])

interpretation app: login_guard "app_inv be kv" "app_view be kv" "Some (guard_methods (NewGuard (be_redis be) n win ttl))"
  for be :: "'r backends" and kv n win ttl
  by unfold_locales (auto simp: guard_methods_def app_aside_def[symmetric] intro!: app.IsLocked_keeps app.RecordFailure_keeps
      app.Reset_keeps app_aside_refl)

lemma app_Allow:
  assumes "app_aside be kv w0 w" "l_redis l = be_redis be"
  shows "wp (Allow l key) (\<lambda>_. app_aside be kv w0) w"
  unfolding Allow_def redis_Eval_def Let_def wp_bind assms(2)
proof (rule wp_mono[OF app_aside_tick[OF assms(1)]])
  fix t w' assume w': "app_aside be kv w0 w'"
  note laws = app_aside_laws[OF w']
  show "wp (redis_call (be_redis be) (luaIncrExpire (be_redis be) (redisKey key (Unix (Truncate t (l_window l)))) (ttlSecs (l_window l))))
     (\<lambda>x. wp (ret (case x of Inl err \<Rightarrow> Inl err | Inr y \<Rightarrow> y)) (\<lambda>x. wp (ret (case x of
        Inl err \<Rightarrow> (True, Some (''rate limiter redis error: '' @ err)) | Inr cnt \<Rightarrow> (cnt \<le> l_limit l, None)))
        (\<lambda>_. app_aside be kv w0))) w'"
    unfolding wp_return
    by (rule wp_app_other[OF w' separate_spares(5)[OF laws(2)] redis_server.foreign_effects(2)[OF laws(1)] foreign_keys(3)])
qed

interpretation app: runtime_env "lib_crypto (be_lib be)" "app_inv be kv" "app_view be kv" "lib_runtime (be_lib be)"
  for be :: "'r backends" and kv
proof (unfold_locales, goal_cases)
  case (1 w s)
  then show ?case using backends_okD(5)[OF app_invD(1)[OF 1]] by (simp add: crypto_ok_def)
next
  case (2 w)
  then show ?case using backends_okD(5)[OF app_invD(1)[OF 2]] by (simp add: crypto_ok_def)
next
  case (3 w)
  then show ?case using app.pg_tick[OF 3]
    by (simp add: backends_okD(6)[OF app_invD(1)[OF 3]] world_runtime_def wp_simps Let_def)
next
  case (4 w n)
  let ?C = "lib_crypto (be_lib be)"
  have inj: "inj_on (token_at ?C (w_rand w)) {i. i + 32 \<le> length (w_rand w)}" using 4 by (simp add: pg_inv_def redis_inv_def)
  show ?case
  proof (cases "n \<le> length (w_rand w)")
    case True
    note d = rand_drawn[OF inj True]
    have "app_inv be kv (w\<lparr>w_rand := drop n (w_rand w)\<rparr>)" using 4 d(1) by (simp add: pg_inv_def redis_inv_def)
    moreover have "later ((app_view be kv w)\<lparr>v_unused := to_come ?C (drop n (w_rand w))\<rparr>)
        (app_view be kv (w\<lparr>w_rand := drop n (w_rand w)\<rparr>))"
      by (simp add: pg_view_def redis_view_def redis_tables_def mem_view_def later_def)
    ultimately show ?thesis using True d(2,3)
      by (auto simp: backends_okD(6)[OF app_invD(1)[OF 4]] world_runtime_def wp_simps intro!: exI[of _ "to_come ?C (drop n (w_rand w))"])
  next
    case False
    have "later ((app_view be kv w)\<lparr>v_unused := to_come ?C (w_rand w)\<rparr>) (app_view be kv w)"
      by (simp add: pg_view_def redis_view_def redis_tables_def mem_view_def later_def)
    with False 4 show ?thesis
      by (auto simp: backends_okD(6)[OF app_invD(1)[OF 4]] world_runtime_def wp_simps intro!: exI[of _ "to_come ?C (w_rand w)"])
  qed
next
  case (5 w t)
  then have "app_inv be kv (w\<lparr>w_tasks := w_tasks w @ [t]\<rparr>)" by (simp add: pg_inv_def redis_inv_def)
  moreover have "later ((app_view be kv w)\<lparr>v_tasks := w_tasks w @ [t]\<rparr>) (app_view be kv (w\<lparr>w_tasks := w_tasks w @ [t]\<rparr>))"
    by (simp add: pg_view_def redis_view_def redis_tables_def mem_view_def later_def)
  ultimately show ?case
    by (simp add: backends_okD(6)[OF app_invD(1)[OF 5]] world_runtime_def wp_simps)
qed

interpretation app: token_manager "app_inv be kv" "app_view be kv" "access_tokens J (lib_runtime (be_lib be)) m"
  for be :: "'r backends" and kv J m
  by (rule tokens_contract[OF app.runtime_env_axioms])

section \<open>Commands of the adapters\<close>

abbreviation prefixes :: "string set" where
  "prefixes \<equiv> {keyPrefix, otpPrefix, resetTokenPrefix}"

lemma redis_ok_upd:
  assumes "redis_ok J m"
  shows "redis_ok J (m(keyPrefix @ h \<mapsto> (v, Some E)))" "redis_ok J (m(resetTokenPrefix @ h \<mapsto> (v, Some E)))"
    "code_ok J v \<Longrightarrow> redis_ok J (m(otpPrefix @ h \<mapsto> (v, Some E)))" "redis_ok J (m(k := None))"
  using assms by (simp_all add: redis_ok_def)

lemma app_tables:
  fixes be kv and w :: "'r world"
  defines "m \<equiv> kv (w_services w)" and "J \<equiv> be_json be"
  shows "redis_tables J (m(keyPrefix @ h := e)) (app_view be kv w) =
      (app_view be kv w)\<lparr>v_cache := entries (ju_session J) keyPrefix (m(keyPrefix @ h := e))\<rparr>"
    "redis_tables J (m(otpPrefix @ h := e)) (app_view be kv w) =
      (app_view be kv w)\<lparr>v_otps := entries (otp_of J) otpPrefix (m(otpPrefix @ h := e))\<rparr>"
    "redis_tables J (m(resetTokenPrefix @ h := e)) (app_view be kv w) =
      (app_view be kv w)\<lparr>v_resets := entries (reset_of J) resetTokenPrefix (m(resetTokenPrefix @ h := e))\<rparr>"
  by (simp_all add: redis_tables_def entries_other m_def J_def pg_view_def redis_view_def)

lemma app_expiry:
  assumes "w_now w \<le> w_now w'" "0 < ttl"
  shows "expiry (app_view be kv w) ttl (app_view be kv w') (last_ns (ms (w_now w') + px ttl))"
proof -
  have "w_now w' < (ms (w_now w') + 1) * 1000000" "ms (w_now w') * 1000000 \<le> w_now w'" by (simp_all add: ms_def)
  moreover have "ttl < (px ttl + 1) * 1000000" "px ttl * 1000000 \<le> ttl + 1000000"
    using assms(2) by (auto simp: px_def max_def)
  ultimately show ?thesis using assms by (simp add: expiry_def slack_def last_ns_def algebra_simps)
qed

lemma app_saved:
  "w_now w \<le> w_now w' \<Longrightarrow> 0 < ttl \<Longrightarrow> P (last_ns (ms (w_now w') + px ttl)) \<Longrightarrow>
   \<exists>x. expiry (app_view be kv w) ttl (app_view be kv w') x \<and> P x"
  using app_expiry by blast

lemma redis_ok_expires: "redis_ok J m \<Longrightarrow> p \<in> prefixes \<Longrightarrow> m (p @ h) = Some (raw, x) \<Longrightarrow> \<exists>E. x = Some E"
  unfolding redis_ok_def by blast

lemma redis_ok_code: "redis_ok J m \<Longrightarrow> m (otpPrefix @ h) = Some (raw, x) \<Longrightarrow> code_ok J raw"
  unfolding redis_ok_def by blast

lemma wp_app_get:
  assumes "app_inv be kv w" "p \<in> prefixes"
    and "\<And>err w'. app_inv be kv w' \<Longrightarrow> later (app_view be kv w) (app_view be kv w') \<Longrightarrow> Q (Inl err) w'"
    and "\<And>w'. app_inv be kv w' \<Longrightarrow> later (app_view be kv w) (app_view be kv w') \<Longrightarrow>
      (\<And>raw E. kv (w_services w) (p @ h) = Some (raw, Some E) \<Longrightarrow> last_ns E < w_now w') \<Longrightarrow> Q (Inr None) w'"
    and "\<And>raw E w'. app_inv be kv w' \<Longrightarrow> later (app_view be kv w) (app_view be kv w') \<Longrightarrow>
      kv (w_services w) (p @ h) = Some (raw, Some E) \<Longrightarrow> w_now w' \<le> last_ns E \<Longrightarrow> Q (Inr (Some raw)) w'"
  shows "wp (redis_call (be_redis be) (rd_GET (be_redis be) (p @ h))) Q w"
proof -
  note b = backends_okD[OF app_invD(1)[OF assms(1)]] and ok = app_invD(2)[OF assms(1)]
  note get = redis_server.GET[OF b(1), of "p @ h"]
  show ?thesis
  proof (rule wp_app_call[OF assms(1) separate_spares(2)[OF b(3)], where m = "\<lambda>_. kv (w_services w)"], goal_cases)
    case (4 w')
    then have w': "app_inv be kv w'" "later (app_view be kv w) (app_view be kv w')" by simp_all
    show ?case
    proof (cases "live (w_now w') (kv (w_services w) (p @ h))")
      case None
      then have "last_ns E < w_now w'" if "kv (w_services w) (p @ h) = Some (raw, Some E)" for raw E
        using that ms_le_iff[of "w_now w'" E] by (auto simp: live_def split: if_splits)
      from assms(4)[OF w' this] None get show ?thesis by simp
    next
      case (Some e)
      obtain raw E where E: "kv (w_services w) (p @ h) = Some (raw, Some E)" "e = (raw, Some E)"
        using live_Some[OF Some] redis_ok_expires[OF ok assms(2)] by (cases e) blast
      with Some have "w_now w' \<le> last_ns E" by (auto simp: live_def ms_le_iff split: if_splits)
      with assms(5)[OF w' E(1)] Some E get show ?thesis by simp
    qed
  qed (use get ok assms(3) in auto)
qed

lemma wp_app_set:
  assumes "app_inv be kv w" "0 < ttl" "\<And>E. redis_ok (be_json be) ((kv (w_services w))(k \<mapsto> (v, Some E)))"
    and "\<And>err w'. app_inv be kv w' \<Longrightarrow> later (app_view be kv w) (app_view be kv w') \<Longrightarrow> Q (Inl err) w'"
    and "\<And>x E w'. app_inv be kv w' \<Longrightarrow> w_now w \<le> w_now w' \<Longrightarrow> E = ms (w_now w') + px ttl \<Longrightarrow>
      later (redis_tables (be_json be) ((kv (w_services w))(k \<mapsto> (v, Some E))) (app_view be kv w)) (app_view be kv w') \<Longrightarrow> Q x w'"
  shows "wp (redis_call (be_redis be) (\<lambda>t r. ((), rd_SET (be_redis be) k v ttl t r))) Q w"
proof -
  note b = backends_okD[OF app_invD(1)[OF assms(1)]]
  note set = redis_server.SET[OF b(1) assms(2), of _ "w_services w" k v]
  show ?thesis
    by (rule wp_app_call[OF assms(1) separate_spares(3)[OF b(3)], where m = "\<lambda>t. (kv (w_services w))(k \<mapsto> (v, Some (ms t + px ttl)))"])
      (use set assms(3) in \<open>auto intro: assms(4,5)\<close>)
qed

lemma wp_app_del:
  assumes "app_inv be kv w"
    and "\<And>err w'. app_inv be kv w' \<Longrightarrow> later (app_view be kv w) (app_view be kv w') \<Longrightarrow> Q (Inl err) w'"
    and "\<And>x w'. app_inv be kv w' \<Longrightarrow>
      later (redis_tables (be_json be) ((kv (w_services w))(k := None)) (app_view be kv w)) (app_view be kv w') \<Longrightarrow> Q x w'"
  shows "wp (redis_call (be_redis be) (\<lambda>t r. ((), rd_DEL (be_redis be) [k] t r))) Q w"
proof -
  note b = backends_okD[OF app_invD(1)[OF assms(1)]] and ok = app_invD(2)[OF assms(1)]
  show ?thesis
    by (rule wp_app_call[OF assms(1) separate_spares(4)[OF b(3)], where m = "\<lambda>t. (kv (w_services w))(k := None)"])
      (use redis_server.DEL[OF b(1), of _ "w_services w" "[k]"] redis_ok_upd(4)[OF ok] in
        \<open>auto simp: restrict_delete intro: assms(2,3)\<close>)
qed

lemma app_view_self [simp]:
  "(app_view be kv w)\<lparr>v_cache := entries (ju_session (be_json be)) keyPrefix (kv (w_services w))\<rparr> = app_view be kv w"
  "(app_view be kv w)\<lparr>v_otps := entries (otp_of (be_json be)) otpPrefix (kv (w_services w))\<rparr> = app_view be kv w"
  "(app_view be kv w)\<lparr>v_resets := entries (reset_of (be_json be)) resetTokenPrefix (kv (w_services w))\<rparr> = app_view be kv w"
  by (simp_all add: pg_view_def redis_view_def redis_tables_def)

section \<open>The session cache meets its contract\<close>

definition app_cache :: "'r backends \<Rightarrow> 'r Cache" where
  "app_cache be = \<lparr>ca_client = be_redis be, ca_json = be_json be\<rparr>"

lemma app_cache_sel [simp]: "ca_client (app_cache be) = be_redis be" "ca_json (app_cache be) = be_json be"
  by (simp_all add: app_cache_def)

lemma json_okD:
  assumes "app_inv be kv w"
  shows "jm_session (be_json be) s = Inr data \<Longrightarrow> ju_session (be_json be) data = Inr s"
    "jm_otp (be_json be) d = Inr data \<Longrightarrow> ju_otp (be_json be) data = Inr d"
    "jm_reset (be_json be) rd = Inr data \<Longrightarrow> ju_reset (be_json be) data = Inr rd"
  using backends_okD(4)[OF app_invD(1)[OF assms]] by (auto simp: json_ok_def)

interpretation app: session_cache "app_inv be kv" "app_view be kv" "redis_SessionCache (app_cache be)"
  for be :: "'r backends" and kv
proof (unfold_locales, goal_cases)
  case (1 w ttl h c)
  show ?case
  proof (cases "jm_session (be_json be) c")
    case (Inl err)
    with 1 show ?thesis by (simp add: redis_SessionCache_def redis_cache_Set_def wp_simps cache_Set_spec_def)
  next
    case (Inr data)
    show ?thesis
      unfolding redis_SessionCache_def SessionCache.select_convs redis_cache_Set_def app_cache_sel Inr sum.case wp_simps
      using 1(2) app_tables(1)[where be = be and kv = kv and w = w]
      by (auto simp: wp_simps cache_Set_spec_def entries_upd json_okD(1)[OF 1(1) Inr]
          intro!: app_saved wp_app_set[OF 1] redis_ok_upd(1)[OF app_invD(2)[OF 1(1)]] split: sum.split)
  qed
next
  case (2 w h)
  show ?case
    unfolding redis_SessionCache_def SessionCache.select_convs redis_cache_Get_def app_cache_sel wp_simps
    by (rule wp_app_get[OF 2])
      (auto simp: cache_Get_spec_def entries_Some split: sum.split
        intro!: exI[of _ "entries (ju_session (be_json be)) keyPrefix (kv (w_services w))"])
next
  case (3 w h)
  show ?case
    unfolding redis_SessionCache_def SessionCache.select_convs redis_cache_Delete_def app_cache_sel wp_simps
    by (rule wp_app_del[OF 3])
      (auto simp: cache_Delete_spec_def app_tables entries_upd split: sum.split)
qed

section \<open>Counting an attempt\<close>

text \<open>What the script leaves behind.\<close>

definition counted :: "json \<Rightarrow> string \<Rightarrow> time \<Rightarrow> (string \<rightharpoonup> entry) \<Rightarrow> (string \<rightharpoonup> entry)" where
  "counted J k t m = (case live t (m k) of
      Some (raw, Some E) \<Rightarrow> (case cjson_incr J raw of
          Inr (enc, n) \<Rightarrow> if ms t < E then m(k \<mapsto> (enc, Some E)) else m
        | Inl _ \<Rightarrow> m)
    | _ \<Rightarrow> m)"

lemma purged_trans: "purged t a b \<Longrightarrow> purged t b c \<Longrightarrow> purged t a c"
  unfolding purged_def by (metis live_None)

context redis_server
begin

lemma incrOTPScript_effect:
  assumes "ca_client c = rd" "\<forall>raw x. kv r k = Some (raw, x) \<longrightarrow> (\<exists>E. x = Some E)"
  shows "purged t (counted (ca_json c) k t (kv r)) (kv (snd (incrOTPScript c k t r))) \<and>
    (case fst (incrOTPScript c k t r) of
       Inl err \<Rightarrow> True
     | Inr n \<Rightarrow> n = -1 \<and> (\<forall>raw E. kv r k = Some (raw, Some E) \<longrightarrow> E \<le> ms t)
         \<or> (\<exists>raw E enc. kv r k = Some (raw, Some E) \<and> cjson_incr (ca_json c) raw = Inr (enc, n)
              \<and> counted (ca_json c) k t (kv r) = (kv r)(k \<mapsto> (enc, Some E))))"
proof -
  obtain x r1 where 1: "rd_GET rd k t r = (x, r1)" by (cases "rd_GET rd k t r")
  with GET[of k t r] have x: "x = map_option fst (live t (kv r k))" and p1: "purged t (kv r) (kv r1)" by auto
  show ?thesis
  proof (cases "live t (kv r k)")
    case None
    with x p1 show ?thesis
      by (auto simp: incrOTPScript_def assms(1) 1 counted_def live_def split: if_splits)
  next
    case (Some e)
    obtain raw E where E: "kv r k = Some (raw, Some E)" "e = (raw, Some E)"
      using live_Some[OF Some] assms(2) by (cases e) blast
    have E_t: "ms t \<le> E" using Some E by (auto simp: live_def split: if_splits)
    obtain ttl r2 where 2: "rd_PTTL rd k t r1 = (ttl, r2)" by (cases "rd_PTTL rd k t r1")
    have "live t (kv r1 k) = Some (raw, Some E)" using purged_live[OF p1 order_refl, of k] Some E by simp
    from PTTL[OF this] 2 have ttl: "ttl = E - ms t" and "purged t (kv r1) (kv r2)" by auto
    then have p2: "purged t (kv r) (kv r2)" using purged_trans[OF p1] by blast
    have "purged t ((kv r2)(k \<mapsto> (enc, Some E))) (kv (rd_SET_PX rd k enc ttl t r2))" if "0 < ttl" for enc
      using SET_PX[OF that, of t r2 k enc] ttl by simp
    with purged_upd[OF p2] Some E x 1 2 p1 p2 ttl E_t show ?thesis
      by (auto simp: incrOTPScript_def assms(1) counted_def split: sum.split)
  qed
qed

end

lemma code_counts:
  assumes "json_ok J" "code_ok J raw" "cjson_incr J raw = Inr (enc, n)"
  shows "code_ok J enc" "0 \<le> n"
    "(\<exists>rec. otp_of J raw = Inr rec \<and> n = o_Attempts rec + 1 \<and> otp_of J enc = Inr (rec\<lparr>o_Attempts := n\<rparr>))
      \<or> 1000000 \<le> n \<and> isl (otp_of J enc)"
proof -
  have isl: "isl (ju_otp J e)" "code_ok J e" if "overflown J e" for e
    using that by (cases, auto simp: code_ok_def isl_def)+
  consider (exact) d where "ju_otp J raw = Inr d" "0 \<le> od_Attempts d" "n = od_Attempts d + 1" "ju_otp J enc = Inr (d\<lparr>od_Attempts := n\<rparr>)"
    | (lost) "overflown J enc" "1000000 \<le> n"
  proof (cases "ju_otp J raw")
    case (Inl err)
    then have "overflown J raw" using assms(2) by (simp add: code_ok_def)
    then show thesis using assms(3) that(2) by cases auto
  next
    case (Inr d)
    then have "0 \<le> od_Attempts d" using assms(2) by (simp add: code_ok_def)
    with assms(1) Inr obtain enc' n' where "cjson_incr J raw = Inr (enc', n')"
      "n' = od_Attempts d + 1 \<and> ju_otp J enc' = Inr (d\<lparr>od_Attempts := n'\<rparr>) \<or> 1000000 \<le> n' \<and> overflown J enc'"
      unfolding json_ok_def by blast
    then show thesis using assms(3) Inr \<open>0 \<le> od_Attempts d\<close> that by auto
  qed
  then have "code_ok J enc \<and> 0 \<le> n \<and>
    ((\<exists>rec. otp_of J raw = Inr rec \<and> n = o_Attempts rec + 1 \<and> otp_of J enc = Inr (rec\<lparr>o_Attempts := n\<rparr>))
      \<or> 1000000 \<le> n \<and> isl (otp_of J enc))"
  proof cases
    case exact
    then show ?thesis by (simp add: code_ok_def otp_of_def)
  next
    case lost
    with isl[OF lost(1)] show ?thesis by (cases "ju_otp J enc") (simp_all add: otp_of_def)
  qed
  then show "code_ok J enc" "0 \<le> n"
    "(\<exists>rec. otp_of J raw = Inr rec \<and> n = o_Attempts rec + 1 \<and> otp_of J enc = Inr (rec\<lparr>o_Attempts := n\<rparr>))
      \<or> 1000000 \<le> n \<and> isl (otp_of J enc)" by simp_all
qed

lemma otp_cases:
  "isl (otp_of J raw) \<Longrightarrow> (case otp_of J raw of Inr a \<Rightarrow> Some (a, x) | Inl _ \<Rightarrow> None) = None"
  by (cases "otp_of J raw") simp_all

lemma spares_incr: "separate (be_db be) (be_redis be) kv \<Longrightarrow> spares_tables (be_db be) (incrOTPScript (app_cache be) k)"
  by (simp add: separate_def spares_tables_def incrOTPScript_def split: prod.split option.split sum.split) (metis snd_conv)

text \<open>The view after the script: nothing changed, the count went up by one, or the code was lost.\<close>

definition incr_done :: "vault \<Rightarrow> string \<Rightarrow> int \<Rightarrow> vault \<Rightarrow> bool" where
  "incr_done v k n v' \<longleftrightarrow> (\<exists>rec x. v_otps v k = Some (rec, x) \<and> n = o_Attempts rec + 1
       \<and> later (v\<lparr>v_otps := (v_otps v)(k \<mapsto> (rec\<lparr>o_Attempts := n\<rparr>, x))\<rparr>) v')
     \<or> 1000000 \<le> n \<and> later (v\<lparr>v_otps := (v_otps v)(k := None)\<rparr>) v'"

lemma counted_view:
  assumes "app_inv be kv w" "kv (w_services w) (otpPrefix @ h) = Some (raw, Some E)" "cjson_incr (be_json be) raw = Inr (enc, n)"
    and "later (redis_tables (be_json be) ((kv (w_services w))(otpPrefix @ h \<mapsto> (enc, Some E))) (app_view be kv w)) v'"
  shows "incr_done (app_view be kv w) h n v'"
proof -
  note code = redis_ok_code[OF app_invD(2)[OF assms(1)] assms(2)]
  from code_counts(3)[OF backends_okD(4)[OF app_invD(1)[OF assms(1)]] code assms(3)] assms(2,4) show ?thesis
    by (auto simp: incr_done_def app_tables entries_upd entries_Some otp_cases)
qed

lemma counted_ok:
  assumes "app_inv be kv w"
  shows "redis_ok (be_json be) (counted (be_json be) (otpPrefix @ h) t (kv (w_services w)))"
proof -
  note ok = app_invD(2)[OF assms]
  have "code_ok (be_json be) raw" if "live t (kv (w_services w) (otpPrefix @ h)) = Some (raw, x)" for raw x
    using redis_ok_code[OF ok live_Some[OF that]] .
  with ok code_counts(1)[OF backends_okD(4)[OF app_invD(1)[OF assms]]] show ?thesis
    by (auto simp: counted_def redis_ok_upd split: option.split sum.split prod.split)
qed

lemma counted_cases:
  "counted J k t m = m \<or> (\<exists>raw E enc n. m k = Some (raw, Some E) \<and> cjson_incr J raw = Inr (enc, n)
     \<and> counted J k t m = m(k \<mapsto> (enc, Some E)))"
  unfolding counted_def by (auto split: option.split sum.split prod.split dest: live_Some)

text \<open>Whether the answer arrives or not, the script has left the codes alone or counted.\<close>

lemma counted_acted:
  assumes "app_inv be kv w"
    and "later (redis_tables (be_json be) (counted (be_json be) (otpPrefix @ h) t (kv (w_services w))) (app_view be kv w)) v'"
  shows "later (app_view be kv w) v' \<or> (\<exists>n. incr_done (app_view be kv w) h n v')"
  using counted_cases[of "be_json be" "otpPrefix @ h" t "kv (w_services w)"]
proof (elim disjE exE conjE)
  assume "counted (be_json be) (otpPrefix @ h) t (kv (w_services w)) = kv (w_services w)"
  with assms(2) show ?thesis by simp
next
  fix raw E enc n
  assume "kv (w_services w) (otpPrefix @ h) = Some (raw, Some E)" "cjson_incr (be_json be) raw = Inr (enc, n)"
    "counted (be_json be) (otpPrefix @ h) t (kv (w_services w)) = (kv (w_services w))(otpPrefix @ h \<mapsto> (enc, Some E))"
  from counted_view[OF assms(1) this(1,2)] assms(2) this(3) show ?thesis by auto
qed

lemma counted_gone:
  assumes "\<forall>raw E. kv (w_services w) (otpPrefix @ h) = Some (raw, Some E) \<longrightarrow> E \<le> ms t"
  shows "gone_or_expired (v_otps (app_view be kv w)) h (t + 2000000)"
    "counted J (otpPrefix @ h) t (kv (w_services w)) = kv (w_services w)"
proof -
  have "last_ns E \<le> t + 2000000" if "kv (w_services w) (otpPrefix @ h) = Some (raw, Some E)" for raw E
  proof -
    have "E * 1000000 \<le> ms t * 1000000" using assms that by simp
    also have "\<dots> \<le> t" by (simp add: ms_def)
    finally show ?thesis by (simp add: last_ns_def algebra_simps)
  qed
  then show "gone_or_expired (v_otps (app_view be kv w)) h (t + 2000000)"
    by (auto simp: gone_or_expired_def entries_def split: option.split sum.split)
  show "counted J (otpPrefix @ h) t (kv (w_services w)) = kv (w_services w)"
    using assms by (force simp: counted_def split: option.split sum.split prod.split dest: live_Some)
qed

lemma wp_app_incr:
  assumes "app_inv be kv w"
    and "\<And>err w'. app_inv be kv w' \<Longrightarrow> later (app_view be kv w) (app_view be kv w') \<Longrightarrow> Q (Inl err) w'"
    and "\<And>err n w'. app_inv be kv w' \<Longrightarrow> incr_done (app_view be kv w) h n (app_view be kv w') \<Longrightarrow> Q (Inl err) w'"
    and "\<And>w'. app_inv be kv w' \<Longrightarrow> later (app_view be kv w) (app_view be kv w') \<Longrightarrow>
      gone_or_expired (v_otps (app_view be kv w)) h (w_now w' + 2000000) \<Longrightarrow> Q (Inr (-1)) w'"
    and "\<And>n w'. app_inv be kv w' \<Longrightarrow> n \<noteq> -1 \<Longrightarrow> incr_done (app_view be kv w) h n (app_view be kv w') \<Longrightarrow> Q (Inr n) w'"
  shows "wp (redis_Eval (be_redis be) (incrOTPScript (app_cache be) (otpPrefix @ h))) Q w"
proof -
  note b = backends_okD[OF app_invD(1)[OF assms(1)]] and ok = app_invD(2)[OF assms(1)]
  let ?k = "otpPrefix @ h" and ?r = "w_services w"
  have "\<forall>raw x. kv ?r ?k = Some (raw, x) \<longrightarrow> (\<exists>E. x = Some E)" using redis_ok_expires[OF ok] by blast
  note eff = redis_server.incrOTPScript_effect[OF b(1) app_cache_sel(1), of ?r ?k, OF this, unfolded app_cache_sel]
  show ?thesis unfolding redis_Eval_def wp_simps
  proof (rule wp_app_call[OF assms(1) spares_incr[OF b(3)], where m = "\<lambda>t. counted (be_json be) ?k t (kv ?r)"], goal_cases)
    case (1 t)
    then show ?case using eff counted_ok[OF assms(1)] by blast
  next
    case (2 err w')
    then show ?case using assms(2) by simp
  next
    case (3 err w')
    then show ?case using counted_acted[OF assms(1) 3(3)] assms(2,3)[OF 3(1)] by auto
  next
    case (4 w')
    show ?case
    proof (cases "fst (incrOTPScript (app_cache be) ?k (w_now w') ?r)")
      case (Inl err)
      then show ?thesis using counted_acted[OF assms(1) 4(3)] assms(2,3)[OF 4(1)] by auto
    next
      case (Inr n)
      with eff[of "w_now w'"] consider (gone) "n = -1" "\<forall>raw E. kv ?r ?k = Some (raw, Some E) \<longrightarrow> E \<le> ms (w_now w')"
        | (up) raw E enc where "kv ?r ?k = Some (raw, Some E)" "cjson_incr (be_json be) raw = Inr (enc, n)"
            "counted (be_json be) ?k (w_now w') (kv ?r) = (kv ?r)(?k \<mapsto> (enc, Some E))"
        by auto
      then show ?thesis
      proof cases
        case gone
        with counted_gone(1)[of kv w h _ be, OF gone(2)] counted_gone(2)[of kv w h _ "be_json be", OF gone(2)] 4 Inr assms(4)[OF 4(1)]
        show ?thesis by simp
      next
        case up
        with counted_view[OF assms(1) up(1,2)] 4 have "incr_done (app_view be kv w) h n (app_view be kv w')" by simp
        moreover have "0 \<le> n" using code_counts(2)[OF b(4) redis_ok_code[OF ok up(1)] up(2)] .
        ultimately show ?thesis using assms(5)[OF 4(1)] Inr by simp
      qed
    qed
  qed
qed

section \<open>The reset store meets its contract\<close>

lemma app_save_otp:
  assumes "app_inv be kv w" "0 < ttl"
  shows "wp (redis_SaveOTP (lib_crypto (be_lib be)) (app_cache be) uid email oh ttl) (\<lambda>r w'. app_inv be kv w' \<and>
    otp_Save_spec (Hash (lib_crypto (be_lib be)) email) \<lparr>o_UserID = uid, o_OTPHash = oh, o_Attempts = 0\<rparr> ttl
      (app_view be kv w) r (app_view be kv w')) w"
proof (cases "jm_otp (be_json be) \<lparr>od_UserID = uid, od_OTPHash = oh, od_Attempts = 0\<rparr>")
  case (Inl err)
  with assms show ?thesis by (simp add: redis_SaveOTP_def wp_simps otp_Save_spec_def)
next
  case (Inr data)
  note d = json_okD(2)[OF assms(1) Inr]
  have code: "code_ok (be_json be) data" and otp: "otp_of (be_json be) data = Inr \<lparr>o_UserID = uid, o_OTPHash = oh, o_Attempts = 0\<rparr>"
    by (simp_all add: code_ok_def otp_of_def d)
  show ?thesis
    unfolding redis_SaveOTP_def app_cache_sel Inr sum.case wp_simps
    by (auto simp: otp_Save_spec_def app_tables entries_upd otp intro!: app_saved assms(2) wp_app_set[OF assms]
        redis_ok_upd(3)[OF app_invD(2)[OF assms(1)] code] split: sum.split)
qed

lemma app_save_reset:
  assumes "app_inv be kv w" "0 < ttl"
  shows "wp (redis_SaveResetToken (app_cache be) h uid email ttl) (\<lambda>r w'. app_inv be kv w' \<and>
    reset_Save_spec h \<lparr>t_UserID = uid, t_Email = email\<rparr> ttl (app_view be kv w) r (app_view be kv w')) w"
proof (cases "jm_reset (be_json be) \<lparr>rtd_UserID = uid, rtd_Email = email\<rparr>")
  case (Inl err)
  with assms show ?thesis by (simp add: redis_SaveResetToken_def wp_simps reset_Save_spec_def)
next
  case (Inr data)
  have tok: "reset_of (be_json be) data = Inr \<lparr>t_UserID = uid, t_Email = email\<rparr>"
    by (simp add: reset_of_def json_okD(3)[OF assms(1) Inr])
  show ?thesis
    unfolding redis_SaveResetToken_def app_cache_sel Inr sum.case wp_simps
    by (auto simp: reset_Save_spec_def app_tables entries_upd tok intro!: app_saved assms(2) wp_app_set[OF assms]
        redis_ok_upd(2)[OF app_invD(2)[OF assms(1)]] split: sum.split)
qed

interpretation app: reset_store "lib_crypto (be_lib be)" "app_inv be kv" "app_view be kv"
    "redis_ResetCache (lib_crypto (be_lib be)) (app_cache be)" for be :: "'r backends" and kv
proof (unfold_locales, goal_cases)
  case (1 w ttl uid email oh)
  then show ?case by (simp add: redis_ResetCache_def app_save_otp)
next
  case (2 w email)
  show ?case
    unfolding redis_ResetCache_def PasswordResetStore.select_convs redis_GetOTP_def app_cache_sel wp_simps
    by (rule wp_app_get[OF 2])
      (auto simp: otp_Get_spec_def gone_or_expired_def slack_def entries_def otp_of_def split: sum.split option.split)
next
  case (3 w email)
  show ?case
    unfolding redis_ResetCache_def PasswordResetStore.select_convs redis_IncrOTPAttempts_def Let_def app_cache_sel wp_simps
    by (rule wp_app_incr[OF 3]) (auto simp: otp_Incr_spec_def incr_done_def slack_def)
next
  case (4 w email)
  show ?case
    unfolding redis_ResetCache_def PasswordResetStore.select_convs redis_DeleteOTP_def app_cache_sel wp_simps
    by (rule wp_app_del[OF 4]) (auto simp: otp_Delete_spec_def app_tables entries_upd split: sum.split)
next
  case (5 w ttl h uid email)
  then show ?case by (simp add: redis_ResetCache_def app_save_reset)
next
  case (6 w h)
  show ?case
    unfolding redis_ResetCache_def PasswordResetStore.select_convs redis_GetResetToken_def app_cache_sel wp_simps
    by (rule wp_app_get[OF 6])
      (auto simp: reset_Get_spec_def gone_or_expired_def slack_def entries_def reset_of_def split: sum.split option.split)
next
  case (7 w h)
  show ?case
    unfolding redis_ResetCache_def PasswordResetStore.select_convs redis_DeleteResetToken_def app_cache_sel wp_simps
    by (rule wp_app_del[OF 7]) (auto simp: reset_Delete_spec_def app_tables entries_upd split: sum.split)
qed

section \<open>The backend of the deployed service\<close>

lemma app_service_sel [simp]:
  "userStore (app_service be mgr sec ttl) = pg_UserStore (be_db be)"
  "sessionStore (app_service be mgr sec ttl) = pg_SessionStore (be_db be)"
  "tokenMgr (app_service be mgr sec ttl) = access_tokens (be_jwt be) (lib_runtime (be_lib be)) mgr"
  "cache (app_service be mgr sec ttl) = redis_SessionCache (app_cache be)"
  "resetStore (app_service be mgr sec ttl) = redis_ResetCache (lib_crypto (be_lib be)) (app_cache be)"
  "bruteGuard (app_service be mgr sec ttl) = Some (guard_methods (NewGuard (be_redis be) (cfg_MaxAttempts (cfg_BruteForce sec))
          (cfg_Window (cfg_BruteForce sec)) (cfg_LockoutTTL (cfg_BruteForce sec))))"
  "auditStore (app_service be mgr sec ttl) = Some \<lparr>as_Log = pg_audit_Log (be_marshal be) (be_db be)\<rparr>"
  "hook (app_service be mgr sec ttl) = Some NoOp"
  by (simp_all add: app_service_def New_def app_cache_def)

interpretation deployed: auth_backend "be_lib be" "app_service be mgr sec ttl" "app_inv be kv" "app_view be kv" False
  for be :: "'r backends" and mgr sec ttl kv
  unfolding auth_backend_def app_service_sel
  by (intro conjI app.runtime_env_axioms app.user_store_axioms app.session_store_axioms
      app.session_cache_axioms app.reset_store_axioms app.login_guard_axioms app.token_manager_axioms)

end
