(* ===== verification/Server.thy ===== *)
theory Server
  imports Memory_Service Interceptors Demo
begin

text \<open>
  The server as a state machine: a process starts with empty stores and serves calls through the
  interceptor chain, and time passes in between. The invariant of the stores holds in every state
  it can reach.
\<close>

section \<open>The step relation\<close>

definition fresh_stores :: "'r world \<Rightarrow> bool" where
  "fresh_stores w \<longleftrightarrow> w_users w = NewUserStore \<and> w_sessions w = NewSessionStore \<and> w_cache w = []
     \<and> w_resets w = \<lparr>rs_otps = [], rs_resetTokens = []\<rparr>"

text \<open>
  A call is one step: the handlers of concurrent calls are taken one after the other. \<open>Idle\<close> is a
  clock reading by anything else.
\<close>

inductive server_step ::
  "'r deployment \<Rightarrow> 'r Limiter \<Rightarrow> 'r Limiter \<Rightarrow> 'r world \<Rightarrow> 'r world \<Rightarrow> bool"
  for d gl ll where
  Call: "run_state (grpc_call gl ll (mem_lib d) (mem_service d) ctx r) w = (x, w') \<Longrightarrow> server_step d gl ll w w'"
| Idle: "run_state time_Now w = (t, w') \<Longrightarrow> server_step d gl ll w w'"

abbreviation server_steps ::
  "'r deployment \<Rightarrow> 'r Limiter \<Rightarrow> 'r Limiter \<Rightarrow> 'r world \<Rightarrow> 'r world \<Rightarrow> bool" where
  "server_steps d gl ll \<equiv> (server_step d gl ll)\<^sup>*\<^sup>*"

section \<open>Every call keeps the invariant\<close>

lemma aside_ok:
  assumes "aside (d_crypto d) w w'" "mem_ok d w"
  shows "mem_ok d w' \<and> evolves (vault_of d w) (vault_of d w')"
proof -
  have f: "frame (vault_of d w) (vault_of d w')" using assms(1) by (simp add: aside_def later_frame)
  with assms show ?thesis
    by (auto simp: aside_def mem_ok_def intro: vault_ok_frame evolves_frame)
qed

lemma Allow_aside:
  assumes "aside C w0 w"
  shows "wp (Allow l key) (\<lambda>_. aside C w0) w"
  unfolding Allow_def redis_Eval_def Let_def wp_bind
  by (rule wp_time_Now_aside[OF assms], rule wp_redis_call_aside) (simp_all add: wp_return)

lemma dispatch_ok:
  assumes "mem_ok d w" "evolves v0 (vault_of d w)"
  shows "wp (dispatch (mem_lib d) (mem_service d) ctx r) (\<lambda>_ w'. mem_ok d w' \<and> evolves v0 (vault_of d w')) w"
  by (rule wp_mono[OF mem.dispatch_settles[OF mem_ok_tracks[OF assms(1)]]], unfold settled_mem_ok)
    (use assms(2) evolves_trans in blast)

lemma tick_ok:
  assumes "mem_ok d w" "evolves v0 (vault_of d w)"
  shows "wp time_Now (\<lambda>_ w'. mem_ok d w' \<and> evolves v0 (vault_of d w')) w"
proof -
  have "aside (d_crypto d) w w" using assms(1) by (simp add: aside_def mem_ok_def)
  then show ?thesis
    by (rule wp_time_Now_aside) (use assms aside_ok evolves_trans in blast)
qed

lemma Allow_ok:
  assumes "mem_ok d w" "evolves v0 (vault_of d w)"
  shows "wp (Allow l key) (\<lambda>_ w'. mem_ok d w' \<and> evolves v0 (vault_of d w')) w"
proof -
  have "aside (d_crypto d) w w" using assms(1) by (simp add: aside_def mem_ok_def)
  from Allow_aside[OF this] show ?thesis by (rule wp_mono) (use assms aside_ok evolves_trans in blast)
qed

interpretation mem: call_chain gl ll "mem_lib d" "mem_service d" "\<lambda>w. mem_ok d w \<and> evolves v0 (vault_of d w)"
  for gl ll d v0
  by unfold_locales (auto intro: tick_ok Allow_ok dispatch_ok)

lemma server_step_ok:
  assumes "server_step d gl ll w w'" "mem_ok d w" "evolves v0 (vault_of d w)"
  shows "mem_ok d w' \<and> evolves v0 (vault_of d w')"
  using assms(1)
proof cases
  case (Call ctx r x)
  with mem.grpc_call_keeps[OF conjI[OF assms(2,3)], of gl ll ctx r] show ?thesis by (simp add: wp_def)
next
  case (Idle t)
  with tick_ok[OF assms(2,3)] show ?thesis by (simp add: wp_def)
qed

lemma server_steps_ok:
  assumes "server_steps d gl ll w w'" "mem_ok d w"
  shows "mem_ok d w' \<and> evolves (vault_of d w) (vault_of d w')"
  using assms by (induction rule: rtranclp_induct) (auto dest: server_step_ok)

lemma fresh_ok:
  assumes "crypto_ok (d_crypto d)" "supplies_ok (d_crypto d) w" "fresh_stores w"
  shows "mem_ok d w"
  using assms
  by (simp add: mem_ok_def mem_inv_def fresh_stores_def NewUserStore_def NewSessionStore_def users_inv_def
      sessions_inv_def vault_ok_def users_ok_def sessions_ok_def cache_ok_def otps_ok_def resets_ok_def deref_def)

section \<open>Properties\<close>

text \<open>
  Started with empty stores, the server keeps its invariant for ever: in every state it
  reaches by serving any calls through the interceptors, the indexes of the stores are in step,
  every session, reset code and reset token belongs to an existing user, e-mail addresses are
  unique, and a cached session agrees with the stored one.
\<close>

theorem server_reaches_only_ok:
  assumes "crypto_ok (d_crypto d)" "supplies_ok (d_crypto d) w0" "fresh_stores w0" "server_steps d gl ll w0 w"
  shows "mem_ok d w \<and> vault_ok (d_crypto d) (vault_of d w)"
  using server_steps_ok[OF assms(4) fresh_ok[OF assms(1-3)]] by (simp add: mem_ok_def)

text \<open>
  A dead refresh token stays dead: once no session is stored under its digest (after a
  refresh, a logout, a revocation, a password change) and the token itself was drawn before,
  no later state of the server stores a session for it, and \<^verbatim>\<open>RefreshToken\<close> refuses it in each of
  them.
\<close>

theorem dead_token_stays_dead:
  assumes "mem_ok d w" "server_steps d gl ll w w'"
    and "Hash (d_crypto d) (rt_RefreshToken req) \<notin> dom (v_sessions (vault_of d w))"
    and "Hash (d_crypto d) (rt_RefreshToken req) \<notin> v_unused (vault_of d w)"
  shows "wp (RefreshToken (mem_lib d) (mem_service d) ctx req) (\<lambda>r _. \<exists>e. r = Inl e) w'"
proof -
  have ok: "mem_ok d w'" "evolves (vault_of d w) (vault_of d w')" using server_steps_ok[OF assms(2,1)] by auto
  have "dead (Hash (d_crypto d) (rt_RefreshToken req)) (vault_of d w)" using assms(3,4) by (simp add: dead_def)
  from dead_evolves[OF this ok(2)] show ?thesis
    by (intro mem.dead_refused[OF mem_ok_settled[OF ok(1)]]) simp
qed

text \<open>An empty process with the demo's libraries, and a first registration.\<close>

definition fresh_demo :: "redis_db world" where
  "fresh_demo = empty_world\<lparr>w_uuid := (\<lambda>n. CHR ''u'' # itoa n), w_rand := replicate 16 (CHR ''r'')\<rparr>"

definition fresh_deployment :: "redis_db deployment" where
  "fresh_deployment = \<lparr>d_crypto = demo_crypto, d_unicode = demo_unicode, d_jwt = demo_jwt,
     d_tokens = UseHS256 \<lparr>hs_secret = replicate 32 (CHR ''k''), hs_accessTTL = 15 * minute\<rparr>,
     d_guard = Some (NewGuard ref_redis 5 minute minute), d_audit = None, d_hook = None, d_refreshTTL = 60 * minute\<rparr>"

lemma fresh_demo_ok: "supplies_ok demo_crypto fresh_demo" "fresh_stores fresh_demo"
proof -
  have "inj (\<lambda>n. CHR ''u'' # itoa n)" by (rule injI) (metis dec_val_itoa list.inject)
  then show "supplies_ok demo_crypto fresh_demo" by (auto simp: supplies_ok_def fresh_demo_def empty_world_def)
  show "fresh_stores fresh_demo"
    by (simp add: fresh_stores_def fresh_demo_def empty_world_def NewUserStore_def NewSessionStore_def)
qed

theorem server_reaches_only_ok_witness:
  "mem_ok fresh_deployment (snd (run_state (grpc_call (NewLimiter ref_redis 300 minute) (NewLimiter ref_redis 20 minute)
     (mem_lib fresh_deployment) (mem_service fresh_deployment) \<lparr>metadata = None, peer = None\<rparr>
     (RpcRegister \<lparr>rr_Email = ''a@b.co'', rr_Password = ''Passw0rd''\<rparr>)) fresh_demo))"
proof -
  have "server_steps fresh_deployment (NewLimiter ref_redis 300 minute) (NewLimiter ref_redis 20 minute) fresh_demo
    (snd (run_state (grpc_call (NewLimiter ref_redis 300 minute) (NewLimiter ref_redis 20 minute)
     (mem_lib fresh_deployment) (mem_service fresh_deployment) \<lparr>metadata = None, peer = None\<rparr>
     (RpcRegister \<lparr>rr_Email = ''a@b.co'', rr_Password = ''Passw0rd''\<rparr>)) fresh_demo))"
    by (rule r_into_rtranclp, rule server_step.Call, rule surjective_pairing)
  from server_reaches_only_ok[OF _ _ _ this] show ?thesis
    using demo_crypto_ok fresh_demo_ok by (simp add: fresh_deployment_def)
qed

theorem dead_token_stays_dead_witness:
  "wp (RefreshToken demo_lib demo_service no_ctx \<lparr>rt_RefreshToken = ''reset'', rt_DeviceId = []\<rparr>)
     (\<lambda>r _. \<exists>e. r = Inl e) demo_world"
  by (rule dead_token_stays_dead[OF demo_ok rtranclp.rtrancl_refl])
    (use demo_unused(2) demo_hash[of "''reset''" "''tok''"] in \<open>auto simp: demo_view[simplified]\<close>)

end
