(* ===== verification/Gateway.thy ===== *)
theory Gateway
  imports Server App
begin

text \<open>
  \<^verbatim>\<open>gen/api/auth.pb.gw.go\<close> and the routes of \<^verbatim>\<open>internal/app/gateway\<close>: the HTTP side of the service.
  Each route decodes a body or a path parameter into the message of one RPC, calls it through the
  gRPC client (or, for the variant that the application does not use, the server in the same
  process), and turns the outcome into an HTTP response. The router, the header translation and the
  JSON codec belong to grpc-gateway and are parameters; what is relied on of them is the locale
  \<open>grpc_gateway\<close>.
\<close>

section \<open>Requests, responses and the library\<close>

record http_request =
  hr_Method :: string
  hr_Path :: string
  hr_Header :: "(string \<times> string list) list"
  hr_RemoteAddr :: string
  hr_Body :: string

record http_response =
  rs_Code :: nat
  rs_ContentType :: string
  rs_Body :: string

text \<open>An error as the gateway sees it: a status of the service, or one the transport made up.\<close>

datatype gw_error = StatusErr code string | TransportErr string

record ServerMetadata =
  HeaderMD :: "string \<Rightarrow> string list"
  TrailerMD :: "string \<Rightarrow> string list"

definition no_md :: ServerMetadata where
  "no_md = \<lparr>HeaderMD = (\<lambda>_. []), TrailerMD = (\<lambda>_. [])\<rparr>"

definition metadata_Join :: "(string \<Rightarrow> string list) \<Rightarrow> (string \<Rightarrow> string list) \<Rightarrow> string \<Rightarrow> string list" where
  "metadata_Join a b = (\<lambda>k. a k @ b k)"

text \<open>
  \<^verbatim>\<open>Decode\<close> fills a zero message from the body. At the end of the input it leaves the message as it
  is and reports \<^verbatim>\<open>io.EOF\<close>.
\<close>

datatype 'm decode = Decoded 'm | AtEOF 'm | DecodeFailed string

record marshaler =
  mj_Register :: "string \<Rightarrow> RegisterRequest decode"
  mj_Login :: "string \<Rightarrow> LoginRequest decode"
  mj_ValidateToken :: "string \<Rightarrow> string decode"
  mj_RefreshToken :: "string \<Rightarrow> RefreshTokenRequest decode"
  mj_Logout :: "string \<Rightarrow> string decode"
  mj_LogoutAll :: "string \<Rightarrow> unit decode"
  mj_ChangePassword :: "string \<Rightarrow> ChangePasswordRequest decode"
  mj_RequestPasswordReset :: "string \<Rightarrow> string decode"
  mj_VerifyResetCode :: "string \<Rightarrow> VerifyResetCodeRequest decode"
  mj_ResetPassword :: "string \<Rightarrow> ResetPasswordRequest decode"

text \<open>A compiled path template: version, opcodes, string pool, verb.\<close>

record pattern =
  pt_version :: int
  pt_ops :: "int list"
  pt_pool :: "string list"
  pt_verb :: string

text \<open>
  grpc-gateway's run-time library. \<open>gl_Match\<close> is \<^verbatim>\<open>Pattern.MatchAndEscape\<close>; \<open>gl_ServeHTTP\<close> is
  \<^verbatim>\<open>ServeMux.ServeHTTP\<close>, reduced to which registered handler it runs with which parameters, or the
  routing error it writes.
\<close>

record gwlib =
  gl_MarshalerForRequest :: "http_request \<Rightarrow> marshaler"
  gl_AnnotateContext :: "http_request \<Rightarrow> string \<Rightarrow> string \<Rightarrow> gw_error + ctx"
  gl_AnnotateIncomingContext :: "http_request \<Rightarrow> string \<Rightarrow> string \<Rightarrow> gw_error + ctx"
  gl_String :: "string \<Rightarrow> string + string"
  gl_HTTPError :: "ServerMetadata option \<Rightarrow> http_request \<Rightarrow> gw_error \<Rightarrow> http_response"
  gl_ForwardResponseMessage :: "ServerMetadata \<Rightarrow> http_request \<Rightarrow> rpc_reply \<Rightarrow> http_response"
  gl_Match :: "pattern \<Rightarrow> string list \<Rightarrow> (string \<rightharpoonup> string) option"
  gl_Parse :: "string \<Rightarrow> string + pattern"
  gl_ServeHTTP :: "(string \<times> pattern) list \<Rightarrow> http_request \<Rightarrow> http_response + nat \<times> (string \<rightharpoonup> string)"

text \<open>A client or a server of the service: one operation for each RPC.\<close>

type_synonym 'w rpc_client = "ctx \<Rightarrow> rpc \<Rightarrow> ('w, (gw_error + rpc_reply) \<times> ServerMetadata) state"

type_synonym 'w rpc_server = "ctx \<Rightarrow> rpc \<Rightarrow> ('w, gw_error + rpc_reply) state"

type_synonym 'w request_fun =
  "gwlib \<Rightarrow> marshaler \<Rightarrow> http_request \<Rightarrow> (string \<rightharpoonup> string) \<Rightarrow> ('w, (gw_error + rpc_reply) \<times> ServerMetadata) state"

type_synonym 'w route = "string \<times> pattern \<times> (http_request \<Rightarrow> (string \<rightharpoonup> string) \<Rightarrow> ('w, http_response) state)"

section \<open>Decoding a request\<close>

definition decode_body ::
  "'m decode \<Rightarrow> ('m \<Rightarrow> ('w, (gw_error + rpc_reply) \<times> ServerMetadata) state) \<Rightarrow>
   ('w, (gw_error + rpc_reply) \<times> ServerMetadata) state" where
  "decode_body d call = (case d of
       DecodeFailed err \<Rightarrow> ret (Inl (StatusErr InvalidArgument err), no_md)
     | Decoded m \<Rightarrow> call m
     | AtEOF m \<Rightarrow> call m)"

definition path_parameter ::
  "gwlib \<Rightarrow> (string \<rightharpoonup> string) \<Rightarrow> string \<Rightarrow> (string \<Rightarrow> ('w, (gw_error + rpc_reply) \<times> ServerMetadata) state) \<Rightarrow>
   ('w, (gw_error + rpc_reply) \<times> ServerMetadata) state" where
  "path_parameter G pathParams k call = (case pathParams k of
       None \<Rightarrow> ret (Inl (StatusErr InvalidArgument (''missing parameter '' @ k)), no_md)
     | Some val \<Rightarrow>
         (case gl_String G val of
            Inl err \<Rightarrow> ret (Inl (StatusErr InvalidArgument (''type mismatch, parameter: '' @ k @ '', error: '' @ err)), no_md)
          | Inr v \<Rightarrow> call v))"

text \<open>
  The remote variants. They also read the rest of the body and throw it away, which nothing
  observes.
\<close>

definition request_AuthService_Register_0 :: "'w rpc_client \<Rightarrow> ctx \<Rightarrow> 'w request_fun" where
  "request_AuthService_Register_0 client ctx G J req pathParams =
     decode_body (mj_Register J (hr_Body req)) (\<lambda>protoReq. client ctx (RpcRegister protoReq))"

definition request_AuthService_Login_0 :: "'w rpc_client \<Rightarrow> ctx \<Rightarrow> 'w request_fun" where
  "request_AuthService_Login_0 client ctx G J req pathParams =
     decode_body (mj_Login J (hr_Body req)) (\<lambda>protoReq. client ctx (RpcLogin protoReq))"

definition request_AuthService_ValidateToken_0 :: "'w rpc_client \<Rightarrow> ctx \<Rightarrow> 'w request_fun" where
  "request_AuthService_ValidateToken_0 client ctx G J req pathParams =
     decode_body (mj_ValidateToken J (hr_Body req)) (\<lambda>protoReq. client ctx (RpcValidateToken protoReq))"

definition request_AuthService_RefreshToken_0 :: "'w rpc_client \<Rightarrow> ctx \<Rightarrow> 'w request_fun" where
  "request_AuthService_RefreshToken_0 client ctx G J req pathParams =
     decode_body (mj_RefreshToken J (hr_Body req)) (\<lambda>protoReq. client ctx (RpcRefreshToken protoReq))"

definition request_AuthService_Logout_0 :: "'w rpc_client \<Rightarrow> ctx \<Rightarrow> 'w request_fun" where
  "request_AuthService_Logout_0 client ctx G J req pathParams =
     decode_body (mj_Logout J (hr_Body req)) (\<lambda>protoReq. client ctx (RpcLogout protoReq))"

definition request_AuthService_LogoutAll_0 :: "'w rpc_client \<Rightarrow> ctx \<Rightarrow> 'w request_fun" where
  "request_AuthService_LogoutAll_0 client ctx G J req pathParams =
     decode_body (mj_LogoutAll J (hr_Body req)) (\<lambda>protoReq. client ctx RpcLogoutAll)"

definition request_AuthService_ListSessions_0 :: "'w rpc_client \<Rightarrow> ctx \<Rightarrow> 'w request_fun" where
  "request_AuthService_ListSessions_0 client ctx G J req pathParams = client ctx RpcListSessions"

definition request_AuthService_RevokeSession_0 :: "'w rpc_client \<Rightarrow> ctx \<Rightarrow> 'w request_fun" where
  "request_AuthService_RevokeSession_0 client ctx G J req pathParams =
     path_parameter G pathParams ''session_id'' (\<lambda>v. client ctx (RpcRevokeSession v))"

definition request_AuthService_ChangePassword_0 :: "'w rpc_client \<Rightarrow> ctx \<Rightarrow> 'w request_fun" where
  "request_AuthService_ChangePassword_0 client ctx G J req pathParams =
     decode_body (mj_ChangePassword J (hr_Body req)) (\<lambda>protoReq. client ctx (RpcChangePassword protoReq))"

definition request_AuthService_RequestPasswordReset_0 :: "'w rpc_client \<Rightarrow> ctx \<Rightarrow> 'w request_fun" where
  "request_AuthService_RequestPasswordReset_0 client ctx G J req pathParams =
     decode_body (mj_RequestPasswordReset J (hr_Body req)) (\<lambda>protoReq. client ctx (RpcRequestPasswordReset protoReq))"

definition request_AuthService_VerifyResetCode_0 :: "'w rpc_client \<Rightarrow> ctx \<Rightarrow> 'w request_fun" where
  "request_AuthService_VerifyResetCode_0 client ctx G J req pathParams =
     decode_body (mj_VerifyResetCode J (hr_Body req)) (\<lambda>protoReq. client ctx (RpcVerifyResetCode protoReq))"

definition request_AuthService_ResetPassword_0 :: "'w rpc_client \<Rightarrow> ctx \<Rightarrow> 'w request_fun" where
  "request_AuthService_ResetPassword_0 client ctx G J req pathParams =
     decode_body (mj_ResetPassword J (hr_Body req)) (\<lambda>protoReq. client ctx (RpcResetPassword protoReq))"

text \<open>The local variants call the server itself and have no metadata to pass on.\<close>

definition call_server :: "'w rpc_server \<Rightarrow> 'w rpc_client" where
  "call_server server ctx r = do { x \<leftarrow> server ctx r; ret (x, no_md) }"

definition local_request_AuthService_Register_0 :: "'w rpc_server \<Rightarrow> ctx \<Rightarrow> 'w request_fun" where
  "local_request_AuthService_Register_0 server ctx G J req pathParams =
     decode_body (mj_Register J (hr_Body req)) (\<lambda>protoReq. call_server server ctx (RpcRegister protoReq))"

definition local_request_AuthService_Login_0 :: "'w rpc_server \<Rightarrow> ctx \<Rightarrow> 'w request_fun" where
  "local_request_AuthService_Login_0 server ctx G J req pathParams =
     decode_body (mj_Login J (hr_Body req)) (\<lambda>protoReq. call_server server ctx (RpcLogin protoReq))"

definition local_request_AuthService_ValidateToken_0 :: "'w rpc_server \<Rightarrow> ctx \<Rightarrow> 'w request_fun" where
  "local_request_AuthService_ValidateToken_0 server ctx G J req pathParams =
     decode_body (mj_ValidateToken J (hr_Body req)) (\<lambda>protoReq. call_server server ctx (RpcValidateToken protoReq))"

definition local_request_AuthService_RefreshToken_0 :: "'w rpc_server \<Rightarrow> ctx \<Rightarrow> 'w request_fun" where
  "local_request_AuthService_RefreshToken_0 server ctx G J req pathParams =
     decode_body (mj_RefreshToken J (hr_Body req)) (\<lambda>protoReq. call_server server ctx (RpcRefreshToken protoReq))"

definition local_request_AuthService_Logout_0 :: "'w rpc_server \<Rightarrow> ctx \<Rightarrow> 'w request_fun" where
  "local_request_AuthService_Logout_0 server ctx G J req pathParams =
     decode_body (mj_Logout J (hr_Body req)) (\<lambda>protoReq. call_server server ctx (RpcLogout protoReq))"

definition local_request_AuthService_LogoutAll_0 :: "'w rpc_server \<Rightarrow> ctx \<Rightarrow> 'w request_fun" where
  "local_request_AuthService_LogoutAll_0 server ctx G J req pathParams =
     decode_body (mj_LogoutAll J (hr_Body req)) (\<lambda>protoReq. call_server server ctx RpcLogoutAll)"

definition local_request_AuthService_ListSessions_0 :: "'w rpc_server \<Rightarrow> ctx \<Rightarrow> 'w request_fun" where
  "local_request_AuthService_ListSessions_0 server ctx G J req pathParams = call_server server ctx RpcListSessions"

definition local_request_AuthService_RevokeSession_0 :: "'w rpc_server \<Rightarrow> ctx \<Rightarrow> 'w request_fun" where
  "local_request_AuthService_RevokeSession_0 server ctx G J req pathParams =
     path_parameter G pathParams ''session_id'' (\<lambda>v. call_server server ctx (RpcRevokeSession v))"

definition local_request_AuthService_ChangePassword_0 :: "'w rpc_server \<Rightarrow> ctx \<Rightarrow> 'w request_fun" where
  "local_request_AuthService_ChangePassword_0 server ctx G J req pathParams =
     decode_body (mj_ChangePassword J (hr_Body req)) (\<lambda>protoReq. call_server server ctx (RpcChangePassword protoReq))"

definition local_request_AuthService_RequestPasswordReset_0 :: "'w rpc_server \<Rightarrow> ctx \<Rightarrow> 'w request_fun" where
  "local_request_AuthService_RequestPasswordReset_0 server ctx G J req pathParams =
     decode_body (mj_RequestPasswordReset J (hr_Body req)) (\<lambda>protoReq. call_server server ctx (RpcRequestPasswordReset protoReq))"

definition local_request_AuthService_VerifyResetCode_0 :: "'w rpc_server \<Rightarrow> ctx \<Rightarrow> 'w request_fun" where
  "local_request_AuthService_VerifyResetCode_0 server ctx G J req pathParams =
     decode_body (mj_VerifyResetCode J (hr_Body req)) (\<lambda>protoReq. call_server server ctx (RpcVerifyResetCode protoReq))"

definition local_request_AuthService_ResetPassword_0 :: "'w rpc_server \<Rightarrow> ctx \<Rightarrow> 'w request_fun" where
  "local_request_AuthService_ResetPassword_0 server ctx G J req pathParams =
     decode_body (mj_ResetPassword J (hr_Body req)) (\<lambda>protoReq. call_server server ctx (RpcResetPassword protoReq))"

section \<open>Path patterns\<close>

definition pattern_AuthService_Register_0 :: pattern where
  "pattern_AuthService_Register_0 = \<lparr>pt_version = 1, pt_ops = [2, 0, 2, 1, 2, 2],
     pt_pool = [''v1'', ''auth'', ''register''], pt_verb = []\<rparr>"

definition pattern_AuthService_Login_0 :: pattern where
  "pattern_AuthService_Login_0 = \<lparr>pt_version = 1, pt_ops = [2, 0, 2, 1, 2, 2],
     pt_pool = [''v1'', ''auth'', ''login''], pt_verb = []\<rparr>"

definition pattern_AuthService_ValidateToken_0 :: pattern where
  "pattern_AuthService_ValidateToken_0 = \<lparr>pt_version = 1, pt_ops = [2, 0, 2, 1, 2, 2],
     pt_pool = [''v1'', ''auth'', ''validate''], pt_verb = []\<rparr>"

definition pattern_AuthService_RefreshToken_0 :: pattern where
  "pattern_AuthService_RefreshToken_0 = \<lparr>pt_version = 1, pt_ops = [2, 0, 2, 1, 2, 2],
     pt_pool = [''v1'', ''auth'', ''refresh''], pt_verb = []\<rparr>"

definition pattern_AuthService_Logout_0 :: pattern where
  "pattern_AuthService_Logout_0 = \<lparr>pt_version = 1, pt_ops = [2, 0, 2, 1, 2, 2],
     pt_pool = [''v1'', ''auth'', ''logout''], pt_verb = []\<rparr>"

definition pattern_AuthService_LogoutAll_0 :: pattern where
  "pattern_AuthService_LogoutAll_0 = \<lparr>pt_version = 1, pt_ops = [2, 0, 2, 1, 2, 2],
     pt_pool = [''v1'', ''auth'', ''logout-all''], pt_verb = []\<rparr>"

definition pattern_AuthService_ListSessions_0 :: pattern where
  "pattern_AuthService_ListSessions_0 = \<lparr>pt_version = 1, pt_ops = [2, 0, 2, 1, 2, 2],
     pt_pool = [''v1'', ''auth'', ''sessions''], pt_verb = []\<rparr>"

definition pattern_AuthService_RevokeSession_0 :: pattern where
  "pattern_AuthService_RevokeSession_0 = \<lparr>pt_version = 1, pt_ops = [2, 0, 2, 1, 2, 2, 1, 0, 4, 1, 5, 3],
     pt_pool = [''v1'', ''auth'', ''sessions'', ''session_id''], pt_verb = []\<rparr>"

definition pattern_AuthService_ChangePassword_0 :: pattern where
  "pattern_AuthService_ChangePassword_0 = \<lparr>pt_version = 1, pt_ops = [2, 0, 2, 1, 2, 2],
     pt_pool = [''v1'', ''auth'', ''change-password''], pt_verb = []\<rparr>"

definition pattern_AuthService_RequestPasswordReset_0 :: pattern where
  "pattern_AuthService_RequestPasswordReset_0 = \<lparr>pt_version = 1, pt_ops = [2, 0, 2, 1, 2, 2, 2, 3],
     pt_pool = [''v1'', ''auth'', ''password-reset'', ''request''], pt_verb = []\<rparr>"

definition pattern_AuthService_VerifyResetCode_0 :: pattern where
  "pattern_AuthService_VerifyResetCode_0 = \<lparr>pt_version = 1, pt_ops = [2, 0, 2, 1, 2, 2, 2, 3],
     pt_pool = [''v1'', ''auth'', ''password-reset'', ''verify''], pt_verb = []\<rparr>"

definition pattern_AuthService_ResetPassword_0 :: pattern where
  "pattern_AuthService_ResetPassword_0 = \<lparr>pt_version = 1, pt_ops = [2, 0, 2, 1, 2, 2, 2, 3],
     pt_pool = [''v1'', ''auth'', ''password-reset'', ''confirm''], pt_verb = []\<rparr>"

section \<open>Handlers\<close>

text \<open>The closure that the generated code registers for each RPC, for a remote and for a local server.\<close>

definition serve_remote ::
  "gwlib \<Rightarrow> 'w rpc_client \<Rightarrow> string \<Rightarrow> string \<Rightarrow> ('w rpc_client \<Rightarrow> ctx \<Rightarrow> 'w request_fun) \<Rightarrow>
   http_request \<Rightarrow> (string \<rightharpoonup> string) \<Rightarrow> ('w, http_response) state" where
  "serve_remote G client fullMethod pathPattern request req pathParams =
     (case gl_AnnotateContext G req fullMethod pathPattern of
        Inl err \<Rightarrow> ret (gl_HTTPError G None req err)
      | Inr annotatedContext \<Rightarrow> do {
          (resp, md) \<leftarrow> request client annotatedContext G (gl_MarshalerForRequest G req) req pathParams;
          ret (case resp of
             Inl err \<Rightarrow> gl_HTTPError G (Some md) req err
           | Inr msg \<Rightarrow> gl_ForwardResponseMessage G md req msg)
        })"

text \<open>
  The transport stream of a local call collects the headers that a handler sets with
  \<^verbatim>\<open>grpc.SetHeader\<close>. No handler of the service does, so it stays empty.
\<close>

definition serve_local ::
  "gwlib \<Rightarrow> 'w rpc_server \<Rightarrow> string \<Rightarrow> string \<Rightarrow> ('w rpc_server \<Rightarrow> ctx \<Rightarrow> 'w request_fun) \<Rightarrow>
   http_request \<Rightarrow> (string \<rightharpoonup> string) \<Rightarrow> ('w, http_response) state" where
  "serve_local G server fullMethod pathPattern request req pathParams =
     (case gl_AnnotateIncomingContext G req fullMethod pathPattern of
        Inl err \<Rightarrow> ret (gl_HTTPError G None req err)
      | Inr annotatedContext \<Rightarrow> do {
          (resp, md) \<leftarrow> request server annotatedContext G (gl_MarshalerForRequest G req) req pathParams;
          let stream = no_md;
          let md' = \<lparr>HeaderMD = metadata_Join (HeaderMD md) (HeaderMD stream),
            TrailerMD = metadata_Join (TrailerMD md) (TrailerMD stream)\<rparr>;
          ret (case resp of
             Inl err \<Rightarrow> gl_HTTPError G (Some md') req err
           | Inr msg \<Rightarrow> gl_ForwardResponseMessage G md' req msg)
        })"

definition server_route_Register :: "gwlib \<Rightarrow> 'w rpc_server \<Rightarrow> 'w route" where
  "server_route_Register G server = (''POST'', pattern_AuthService_Register_0,
     serve_local G server ''/api.AuthService/Register'' ''/v1/auth/register'' local_request_AuthService_Register_0)"

definition server_route_Login :: "gwlib \<Rightarrow> 'w rpc_server \<Rightarrow> 'w route" where
  "server_route_Login G server = (''POST'', pattern_AuthService_Login_0,
     serve_local G server ''/api.AuthService/Login'' ''/v1/auth/login'' local_request_AuthService_Login_0)"

definition server_route_ValidateToken :: "gwlib \<Rightarrow> 'w rpc_server \<Rightarrow> 'w route" where
  "server_route_ValidateToken G server = (''POST'', pattern_AuthService_ValidateToken_0,
     serve_local G server ''/api.AuthService/ValidateToken'' ''/v1/auth/validate'' local_request_AuthService_ValidateToken_0)"

definition server_route_RefreshToken :: "gwlib \<Rightarrow> 'w rpc_server \<Rightarrow> 'w route" where
  "server_route_RefreshToken G server = (''POST'', pattern_AuthService_RefreshToken_0,
     serve_local G server ''/api.AuthService/RefreshToken'' ''/v1/auth/refresh'' local_request_AuthService_RefreshToken_0)"

definition server_route_Logout :: "gwlib \<Rightarrow> 'w rpc_server \<Rightarrow> 'w route" where
  "server_route_Logout G server = (''POST'', pattern_AuthService_Logout_0,
     serve_local G server ''/api.AuthService/Logout'' ''/v1/auth/logout'' local_request_AuthService_Logout_0)"

definition server_route_LogoutAll :: "gwlib \<Rightarrow> 'w rpc_server \<Rightarrow> 'w route" where
  "server_route_LogoutAll G server = (''POST'', pattern_AuthService_LogoutAll_0,
     serve_local G server ''/api.AuthService/LogoutAll'' ''/v1/auth/logout-all'' local_request_AuthService_LogoutAll_0)"

definition server_route_ListSessions :: "gwlib \<Rightarrow> 'w rpc_server \<Rightarrow> 'w route" where
  "server_route_ListSessions G server = (''GET'', pattern_AuthService_ListSessions_0,
     serve_local G server ''/api.AuthService/ListSessions'' ''/v1/auth/sessions'' local_request_AuthService_ListSessions_0)"

definition server_route_RevokeSession :: "gwlib \<Rightarrow> 'w rpc_server \<Rightarrow> 'w route" where
  "server_route_RevokeSession G server = (''DELETE'', pattern_AuthService_RevokeSession_0,
     serve_local G server ''/api.AuthService/RevokeSession'' ''/v1/auth/sessions/{session_id}'' local_request_AuthService_RevokeSession_0)"

definition server_route_ChangePassword :: "gwlib \<Rightarrow> 'w rpc_server \<Rightarrow> 'w route" where
  "server_route_ChangePassword G server = (''POST'', pattern_AuthService_ChangePassword_0,
     serve_local G server ''/api.AuthService/ChangePassword'' ''/v1/auth/change-password'' local_request_AuthService_ChangePassword_0)"

definition server_route_RequestPasswordReset :: "gwlib \<Rightarrow> 'w rpc_server \<Rightarrow> 'w route" where
  "server_route_RequestPasswordReset G server = (''POST'', pattern_AuthService_RequestPasswordReset_0,
     serve_local G server ''/api.AuthService/RequestPasswordReset'' ''/v1/auth/password-reset/request'' local_request_AuthService_RequestPasswordReset_0)"

definition server_route_VerifyResetCode :: "gwlib \<Rightarrow> 'w rpc_server \<Rightarrow> 'w route" where
  "server_route_VerifyResetCode G server = (''POST'', pattern_AuthService_VerifyResetCode_0,
     serve_local G server ''/api.AuthService/VerifyResetCode'' ''/v1/auth/password-reset/verify'' local_request_AuthService_VerifyResetCode_0)"

definition server_route_ResetPassword :: "gwlib \<Rightarrow> 'w rpc_server \<Rightarrow> 'w route" where
  "server_route_ResetPassword G server = (''POST'', pattern_AuthService_ResetPassword_0,
     serve_local G server ''/api.AuthService/ResetPassword'' ''/v1/auth/password-reset/confirm'' local_request_AuthService_ResetPassword_0)"

definition RegisterAuthServiceHandlerServer :: "gwlib \<Rightarrow> 'w rpc_server \<Rightarrow> 'w route list" where
  "RegisterAuthServiceHandlerServer G server =
    [server_route_Register G server, server_route_Login G server, server_route_ValidateToken G server,
     server_route_RefreshToken G server, server_route_Logout G server, server_route_LogoutAll G server,
     server_route_ListSessions G server, server_route_RevokeSession G server, server_route_ChangePassword G
     server, server_route_RequestPasswordReset G server, server_route_VerifyResetCode G server,
     server_route_ResetPassword G server]"

definition client_route_Register :: "gwlib \<Rightarrow> 'w rpc_client \<Rightarrow> 'w route" where
  "client_route_Register G client = (''POST'', pattern_AuthService_Register_0,
     serve_remote G client ''/api.AuthService/Register'' ''/v1/auth/register'' request_AuthService_Register_0)"

definition client_route_Login :: "gwlib \<Rightarrow> 'w rpc_client \<Rightarrow> 'w route" where
  "client_route_Login G client = (''POST'', pattern_AuthService_Login_0,
     serve_remote G client ''/api.AuthService/Login'' ''/v1/auth/login'' request_AuthService_Login_0)"

definition client_route_ValidateToken :: "gwlib \<Rightarrow> 'w rpc_client \<Rightarrow> 'w route" where
  "client_route_ValidateToken G client = (''POST'', pattern_AuthService_ValidateToken_0,
     serve_remote G client ''/api.AuthService/ValidateToken'' ''/v1/auth/validate'' request_AuthService_ValidateToken_0)"

definition client_route_RefreshToken :: "gwlib \<Rightarrow> 'w rpc_client \<Rightarrow> 'w route" where
  "client_route_RefreshToken G client = (''POST'', pattern_AuthService_RefreshToken_0,
     serve_remote G client ''/api.AuthService/RefreshToken'' ''/v1/auth/refresh'' request_AuthService_RefreshToken_0)"

definition client_route_Logout :: "gwlib \<Rightarrow> 'w rpc_client \<Rightarrow> 'w route" where
  "client_route_Logout G client = (''POST'', pattern_AuthService_Logout_0,
     serve_remote G client ''/api.AuthService/Logout'' ''/v1/auth/logout'' request_AuthService_Logout_0)"

definition client_route_LogoutAll :: "gwlib \<Rightarrow> 'w rpc_client \<Rightarrow> 'w route" where
  "client_route_LogoutAll G client = (''POST'', pattern_AuthService_LogoutAll_0,
     serve_remote G client ''/api.AuthService/LogoutAll'' ''/v1/auth/logout-all'' request_AuthService_LogoutAll_0)"

definition client_route_ListSessions :: "gwlib \<Rightarrow> 'w rpc_client \<Rightarrow> 'w route" where
  "client_route_ListSessions G client = (''GET'', pattern_AuthService_ListSessions_0,
     serve_remote G client ''/api.AuthService/ListSessions'' ''/v1/auth/sessions'' request_AuthService_ListSessions_0)"

definition client_route_RevokeSession :: "gwlib \<Rightarrow> 'w rpc_client \<Rightarrow> 'w route" where
  "client_route_RevokeSession G client = (''DELETE'', pattern_AuthService_RevokeSession_0,
     serve_remote G client ''/api.AuthService/RevokeSession'' ''/v1/auth/sessions/{session_id}'' request_AuthService_RevokeSession_0)"

definition client_route_ChangePassword :: "gwlib \<Rightarrow> 'w rpc_client \<Rightarrow> 'w route" where
  "client_route_ChangePassword G client = (''POST'', pattern_AuthService_ChangePassword_0,
     serve_remote G client ''/api.AuthService/ChangePassword'' ''/v1/auth/change-password'' request_AuthService_ChangePassword_0)"

definition client_route_RequestPasswordReset :: "gwlib \<Rightarrow> 'w rpc_client \<Rightarrow> 'w route" where
  "client_route_RequestPasswordReset G client = (''POST'', pattern_AuthService_RequestPasswordReset_0,
     serve_remote G client ''/api.AuthService/RequestPasswordReset'' ''/v1/auth/password-reset/request'' request_AuthService_RequestPasswordReset_0)"

definition client_route_VerifyResetCode :: "gwlib \<Rightarrow> 'w rpc_client \<Rightarrow> 'w route" where
  "client_route_VerifyResetCode G client = (''POST'', pattern_AuthService_VerifyResetCode_0,
     serve_remote G client ''/api.AuthService/VerifyResetCode'' ''/v1/auth/password-reset/verify'' request_AuthService_VerifyResetCode_0)"

definition client_route_ResetPassword :: "gwlib \<Rightarrow> 'w rpc_client \<Rightarrow> 'w route" where
  "client_route_ResetPassword G client = (''POST'', pattern_AuthService_ResetPassword_0,
     serve_remote G client ''/api.AuthService/ResetPassword'' ''/v1/auth/password-reset/confirm'' request_AuthService_ResetPassword_0)"

definition RegisterAuthServiceHandlerClient :: "gwlib \<Rightarrow> 'w rpc_client \<Rightarrow> 'w route list" where
  "RegisterAuthServiceHandlerClient G client =
    [client_route_Register G client, client_route_Login G client, client_route_ValidateToken G client,
     client_route_RefreshToken G client, client_route_Logout G client, client_route_LogoutAll G client,
     client_route_ListSessions G client, client_route_RevokeSession G client, client_route_ChangePassword G
     client, client_route_RequestPasswordReset G client, client_route_VerifyResetCode G client,
     client_route_ResetPassword G client]"

section \<open>The client and the mux of the application\<close>

text \<open>
  Every method of the generated client is one \<^verbatim>\<open>Invoke\<close> with the full name of the RPC. The
  connection also closes when the gateway's context ends (\<^verbatim>\<open>Stop\<close>, in the theory of the process).
\<close>

record 'w ClientConn =
  cc_Invoke :: "ctx \<Rightarrow> string \<Rightarrow> rpc \<Rightarrow> ('w, (gw_error + rpc_reply) \<times> ServerMetadata) state"

definition NewAuthServiceClient :: "'w ClientConn \<Rightarrow> 'w rpc_client" where
  "NewAuthServiceClient cc ctx r = cc_Invoke cc ctx (FullMethodName r) r"

definition RegisterAuthServiceHandler :: "gwlib \<Rightarrow> 'w ClientConn \<Rightarrow> 'w route list" where
  "RegisterAuthServiceHandler G conn = RegisterAuthServiceHandlerClient G (NewAuthServiceClient conn)"

definition RegisterAuthServiceHandlerFromEndpoint ::
  "gwlib \<Rightarrow> (string \<Rightarrow> credentials \<Rightarrow> string + 'w ClientConn) \<Rightarrow> string \<Rightarrow> credentials \<Rightarrow> string + 'w route list" where
  "RegisterAuthServiceHandlerFromEndpoint G NewClient endpoint opts =
     (case NewClient endpoint opts of Inl err \<Rightarrow> Inl err | Inr conn \<Rightarrow> Inr (RegisterAuthServiceHandler G conn))"

text \<open>The two routes outside production: the embedded API description and a page that shows it.\<close>

definition scalarHTML :: string where
  "scalarHTML = concat (map (\<lambda>l. l @ [CHR 0x0A])
    [''<!DOCTYPE html>'', ''<html>'', ''  <head>'',
     ''    <title>Auth Service '' @ bytes_of [226, 128, 148] @ '' API Reference</title>'',
     ''    <meta charset=\"utf-8\" />'',
     ''    <meta name=\"viewport\" content=\"width=device-width, initial-scale=1\" />'',
     ''  </head>'', ''  <body>'', ''    <script'', ''      id=\"api-reference\"'', ''      data-url=\"/openapi.json\"'',
     ''      src=\"https://cdn.jsdelivr.net/npm/@scalar/api-reference\"></script>'', ''  </body>'']) @ ''</html>''"

definition serve_spec :: "string \<Rightarrow> http_request \<Rightarrow> (string \<rightharpoonup> string) \<Rightarrow> ('w, http_response) state" where
  "serve_spec OpenAPISpec req pathParams =
     ret \<lparr>rs_Code = 200, rs_ContentType = ''application/json'', rs_Body = OpenAPISpec\<rparr>"

definition serve_docs :: "http_request \<Rightarrow> (string \<rightharpoonup> string) \<Rightarrow> ('w, http_response) state" where
  "serve_docs req pathParams =
     ret \<lparr>rs_Code = 200, rs_ContentType = ''text/html; charset=utf-8'', rs_Body = scalarHTML\<rparr>"

definition docs_handlers :: "gwlib \<Rightarrow> string \<Rightarrow> gateway_app \<Rightarrow> string + 'w route list" where
  "docs_handlers G OpenAPISpec a =
     (if gw_env a = ''prod'' then Inr []
      else case gl_Parse G ''/openapi.json'' of
        Inl err \<Rightarrow> Inl (''gateway.run: register /openapi.json: '' @ err)
      | Inr p \<Rightarrow>
          (case gl_Parse G ''/docs'' of
             Inl err \<Rightarrow> Inl (''gateway.run: register /docs: '' @ err)
           | Inr q \<Rightarrow> Inr [(''GET'', p, serve_spec OpenAPISpec), (''GET'', q, serve_docs)]))"

text \<open>The routes that \<^verbatim>\<open>run\<close> installs on its mux, and how the mux serves a request.\<close>

definition gateway_mux ::
  "gwlib \<Rightarrow> (string \<Rightarrow> credentials \<Rightarrow> string + 'w ClientConn) \<Rightarrow> string \<Rightarrow> gateway_app \<Rightarrow> credentials \<Rightarrow> string + 'w route list" where
  "gateway_mux G NewClient OpenAPISpec a creds =
     (case RegisterAuthServiceHandlerFromEndpoint G NewClient (gw_grpcTarget a) creds of
        Inl err \<Rightarrow> Inl (''gateway.run: '' @ err)
      | Inr api \<Rightarrow> (case docs_handlers G OpenAPISpec a of Inl err \<Rightarrow> Inl err | Inr docs \<Rightarrow> Inr (api @ docs)))"

definition mux_serve :: "gwlib \<Rightarrow> 'w route list \<Rightarrow> http_request \<Rightarrow> ('w, http_response) state" where
  "mux_serve G rs req =
     (case gl_ServeHTTP G (map (\<lambda>(m, p, _). (m, p)) rs) req of
        Inl resp \<Rightarrow> ret resp
      | Inr (i, pathParams) \<Rightarrow> snd (snd (rs ! i)) req pathParams)"

section \<open>What is relied on of grpc-gateway\<close>

text \<open>
  Opcode 2 takes one component and compares it with an entry of the pool; 1 takes any component, 4
  joins one component and 5 binds it to a name of the pool. The mux runs a handler whose pattern
  matches the components of the path and whose method is that of the request; it may run one of
  another method only for a \<^verbatim>\<open>POST\<close> (the fall-back for long query strings), and when exactly one handler
  fits it runs that one.
\<close>

definition literal_ops :: "nat \<Rightarrow> int list" where
  "literal_ops n = concat (map (\<lambda>i. [2, int i]) [0..<n])"

definition literal_pattern :: "string list \<Rightarrow> pattern" where
  "literal_pattern pool = \<lparr>pt_version = 1, pt_ops = literal_ops (length pool), pt_pool = pool, pt_verb = []\<rparr>"

definition capture_pattern :: "string list \<Rightarrow> string \<Rightarrow> pattern" where
  "capture_pattern pool name = \<lparr>pt_version = 1,
     pt_ops = literal_ops (length pool) @ [1, 0, 4, 1, 5, int (length pool)], pt_pool = pool @ [name], pt_verb = []\<rparr>"

definition components :: "http_request \<Rightarrow> string list option" where
  "components req = (case hr_Path req of [] \<Rightarrow> None | c # path \<Rightarrow> if c = CHR ''/'' then Some (Split path (CHR ''/'')) else None)"

definition overridden :: "http_request \<Rightarrow> bool" where
  "overridden req \<longleftrightarrow> (\<exists>v \<in> set (hr_Header req). fst v = ''X-Http-Method-Override'')"

text \<open>The documented HTTP status of a code.\<close>

fun http_status :: "code \<Rightarrow> nat" where
  "http_status InvalidArgument = 400"
| "http_status AlreadyExists = 409"
| "http_status Internal = 500"
| "http_status Unauthenticated = 401"
| "http_status ResourceExhausted = 429"
| "http_status NotFound = 404"

locale grpc_gateway =
  fixes G :: gwlib
  assumes match_literal: "gl_Match G (literal_pattern pool) cs = (if cs = pool then Some Map.empty else None)"
    and match_capture: "x \<noteq> [] \<Longrightarrow> gl_Match G (capture_pattern pool name) (pool @ [x]) = Some [name \<mapsto> x]"
    and match_capture_only: "gl_Match G (capture_pattern pool name) cs = Some ps \<Longrightarrow> \<exists>x. cs = pool @ [x] \<and> ps = [name \<mapsto> x]"
    and parse_literal: "gl_Parse G (CHR ''/'' # s) = Inr p \<Longrightarrow> set s \<inter> set ''{}*:'' = {} \<Longrightarrow> p = literal_pattern (Split s (CHR ''/''))"
    and ServeHTTP_fits: "gl_ServeHTTP G rs req = Inr (i, ps) \<Longrightarrow> i < length rs
      \<and> (\<exists>cs. components req = Some cs \<and> gl_Match G (snd (rs ! i)) cs = Some ps)
      \<and> (fst (rs ! i) = hr_Method req \<or> hr_Method req = ''POST'')"
    and ServeHTTP_only: "components req = Some cs \<Longrightarrow> \<not> overridden req \<Longrightarrow> i < length rs \<Longrightarrow> fst (rs ! i) = hr_Method req
      \<Longrightarrow> gl_Match G (snd (rs ! i)) cs = Some ps
      \<Longrightarrow> (\<And>j. j < length rs \<Longrightarrow> fst (rs ! j) = hr_Method req \<Longrightarrow> gl_Match G (snd (rs ! j)) cs \<noteq> None \<Longrightarrow> j = i)
      \<Longrightarrow> gl_ServeHTTP G rs req = Inr (i, ps)"
    and String_id: "gl_String G s = Inr s"
    and HTTPError_status: "rs_Code (gl_HTTPError G md req (StatusErr c msg)) = http_status c"
    and Forward_ok: "rs_Code (gl_ForwardResponseMessage G md' req resp) = 200"

end
