(* ===== verification/Gateway_Proofs.thy ===== *)
theory Gateway_Proofs
  imports Gateway
begin

text \<open>
  What the gateway guarantees: every RPC is served under its published method and path, one HTTP
  request makes at most one call, the invariant of the server holds behind the gateway, and what
  address an HTTP client is known under. At the end an instance of the library that computes.
\<close>

section \<open>The published interface\<close>

text \<open>Method and path of each RPC as the README lists them, and when a body carries its message.\<close>

fun route_of :: "rpc \<Rightarrow> string \<times> string list" where
  "route_of (RpcRegister _) = (''POST'', [''v1'', ''auth'', ''register''])"
| "route_of (RpcLogin _) = (''POST'', [''v1'', ''auth'', ''login''])"
| "route_of (RpcValidateToken _) = (''POST'', [''v1'', ''auth'', ''validate''])"
| "route_of (RpcRefreshToken _) = (''POST'', [''v1'', ''auth'', ''refresh''])"
| "route_of (RpcLogout _) = (''POST'', [''v1'', ''auth'', ''logout''])"
| "route_of RpcLogoutAll = (''POST'', [''v1'', ''auth'', ''logout-all''])"
| "route_of RpcListSessions = (''GET'', [''v1'', ''auth'', ''sessions''])"
| "route_of (RpcRevokeSession i) = (''DELETE'', [''v1'', ''auth'', ''sessions'', i])"
| "route_of (RpcChangePassword _) = (''POST'', [''v1'', ''auth'', ''change-password''])"
| "route_of (RpcRequestPasswordReset _) = (''POST'', [''v1'', ''auth'', ''password-reset'', ''request''])"
| "route_of (RpcVerifyResetCode _) = (''POST'', [''v1'', ''auth'', ''password-reset'', ''verify''])"
| "route_of (RpcResetPassword _) = (''POST'', [''v1'', ''auth'', ''password-reset'', ''confirm''])"

fun message :: "'m decode \<Rightarrow> 'm option" where
  "message (Decoded m) = Some m"
| "message (AtEOF m) = Some m"
| "message (DecodeFailed err) = None"

fun carries :: "marshaler \<Rightarrow> string \<Rightarrow> rpc \<Rightarrow> bool" where
  "carries J b (RpcRegister m) \<longleftrightarrow> message (mj_Register J b) = Some m"
| "carries J b (RpcLogin m) \<longleftrightarrow> message (mj_Login J b) = Some m"
| "carries J b (RpcValidateToken m) \<longleftrightarrow> message (mj_ValidateToken J b) = Some m"
| "carries J b (RpcRefreshToken m) \<longleftrightarrow> message (mj_RefreshToken J b) = Some m"
| "carries J b (RpcLogout m) \<longleftrightarrow> message (mj_Logout J b) = Some m"
| "carries J b RpcLogoutAll \<longleftrightarrow> message (mj_LogoutAll J b) \<noteq> None"
| "carries J b RpcListSessions \<longleftrightarrow> True"
| "carries J b (RpcRevokeSession i) \<longleftrightarrow> True"
| "carries J b (RpcChangePassword m) \<longleftrightarrow> message (mj_ChangePassword J b) = Some m"
| "carries J b (RpcRequestPasswordReset m) \<longleftrightarrow> message (mj_RequestPasswordReset J b) = Some m"
| "carries J b (RpcVerifyResetCode m) \<longleftrightarrow> message (mj_VerifyResetCode J b) = Some m"
| "carries J b (RpcResetPassword m) \<longleftrightarrow> message (mj_ResetPassword J b) = Some m"

text \<open>The path template of an RPC, with which the gateway annotates the call.\<close>

fun http_pattern :: "rpc \<Rightarrow> string" where
  "http_pattern (RpcRevokeSession _) = ''/v1/auth/sessions/{session_id}''"
| "http_pattern r = concat (map (\<lambda>c. CHR ''/'' # c) (snd (route_of r)))"

text \<open>What the gateway does once it knows the RPC: call it once, translate the outcome.\<close>

definition relay :: "gwlib \<Rightarrow> 'w rpc_client \<Rightarrow> ctx \<Rightarrow> http_request \<Rightarrow> rpc \<Rightarrow> ('w, http_response) state" where
  "relay G client ctx req r = do {
     (x, md) \<leftarrow> client ctx r;
     ret (case x of Inl err \<Rightarrow> gl_HTTPError G (Some md) req err | Inr msg \<Rightarrow> gl_ForwardResponseMessage G md req msg)
   }"

lemma decode_body_message:
  "decode_body d call = (case message d of Some m \<Rightarrow> call m
     | None \<Rightarrow> ret (Inl (StatusErr InvalidArgument (case d of DecodeFailed err \<Rightarrow> err | _ \<Rightarrow> [])), no_md))"
  by (cases d) (simp_all add: decode_body_def)

lemmas remote_requests =
  request_AuthService_Register_0_def request_AuthService_Login_0_def request_AuthService_ValidateToken_0_def
  request_AuthService_RefreshToken_0_def request_AuthService_Logout_0_def request_AuthService_LogoutAll_0_def
  request_AuthService_ListSessions_0_def request_AuthService_RevokeSession_0_def
  request_AuthService_ChangePassword_0_def request_AuthService_RequestPasswordReset_0_def
  request_AuthService_VerifyResetCode_0_def request_AuthService_ResetPassword_0_def

lemmas local_requests =
  local_request_AuthService_Register_0_def local_request_AuthService_Login_0_def
  local_request_AuthService_ValidateToken_0_def local_request_AuthService_RefreshToken_0_def
  local_request_AuthService_Logout_0_def local_request_AuthService_LogoutAll_0_def
  local_request_AuthService_ListSessions_0_def local_request_AuthService_RevokeSession_0_def
  local_request_AuthService_ChangePassword_0_def local_request_AuthService_RequestPasswordReset_0_def
  local_request_AuthService_VerifyResetCode_0_def local_request_AuthService_ResetPassword_0_def

lemmas client_routes =
  client_route_Register_def client_route_Login_def client_route_ValidateToken_def client_route_RefreshToken_def
  client_route_Logout_def client_route_LogoutAll_def client_route_ListSessions_def client_route_RevokeSession_def
  client_route_ChangePassword_def client_route_RequestPasswordReset_def client_route_VerifyResetCode_def
  client_route_ResetPassword_def

lemmas server_routes =
  server_route_Register_def server_route_Login_def server_route_ValidateToken_def server_route_RefreshToken_def
  server_route_Logout_def server_route_LogoutAll_def server_route_ListSessions_def server_route_RevokeSession_def
  server_route_ChangePassword_def server_route_RequestPasswordReset_def server_route_VerifyResetCode_def
  server_route_ResetPassword_def

text \<open>The compiled patterns are those of the published paths.\<close>

lemma patterns_literal:
  "pattern_AuthService_Register_0 = literal_pattern [''v1'', ''auth'', ''register'']"
  "pattern_AuthService_Login_0 = literal_pattern [''v1'', ''auth'', ''login'']"
  "pattern_AuthService_ValidateToken_0 = literal_pattern [''v1'', ''auth'', ''validate'']"
  "pattern_AuthService_RefreshToken_0 = literal_pattern [''v1'', ''auth'', ''refresh'']"
  "pattern_AuthService_Logout_0 = literal_pattern [''v1'', ''auth'', ''logout'']"
  "pattern_AuthService_LogoutAll_0 = literal_pattern [''v1'', ''auth'', ''logout-all'']"
  "pattern_AuthService_ListSessions_0 = literal_pattern [''v1'', ''auth'', ''sessions'']"
  "pattern_AuthService_RevokeSession_0 = capture_pattern [''v1'', ''auth'', ''sessions''] ''session_id''"
  "pattern_AuthService_ChangePassword_0 = literal_pattern [''v1'', ''auth'', ''change-password'']"
  "pattern_AuthService_RequestPasswordReset_0 = literal_pattern [''v1'', ''auth'', ''password-reset'', ''request'']"
  "pattern_AuthService_VerifyResetCode_0 = literal_pattern [''v1'', ''auth'', ''password-reset'', ''verify'']"
  "pattern_AuthService_ResetPassword_0 = literal_pattern [''v1'', ''auth'', ''password-reset'', ''confirm'']"
  by (simp_all add: literal_pattern_def capture_pattern_def literal_ops_def upt_rec
      pattern_AuthService_Register_0_def pattern_AuthService_Login_0_def pattern_AuthService_ValidateToken_0_def
      pattern_AuthService_RefreshToken_0_def pattern_AuthService_Logout_0_def pattern_AuthService_LogoutAll_0_def
      pattern_AuthService_ListSessions_0_def pattern_AuthService_RevokeSession_0_def
      pattern_AuthService_ChangePassword_0_def pattern_AuthService_RequestPasswordReset_0_def
      pattern_AuthService_VerifyResetCode_0_def pattern_AuthService_ResetPassword_0_def)

text \<open>The table of the mux: the routes of the API, in the order of their registration.\<close>

definition api_table :: "(string \<times> pattern) list" where
  "api_table = [(''POST'', literal_pattern [''v1'', ''auth'', ''register'']), (''POST'', literal_pattern [''v1'', ''auth'', ''login'']),
    (''POST'', literal_pattern [''v1'', ''auth'', ''validate'']), (''POST'', literal_pattern [''v1'', ''auth'', ''refresh'']),
    (''POST'', literal_pattern [''v1'', ''auth'', ''logout'']), (''POST'', literal_pattern [''v1'', ''auth'', ''logout-all'']),
    (''GET'', literal_pattern [''v1'', ''auth'', ''sessions'']),
    (''DELETE'', capture_pattern [''v1'', ''auth'', ''sessions''] ''session_id''),
    (''POST'', literal_pattern [''v1'', ''auth'', ''change-password'']),
    (''POST'', literal_pattern [''v1'', ''auth'', ''password-reset'', ''request'']),
    (''POST'', literal_pattern [''v1'', ''auth'', ''password-reset'', ''verify'']),
    (''POST'', literal_pattern [''v1'', ''auth'', ''password-reset'', ''confirm''])]"

fun route_index :: "rpc \<Rightarrow> nat" where
  "route_index (RpcRegister _) = 0"
| "route_index (RpcLogin _) = 1"
| "route_index (RpcValidateToken _) = 2"
| "route_index (RpcRefreshToken _) = 3"
| "route_index (RpcLogout _) = 4"
| "route_index RpcLogoutAll = 5"
| "route_index RpcListSessions = 6"
| "route_index (RpcRevokeSession _) = 7"
| "route_index (RpcChangePassword _) = 8"
| "route_index (RpcRequestPasswordReset _) = 9"
| "route_index (RpcVerifyResetCode _) = 10"
| "route_index (RpcResetPassword _) = 11"

lemma api_table_client: "map (\<lambda>(m, p, _). (m, p)) (RegisterAuthServiceHandlerClient G client) = api_table"
  by (simp add: RegisterAuthServiceHandlerClient_def client_routes api_table_def patterns_literal)

lemma length_api_table [simp]: "length api_table = 12"
  by (simp add: api_table_def)

lemma length_client_routes [simp]: "length (RegisterAuthServiceHandlerClient G client) = 12"
  using arg_cong[OF api_table_client, of length] by simp

lemma route_index_less [simp]: "route_index r < 12"
  by (cases r) simp_all

lemma api_table_method: "fst (api_table ! route_index r) = fst (route_of r)"
  by (cases r) (simp_all add: api_table_def)

text \<open>The handler at an index, with the parameters of the path, relays the RPC of that index.\<close>

fun path_params :: "rpc \<Rightarrow> string \<rightharpoonup> string" where
  "path_params (RpcRevokeSession i) = [''session_id'' \<mapsto> i]"
| "path_params _ = Map.empty"

lemma FullMethodNames:
  "FullMethodName r = ''/api.AuthService/'' @ rpc_name r" by (simp add: FullMethodName_def)

lemma relay_bind:
  "(do { (resp, md) \<leftarrow> client ctx r; ret (case resp of Inl err \<Rightarrow> gl_HTTPError G (Some md) req err
      | Inr msg \<Rightarrow> gl_ForwardResponseMessage G md req msg) }) = relay G client ctx req r"
  by (simp add: relay_def)

lemmas remote_simps =
  RegisterAuthServiceHandlerClient_def client_routes serve_remote_def remote_requests decode_body_message
  path_parameter_def relay_def FullMethodName_def

lemma below_12: "j < 12 \<Longrightarrow> j = 0 \<or> j = 1 \<or> j = 2 \<or> j = 3 \<or> j = 4 \<or> j = 5 \<or> j = 6 \<or> j = 7 \<or> j = 8 \<or> j = 9 \<or> j = 10 \<or> j = (11::nat)"
  by arith

lemma is_ret: "\<exists>y. ret x = ret y"
  by (rule exI) (rule refl)

text \<open>What a handler does: answer by itself, or relay the one RPC whose path was asked for.\<close>

definition relays_one ::
  "gwlib \<Rightarrow> 'w rpc_client \<Rightarrow> http_request \<Rightarrow> string list \<Rightarrow> ('w, http_response) state \<Rightarrow> bool" where
  "relays_one G client req cs m \<longleftrightarrow> (\<exists>resp. m = ret resp) \<or>
     (\<exists>r ctx. snd (route_of r) = cs \<and> carries (gl_MarshalerForRequest G req) (hr_Body req) r
        \<and> gl_AnnotateContext G req (FullMethodName r) (http_pattern r) = Inr ctx \<and> m = relay G client ctx req r)"

lemma relays_one_ret: "relays_one G client req cs (ret resp)"
  by (auto simp: relays_one_def)

lemma relays_one_relay:
  assumes "snd (route_of r) = cs" "carries (gl_MarshalerForRequest G req) (hr_Body req) r"
    "gl_AnnotateContext G req (FullMethodName r) (http_pattern r) = Inr ctx"
  shows "relays_one G client req cs (relay G client ctx req r)"
  using assms by (auto simp: relays_one_def)

context grpc_gateway
begin

lemma match_own:
  assumes "\<forall>i. r = RpcRevokeSession i \<longrightarrow> i \<noteq> []"
  shows "gl_Match G (snd (api_table ! route_index r)) (snd (route_of r)) = Some (path_params r)"
  using assms match_capture[of _ "[''v1'', ''auth'', ''sessions'']" "''session_id''"]
  by (cases r) (simp_all add: api_table_def match_literal)

lemma match_route_of:
  assumes "i < 12" "gl_Match G (snd (api_table ! i)) cs = Some ps" "route_index r = i"
  shows "(\<exists>x. r = RpcRevokeSession x) \<or> snd (route_of r) = cs \<and> path_params r = ps"
  using assms by (cases r) (auto simp: api_table_def match_literal split: if_splits)

lemma match_unique:
  assumes "j < 12" "fst (api_table ! j) = fst (route_of r)" "gl_Match G (snd (api_table ! j)) (snd (route_of r)) \<noteq> None"
  shows "j = route_index r"
proof -
  note below_12[OF assms(1)]
  with assms(2,3) show ?thesis
    by (cases r) (auto simp: api_table_def match_literal split: if_splits)
qed

lemma handler_relays:
  assumes "gl_AnnotateContext G req (FullMethodName r) (http_pattern r) = Inr ctx"
    and "carries (gl_MarshalerForRequest G req) (hr_Body req) r"
  shows "snd (snd (RegisterAuthServiceHandlerClient G client ! route_index r)) req (path_params r) = relay G client ctx req r"
  using assms by (cases r) (auto simp: remote_simps String_id)

lemma serve_remote_one:
  assumes "\<And>ctx. gl_AnnotateContext G req full pat = Inr ctx \<Longrightarrow>
      (\<exists>r. snd (route_of r) = cs \<and> carries (gl_MarshalerForRequest G req) (hr_Body req) r
         \<and> full = FullMethodName r \<and> pat = http_pattern r
         \<and> request client ctx G (gl_MarshalerForRequest G req) req ps = client ctx r)
      \<or> (\<exists>x. request client ctx G (gl_MarshalerForRequest G req) req ps = ret x)"
  shows "relays_one G client req cs (serve_remote G client full pat request req ps)"
proof (cases "gl_AnnotateContext G req full pat")
  case (Inl err)
  then show ?thesis by (simp add: serve_remote_def relays_one_ret)
next
  case (Inr ctx)
  from assms[OF Inr] show ?thesis
  proof (elim disjE exE conjE)
    fix r
    assume r: "snd (route_of r) = cs" "carries (gl_MarshalerForRequest G req) (hr_Body req) r"
      "full = FullMethodName r" "pat = http_pattern r"
      "request client ctx G (gl_MarshalerForRequest G req) req ps = client ctx r"
    with Inr relays_one_relay[OF r(1,2), of ctx client] show ?thesis by (simp add: serve_remote_def relay_def)
  next
    fix x
    assume "request client ctx G (gl_MarshalerForRequest G req) req ps = ret x"
    with Inr show ?thesis
      by (cases x) (simp add: serve_remote_def State_Monad.bind_def State_Monad.return_def relays_one_ret[unfolded State_Monad.return_def])
  qed
qed

lemma body_route:
  assumes "\<And>ctx. request client ctx G (gl_MarshalerForRequest G req) req ps = decode_body d (\<lambda>m. client ctx (C m))"
    and "\<And>m. snd (route_of (C m)) = cs" "\<And>m. FullMethodName (C m) = full" "\<And>m. http_pattern (C m) = pat"
    and "\<And>m. message d = Some m \<Longrightarrow> carries (gl_MarshalerForRequest G req) (hr_Body req) (C m)"
  shows "relays_one G client req cs (serve_remote G client full pat request req ps)"
proof (rule serve_remote_one)
  fix ctx
  show "(\<exists>r. snd (route_of r) = cs \<and> carries (gl_MarshalerForRequest G req) (hr_Body req) r
       \<and> full = FullMethodName r \<and> pat = http_pattern r
       \<and> request client ctx G (gl_MarshalerForRequest G req) req ps = client ctx r)
    \<or> (\<exists>x. request client ctx G (gl_MarshalerForRequest G req) req ps = ret x)"
  proof (cases "message d")
    case None
    then show ?thesis by (intro disjI2) (auto simp: assms(1) decode_body_message)
  next
    case (Some m)
    then show ?thesis
      using assms(2-4)[of m] assms(5)[OF Some] by (intro disjI1 exI[of _ "C m"]) (simp add: assms(1) decode_body_message)
  qed
qed

lemma handler_relays_one:
  assumes "i < 12" "gl_Match G (snd (api_table ! i)) cs = Some ps"
  shows "relays_one G client req cs (snd (snd (RegisterAuthServiceHandlerClient G client ! i)) req ps)"
proof -
  note defs = RegisterAuthServiceHandlerClient_def client_routes
  have bodies:
    "relays_one G client req [''v1'', ''auth'', ''register'']
       (serve_remote G client ''/api.AuthService/Register'' ''/v1/auth/register'' request_AuthService_Register_0 req ps)"
    "relays_one G client req [''v1'', ''auth'', ''login'']
       (serve_remote G client ''/api.AuthService/Login'' ''/v1/auth/login'' request_AuthService_Login_0 req ps)"
    "relays_one G client req [''v1'', ''auth'', ''validate'']
       (serve_remote G client ''/api.AuthService/ValidateToken'' ''/v1/auth/validate'' request_AuthService_ValidateToken_0 req ps)"
    "relays_one G client req [''v1'', ''auth'', ''refresh'']
       (serve_remote G client ''/api.AuthService/RefreshToken'' ''/v1/auth/refresh'' request_AuthService_RefreshToken_0 req ps)"
    "relays_one G client req [''v1'', ''auth'', ''logout'']
       (serve_remote G client ''/api.AuthService/Logout'' ''/v1/auth/logout'' request_AuthService_Logout_0 req ps)"
    "relays_one G client req [''v1'', ''auth'', ''logout-all'']
       (serve_remote G client ''/api.AuthService/LogoutAll'' ''/v1/auth/logout-all'' request_AuthService_LogoutAll_0 req ps)"
    "relays_one G client req [''v1'', ''auth'', ''change-password'']
       (serve_remote G client ''/api.AuthService/ChangePassword'' ''/v1/auth/change-password'' request_AuthService_ChangePassword_0 req ps)"
    "relays_one G client req [''v1'', ''auth'', ''password-reset'', ''request'']
       (serve_remote G client ''/api.AuthService/RequestPasswordReset'' ''/v1/auth/password-reset/request'' request_AuthService_RequestPasswordReset_0 req ps)"
    "relays_one G client req [''v1'', ''auth'', ''password-reset'', ''verify'']
       (serve_remote G client ''/api.AuthService/VerifyResetCode'' ''/v1/auth/password-reset/verify'' request_AuthService_VerifyResetCode_0 req ps)"
    "relays_one G client req [''v1'', ''auth'', ''password-reset'', ''confirm'']
       (serve_remote G client ''/api.AuthService/ResetPassword'' ''/v1/auth/password-reset/confirm'' request_AuthService_ResetPassword_0 req ps)"
    by (rule body_route, rule remote_requests, simp_all add: FullMethodName_def)+
  consider (body) "i \<noteq> 6" "i \<noteq> 7" | (list) "i = 6" | (revoke) "i = 7" by auto
  then show ?thesis
  proof cases
    case body
    with below_12[OF assms(1)] assms(2) show ?thesis
      by (auto simp: api_table_def match_literal defs bodies split: if_splits)
  next
    case list
    with assms(2) show ?thesis
      by (auto simp: api_table_def match_literal defs remote_requests FullMethodName_def split: if_splits
          intro!: serve_remote_one exI[of _ RpcListSessions])
  next
    case revoke
    with assms(2) obtain x where "cs = [''v1'', ''auth'', ''sessions'', x]" "ps = [''session_id'' \<mapsto> x]"
      using match_capture_only[of "[''v1'', ''auth'', ''sessions'']" "''session_id''" cs ps] by (auto simp: api_table_def)
    with revoke show ?thesis
      by (auto simp: defs remote_requests FullMethodName_def path_parameter_def String_id
          intro!: serve_remote_one exI[of _ "RpcRevokeSession x"])
  qed
qed

text \<open>The documentation routes answer on their own paths only, and by themselves.\<close>

lemma docs_apart:
  assumes "docs_handlers G spec a = Inr docs" "j < length docs"
  shows "fst (docs ! j) = ''GET'' \<and>
    (gl_Match G (fst (snd (docs ! j))) cs \<noteq> None \<longrightarrow> cs = [''openapi.json''] \<or> cs = [''docs''])
    \<and> (\<exists>resp. snd (snd (docs ! j)) req ps = ret resp)"
proof -
  have p: "gl_Match G p cs \<noteq> None \<Longrightarrow> cs = [''openapi.json'']" if "gl_Parse G ''/openapi.json'' = Inr p" for p
    using parse_literal[OF that] by (auto simp: match_literal split: if_splits)
  have q: "gl_Match G p cs \<noteq> None \<Longrightarrow> cs = [''docs'']" if "gl_Parse G ''/docs'' = Inr p" for p
    using parse_literal[OF that] by (auto simp: match_literal split: if_splits)
  show ?thesis using assms p q
    by (auto simp: docs_handlers_def less_Suc_eq serve_spec_def serve_docs_def is_ret split: if_splits sum.splits)
qed

lemma mux_relays:
  assumes "docs_handlers G spec a = Inr docs" "components req = Some (snd (route_of r))" "hr_Method req = fst (route_of r)"
    and "\<not> overridden req" "\<forall>i. r = RpcRevokeSession i \<longrightarrow> i \<noteq> []"
    and "carries (gl_MarshalerForRequest G req) (hr_Body req) r"
    and "gl_AnnotateContext G req (FullMethodName r) (http_pattern r) = Inr ctx"
  shows "mux_serve G (RegisterAuthServiceHandlerClient G client @ docs) req = relay G client ctx req r"
proof -
  define rs where "rs = api_table @ map (\<lambda>(m, p, _). (m, p)) docs"
  have at: "rs ! j = api_table ! j" if "j < 12" for j using that by (simp add: rs_def nth_append)
  have "gl_ServeHTTP G rs req = Inr (route_index r, path_params r)"
  proof (rule ServeHTTP_only[OF assms(2,4)])
    show "route_index r < length rs" by (simp add: rs_def trans_less_add1)
    show "fst (rs ! route_index r) = hr_Method req" using assms(3) by (simp add: at api_table_method)
    show "gl_Match G (snd (rs ! route_index r)) (snd (route_of r)) = Some (path_params r)"
      using match_own[OF assms(5)] by (simp add: at)
    fix j assume j: "j < length rs" "fst (rs ! j) = hr_Method req" "gl_Match G (snd (rs ! j)) (snd (route_of r)) \<noteq> None"
    show "j = route_index r"
    proof (cases "j < 12")
      case True
      with j(2,3) assms(3) show ?thesis by (intro match_unique) (simp_all add: at)
    next
      case False
      then have k: "j - 12 < length docs" "snd (rs ! j) = fst (snd (docs ! (j - 12)))"
        using j(1) by (auto simp: rs_def nth_append case_prod_unfold)
      have "snd (route_of r) = [''openapi.json''] \<or> snd (route_of r) = [''docs'']"
        using docs_apart[OF assms(1) k(1)] j(3) k(2) by auto
      then show ?thesis by (cases r) simp_all
    qed
  qed
  then show ?thesis using handler_relays[OF assms(7,6)]
    by (simp add: mux_serve_def nth_append rs_def api_table_client)
qed

lemma mux_relays_one:
  assumes "docs_handlers G spec a = Inr docs"
  shows "\<exists>cs. (components req = Some cs \<or> cs = []) \<and>
    relays_one G client req cs (mux_serve G (RegisterAuthServiceHandlerClient G client @ docs) req)"
proof (cases "gl_ServeHTTP G (map (\<lambda>(m, p, _). (m, p)) (RegisterAuthServiceHandlerClient G client @ docs)) req")
  case (Inl resp)
  then show ?thesis by (auto simp: mux_serve_def relays_one_ret)
next
  case (Inr x)
  obtain i ps where x: "x = (i, ps)" by force
  let ?rs = "map (\<lambda>(m, p, _). (m, p)) (RegisterAuthServiceHandlerClient G client @ docs)"
  from ServeHTTP_fits[OF Inr[unfolded x]] obtain cs where i: "i < length ?rs" "components req = Some cs"
    "gl_Match G (snd (?rs ! i)) cs = Some ps" by blast
  show ?thesis
  proof (cases "i < 12")
    case True
    with i(3) have "gl_Match G (snd (api_table ! i)) cs = Some ps"
      by (simp add: nth_append flip: api_table_client[of G client])
    from handler_relays_one[OF True this] show ?thesis
      using Inr True i(2) by (intro exI[of _ cs]) (simp add: mux_serve_def x nth_append)
  next
    case False
    with i(1) have "i - 12 < length docs" by simp
    from docs_apart[OF assms this] obtain resp where "snd (snd (docs ! (i - 12))) req ps = ret resp" by blast
    with Inr False i(2) show ?thesis
      by (intro exI[of _ cs]) (simp add: mux_serve_def x nth_append relays_one_ret)
  qed
qed

end

section \<open>Properties of the gateway\<close>

text \<open>
  Claim C24. Every RPC is reachable over HTTP under its published method and path: a request for that
  method and path whose body decodes to the message is served by exactly one call of the RPC with
  exactly that message, and the response is the translation of its outcome. No route shadows
  another, with or without the documentation routes.
\<close>

theorem gateway_serves_rpc:
  assumes "grpc_gateway G" "gateway_mux G NewClient spec a creds = Inr rs" "NewClient (gw_grpcTarget a) creds = Inr conn"
    and "components req = Some (snd (route_of r))" "hr_Method req = fst (route_of r)"
    and "\<not> overridden req" "\<forall>i. r = RpcRevokeSession i \<longrightarrow> i \<noteq> []"
    and "carries (gl_MarshalerForRequest G req) (hr_Body req) r"
    and "gl_AnnotateContext G req (FullMethodName r) (http_pattern r) = Inr ctx"
  shows "mux_serve G rs req = relay G (NewAuthServiceClient conn) ctx req r"
proof -
  obtain docs where docs: "docs_handlers G spec a = Inr docs" "rs = RegisterAuthServiceHandlerClient G (NewAuthServiceClient conn) @ docs"
    using assms(2,3) by (auto simp: gateway_mux_def RegisterAuthServiceHandlerFromEndpoint_def
        RegisterAuthServiceHandler_def split: sum.splits)
  show ?thesis unfolding docs(2) by (rule grpc_gateway.mux_relays[OF assms(1) docs(1) assms(4-9)])
qed

lemma gateway_one:
  assumes "grpc_gateway G" "gateway_mux G NewClient spec a creds = Inr rs" "NewClient (gw_grpcTarget a) creds = Inr conn"
  shows "snd (run_state (mux_serve G rs req) w) = w \<or>
    (\<exists>r ctx. components req = Some (snd (route_of r)) \<and> carries (gl_MarshalerForRequest G req) (hr_Body req) r
      \<and> mux_serve G rs req = relay G (NewAuthServiceClient conn) ctx req r)"
proof -
  obtain docs where docs: "docs_handlers G spec a = Inr docs" "rs = RegisterAuthServiceHandlerClient G (NewAuthServiceClient conn) @ docs"
    using assms(2,3) by (auto simp: gateway_mux_def RegisterAuthServiceHandlerFromEndpoint_def
        RegisterAuthServiceHandler_def split: sum.splits)
  obtain cs where cs: "components req = Some cs \<or> cs = []"
    "relays_one G (NewAuthServiceClient conn) req cs (mux_serve G rs req)"
    unfolding docs(2) using grpc_gateway.mux_relays_one[OF assms(1) docs(1)] by blast
  have "snd (route_of r) \<noteq> []" for r by (cases r) simp_all
  with cs show ?thesis by (auto simp: relays_one_def State_Monad.return_def)
qed

text \<open>
  Claim C25. One HTTP request calls at most one RPC, once: whatever the request, the gateway either
  answers by itself and changes nothing, or makes one call, of an RPC whose published path is the
  path of the request and whose message the body carries.
\<close>

theorem gateway_calls_at_most_one:
  assumes "grpc_gateway G" "gateway_mux G NewClient spec a creds = Inr rs" "NewClient (gw_grpcTarget a) creds = Inr conn"
  shows "snd (run_state (mux_serve G rs req) w) = w \<or>
    (\<exists>r ctx. components req = Some (snd (route_of r)) \<and> carries (gl_MarshalerForRequest G req) (hr_Body req) r
      \<and> mux_serve G rs req = relay G (NewAuthServiceClient conn) ctx req r)"
  by (rule gateway_one[OF assms])

text \<open>
  The two registrations of the generated code agree: the handlers for a server in the same
  process are those for a remote one whose connection is a direct call of the server, with the
  metadata of an incoming instead of an outgoing call.
\<close>

theorem local_routes_agree:
  "RegisterAuthServiceHandlerServer G server =
     RegisterAuthServiceHandlerClient (G\<lparr>gl_AnnotateContext := gl_AnnotateIncomingContext G\<rparr>) (call_server server)"
proof -
  have join: "\<lparr>HeaderMD = metadata_Join (HeaderMD md) (HeaderMD no_md), TrailerMD = metadata_Join (TrailerMD md) (TrailerMD no_md)\<rparr> = md"
    for md by (cases md) (simp add: metadata_Join_def no_md_def)
  have pp: "path_parameter (G\<lparr>gl_AnnotateContext := gl_AnnotateIncomingContext G\<rparr>) = path_parameter G"
    by (intro ext) (simp add: path_parameter_def split: option.split)
  have serve: "serve_local G server full pat request =
      serve_remote (G\<lparr>gl_AnnotateContext := gl_AnnotateIncomingContext G\<rparr>) (call_server server) full pat request'"
    if "\<And>ctx J req ps. request server ctx G J req ps = request' (call_server server) ctx (G\<lparr>gl_AnnotateContext := gl_AnnotateIncomingContext G\<rparr>) J req ps"
    for full pat request request'
    by (intro ext) (auto simp: serve_local_def serve_remote_def that join Let_def split: sum.split
        intro!: arg_cong[where f = "State_Monad.bind _"])
  show ?thesis
    by (simp add: RegisterAuthServiceHandlerServer_def RegisterAuthServiceHandlerClient_def server_routes client_routes)
      (intro conjI serve; simp add: remote_requests local_requests pp)
qed

section \<open>The server behind its gateway\<close>

text \<open>
  The client connection to the server of this process. A call may fail on the way there or on the way
  back; what is relied on is that it never runs the handler more than once.
\<close>

definition at_most_once :: "'w ClientConn \<Rightarrow> (ctx \<Rightarrow> rpc \<Rightarrow> ('w, 'x) state) \<Rightarrow> bool" where
  "at_most_once cc handler \<longleftrightarrow> (\<forall>ctx r w. let w' = snd (run_state (cc_Invoke cc ctx (FullMethodName r) r) w)
     in w' = w \<or> (\<exists>ctx'. w' = snd (run_state (handler ctx' r) w)))"

text \<open>HTTP requests, and whatever else the server does.\<close>

inductive http_step :: "gwlib \<Rightarrow> 'w route list \<Rightarrow> ('w \<Rightarrow> 'w \<Rightarrow> bool) \<Rightarrow> 'w \<Rightarrow> 'w \<Rightarrow> bool"
  for G rs S where
  Http: "run_state (mux_serve G rs req) w = (resp, w') \<Longrightarrow> http_step G rs S w w'"
| Direct: "S w w' \<Longrightarrow> http_step G rs S w w'"

lemma http_step_calls:
  assumes "grpc_gateway G" "gateway_mux G NewClient spec a creds = Inr rs" "NewClient (gw_grpcTarget a) creds = Inr conn"
    and "at_most_once conn handler" "http_step G rs S w w'"
  shows "w' = w \<or> S w w' \<or> (\<exists>ctx r x. run_state (handler ctx r) w = (x, w'))"
  using assms(5)
proof cases
  case (Http req resp)
  from gateway_one[OF assms(1-3), of req w] consider
      "w' = w" | r ctx where "mux_serve G rs req = relay G (NewAuthServiceClient conn) ctx req r"
    using Http by auto
  then show ?thesis
  proof cases
    case 2
    then have "w' = snd (run_state (cc_Invoke conn ctx (FullMethodName r) r) w)"
      using Http by (simp add: relay_def NewAuthServiceClient_def State_Monad.bind_def State_Monad.return_def case_prod_unfold)
    with assms(4) consider "w' = w" | ctx' where "w' = snd (run_state (handler ctx' r) w)"
      unfolding at_most_once_def Let_def by blast
    then show ?thesis by cases (simp, metis surjective_pairing)
  qed simp
qed simp

text \<open>A property that the server's own steps and its handler keep is kept over HTTP.\<close>

lemma http_steps_keep:
  assumes "grpc_gateway G" "gateway_mux G NewClient spec a creds = Inr rs" "NewClient (gw_grpcTarget a) creds = Inr conn"
    and "at_most_once conn handler" "(http_step G rs S)\<^sup>*\<^sup>* w w'" "P w"
    and "\<And>w w'. P w \<Longrightarrow> S w w' \<Longrightarrow> P w'" "\<And>ctx r w. P w \<Longrightarrow> wp (handler ctx r) (\<lambda>_. P) w"
  shows "P w'"
  using assms(5,6)
proof (induction rule: rtranclp_induct)
  case (step u v)
  from step.IH[OF step.prems] have u: "P u" .
  from http_step_calls[OF assms(1-4) step.hyps(2)] show ?case
  proof (elim disjE exE)
    fix ctx r x assume "run_state (handler ctx r) u = (x, v)"
    with assms(8)[OF u, of ctx r] show ?thesis by (simp add: wp_def)
  qed (use u assms(7) in auto)
qed

text \<open>
  The guarantees of the server extend to its HTTP side: in every state that is reached from
  empty stores by any HTTP requests through the gateway and any direct gRPC calls, the invariant of
  the stores holds, and a refresh token that was dead before is still refused.
\<close>

theorem http_reaches_only_ok:
  assumes "grpc_gateway G" "gateway_mux G NewClient spec a creds = Inr rs" "NewClient (gw_grpcTarget a) creds = Inr conn"
    and "at_most_once conn (grpc_call gl ll (mem_lib d) (mem_service d))"
    and "crypto_ok (d_crypto d)" "supplies_ok (d_crypto d) w0" "fresh_stores w0"
    and "(http_step G rs (server_step d gl ll))\<^sup>*\<^sup>* w0 w" "(http_step G rs (server_step d gl ll))\<^sup>*\<^sup>* w w'"
  shows "mem_ok d w' \<and> (dead (Hash (d_crypto d) t) (vault_of d w) \<longrightarrow>
    wp (RefreshToken (mem_lib d) (mem_service d) ctx \<lparr>rt_RefreshToken = t, rt_DeviceId = dev\<rparr>) (\<lambda>r _. \<exists>e. r = Inl e) w')"
proof -
  have keep: "mem_ok d v \<and> evolves (vault_of d u) (vault_of d v)" if "(http_step G rs (server_step d gl ll))\<^sup>*\<^sup>* u v" "mem_ok d u" for u v
    by (rule http_steps_keep[OF assms(1-4) that(1), where P = "\<lambda>v. mem_ok d v \<and> evolves (vault_of d u) (vault_of d v)"])
      (use that(2) in \<open>auto dest: server_step_ok intro: mem.grpc_call_keeps[THEN wp_mono]\<close>)
  note ok' = keep[OF assms(9) conjunct1[OF keep[OF assms(8) fresh_ok[OF assms(5-7)]]]]
  then show ?thesis
    using mem.dead_refused[OF mem_ok_settled[OF conjunct1[OF ok']]] dead_evolves[OF _ conjunct2[OF ok']] by fastforce
qed

section \<open>The address of an HTTP client\<close>

text \<open>
  How grpc-gateway makes the metadata of a call: the values of a header \<^verbatim>\<open>Grpc-Metadata-K\<close> become values
  of \<open>K\<close>, and after those it adds the forwarded-for list of the request with the address that the
  connection comes from.
\<close>

definition header_values :: "http_request \<Rightarrow> string \<Rightarrow> string list" where
  "header_values req k = concat (map snd (filter (\<lambda>h. fst h = k) (hr_Header req)))"

definition forwarded_list :: "http_request \<Rightarrow> string \<Rightarrow> string" where
  "forwarded_list req host = (case header_values req ''X-Forwarded-For'' of
       [] \<Rightarrow> host
     | fwd # _ \<Rightarrow> if fwd = [] then host else fwd @ '', '' @ host)"

locale gateway_headers = grpc_gateway +
  assumes forwarded: "gl_AnnotateContext G req m p = Inr ctx \<Longrightarrow> SplitHostPort (hr_RemoteAddr req) = Some (host, port) \<Longrightarrow>
    \<exists>md. metadata ctx = Some md \<and>
      md ''x-forwarded-for'' = header_values req ''Grpc-Metadata-X-Forwarded-For'' @ [forwarded_list req host]"
begin

lemma client_address:
  assumes "gl_AnnotateContext G req m p = Inr ctx" "SplitHostPort (hr_RemoteAddr req) = Some (host, port)"
    and "TrimSpace host = host" "host \<noteq> []" "CHR '','' \<notin> set host"
  shows "extractIP ctx = (case header_values req ''Grpc-Metadata-X-Forwarded-For'' of
      [] \<Rightarrow> host | v # _ \<Rightarrow> (case rightmost_ip v of Some ip \<Rightarrow> ip | None \<Rightarrow> peerIP ctx))"
proof -
  have "TrimSpace ('' '' @ host) = host" using assms(3) by (simp add: TrimSpace_blank)
  then have "rightmost_ip (fwd @ '', '' @ host) = Some host" for fwd
    using rightmost_ip_last[of "'' '' @ host" fwd] assms(4,5) by simp
  moreover have "rightmost_ip host = Some host"
    using assms(3-5) by (simp add: rightmost_ip_def Split_no_sep Let_def)
  ultimately have "rightmost_ip (forwarded_list req host) = Some host"
    by (simp add: forwarded_list_def split: list.split)
  with forwarded[OF assms(1,2)] show ?thesis
    by (auto simp: extractIP_def md_Get_def split: list.split)
qed

end

text \<open>
  Claim C33. The address an HTTP client is rate limited under is the one its connection comes from,
  whatever forwarded-for list it sends, as long as it does not send \<^verbatim>\<open>Grpc-Metadata-X-Forwarded-For\<close>.
  With that header it is the address the client chose: the gateway puts the client's value in front of
  its own and \<^verbatim>\<open>extractIP\<close> reads the first value only, although its comment says that the entry it reads
  cannot be forged.
\<close>

theorem forwarded_for_forged:
  assumes "gateway_headers G" "gl_AnnotateContext G req m p = Inr ctx"
    and "SplitHostPort (hr_RemoteAddr req) = Some (host, port)"
    and "TrimSpace host = host" "host \<noteq> []" "CHR '','' \<notin> set host"
    and "TrimSpace chosen = chosen" "chosen \<noteq> []" "CHR '','' \<notin> set chosen"
  shows "(header_values req ''Grpc-Metadata-X-Forwarded-For'' = [] \<longrightarrow> extractIP ctx = host) \<and>
    (header_values req ''Grpc-Metadata-X-Forwarded-For'' = [chosen] \<longrightarrow> extractIP ctx = chosen)"
  using gateway_headers.client_address[OF assms(1-6)] assms(7-9)
  by (auto simp: rightmost_ip_def Split_no_sep Let_def)

section \<open>A gateway that computes\<close>

text \<open>An instance of the library, which the witnesses below run.\<close>

definition ref_match :: "pattern \<Rightarrow> string list \<Rightarrow> (string \<rightharpoonup> string) option" where
  "ref_match p cs =
     (if p = literal_pattern (pt_pool p) then (if cs = pt_pool p then Some Map.empty else None)
      else if pt_pool p \<noteq> [] \<and> p = capture_pattern (butlast (pt_pool p)) (last (pt_pool p))
        \<and> cs \<noteq> [] \<and> butlast cs = butlast (pt_pool p)
      then Some [last (pt_pool p) \<mapsto> last cs] else None)"

definition ref_ServeHTTP :: "(string \<times> pattern) list \<Rightarrow> http_request \<Rightarrow> http_response + nat \<times> (string \<rightharpoonup> string)" where
  "ref_ServeHTTP rs req = (case components req of
       None \<Rightarrow> Inl \<lparr>rs_Code = 400, rs_ContentType = [], rs_Body = []\<rparr>
     | Some cs \<Rightarrow>
         (case filter (\<lambda>i. fst (rs ! i) = hr_Method req \<and> ref_match (snd (rs ! i)) cs \<noteq> None) [0..<length rs] of
            [] \<Rightarrow> Inl \<lparr>rs_Code = 404, rs_ContentType = [], rs_Body = []\<rparr>
          | i # _ \<Rightarrow> Inr (i, the (ref_match (snd (rs ! i)) cs))))"

definition ref_metadata :: "http_request \<Rightarrow> string \<Rightarrow> string list" where
  "ref_metadata req k =
     (if k = ''authorization'' then header_values req ''Authorization''
      else if k = ''x-forwarded-for'' then header_values req ''Grpc-Metadata-X-Forwarded-For'' @
        (case SplitHostPort (hr_RemoteAddr req) of None \<Rightarrow> [] | Some (host, _) \<Rightarrow> [forwarded_list req host])
      else [])"

text \<open>A codec for requests of one field: the body is the field.\<close>

definition ref_marshaler :: marshaler where
  "ref_marshaler = (let field = (\<lambda>b. if b = [] then AtEOF [] else Decoded b) in
     \<lparr>mj_Register = (\<lambda>_. DecodeFailed ''syntax error''), mj_Login = (\<lambda>_. DecodeFailed ''syntax error''), mj_ValidateToken = field, mj_RefreshToken = (\<lambda>_. DecodeFailed ''syntax error''), mj_Logout = field,
      mj_LogoutAll = (\<lambda>_. AtEOF ()), mj_ChangePassword = (\<lambda>_. DecodeFailed ''syntax error''), mj_RequestPasswordReset = field,
      mj_VerifyResetCode = (\<lambda>_. DecodeFailed ''syntax error''), mj_ResetPassword = (\<lambda>_. DecodeFailed ''syntax error'')\<rparr>)"

definition ref_gateway :: gwlib where
  "ref_gateway = \<lparr>gl_MarshalerForRequest = (\<lambda>_. ref_marshaler),
     gl_AnnotateContext = (\<lambda>req _ _. Inr \<lparr>metadata = Some (ref_metadata req), peer = Some ''127.0.0.1:9''\<rparr>),
     gl_AnnotateIncomingContext = (\<lambda>req _ _. Inr \<lparr>metadata = Some (ref_metadata req), peer = None\<rparr>),
     gl_String = Inr,
     gl_HTTPError = (\<lambda>_ _ err. \<lparr>rs_Code = (case err of StatusErr c _ \<Rightarrow> http_status c | TransportErr _ \<Rightarrow> 503), rs_ContentType = [], rs_Body = []\<rparr>),
     gl_ForwardResponseMessage = (\<lambda>_ _ _. \<lparr>rs_Code = 200, rs_ContentType = [], rs_Body = []\<rparr>),
     gl_Match = ref_match,
     gl_Parse = (\<lambda>s. case s of [] \<Rightarrow> Inl ''no leading /'' | _ # t \<Rightarrow> Inr (literal_pattern (Split t (CHR ''/'')))),
     gl_ServeHTTP = ref_ServeHTTP\<rparr>"

lemma literal_ops_length [simp]: "length (literal_ops n) = 2 * n"
  by (induction n) (simp_all add: literal_ops_def)

lemma capture_not_literal: "capture_pattern pool name \<noteq> literal_pattern pool'"
proof
  assume "capture_pattern pool name = literal_pattern pool'"
  then have "pt_ops (capture_pattern pool name) = pt_ops (literal_pattern pool')" "pt_pool (capture_pattern pool name) = pt_pool (literal_pattern pool')"
    by simp_all
  then have "length (literal_ops (length pool) @ [1, 0, 4, 1, 5, int (length pool)]) = length (literal_ops (length pool'))" "pool @ [name] = pool'"
    by (simp_all only: capture_pattern_def literal_pattern_def pattern.simps)
  then show False by auto
qed

lemma ref_match_literal: "ref_match (literal_pattern pool) cs = (if cs = pool then Some Map.empty else None)"
proof -
  have "pt_pool (literal_pattern pool) = pool" by (simp add: literal_pattern_def)
  then show ?thesis by (simp add: ref_match_def)
qed

lemma ref_match_capture:
  "ref_match (capture_pattern pool name) cs = (if cs \<noteq> [] \<and> butlast cs = pool then Some [name \<mapsto> last cs] else None)"
proof -
  have "pt_pool (capture_pattern pool name) = pool @ [name]" by (simp add: capture_pattern_def)
  then show ?thesis by (simp add: ref_match_def capture_not_literal)
qed

lemma filter_head: "filter P xs = x # ys \<Longrightarrow> x \<in> set xs \<and> P x"
  by (drule arg_cong[of _ _ set]) auto

lemma ref_ServeHTTP_only:
  assumes "components req = Some cs" "i < length rs" "fst (rs ! i) = hr_Method req" "ref_match (snd (rs ! i)) cs = Some ps"
    and "\<And>j. j < length rs \<Longrightarrow> fst (rs ! j) = hr_Method req \<Longrightarrow> ref_match (snd (rs ! j)) cs \<noteq> None \<Longrightarrow> j = i"
  shows "ref_ServeHTTP rs req = Inr (i, ps)"
proof -
  let ?is = "filter (\<lambda>i. fst (rs ! i) = hr_Method req \<and> ref_match (snd (rs ! i)) cs \<noteq> None) [0..<length rs]"
  have "?is \<noteq> []" using assms(2-4) by (auto simp: filter_empty_conv)
  then obtain k ks where k: "?is = k # ks" by (cases ?is) simp_all
  with filter_head[OF k] have "k = i" by (intro assms(5)) auto
  with k assms(1,4) show ?thesis by (simp add: ref_ServeHTTP_def)
qed

interpretation rg: gateway_headers ref_gateway
proof
  show "gl_Match ref_gateway (literal_pattern pool) cs = (if cs = pool then Some Map.empty else None)" for pool cs
    by (simp add: ref_gateway_def ref_match_literal)
  show "gl_Match ref_gateway (capture_pattern pool name) (pool @ [x]) = Some [name \<mapsto> x]" for pool name x
    by (simp add: ref_gateway_def ref_match_capture)
  show "\<exists>x. cs = pool @ [x] \<and> ps = [name \<mapsto> x]" if "gl_Match ref_gateway (capture_pattern pool name) cs = Some ps" for pool name cs ps
    using that by (auto simp: ref_gateway_def ref_match_capture split: if_splits intro!: exI[of _ "last cs"])
  show "p = literal_pattern (Split s (CHR ''/''))" if "gl_Parse ref_gateway (CHR ''/'' # s) = Inr p" for s p
    using that by (simp add: ref_gateway_def)
  show "i < length rs \<and> (\<exists>cs. components req = Some cs \<and> gl_Match ref_gateway (snd (rs ! i)) cs = Some ps)
      \<and> (fst (rs ! i) = hr_Method req \<or> hr_Method req = ''POST'')"
    if "gl_ServeHTTP ref_gateway rs req = Inr (i, ps)" for rs req i ps
    using that by (auto simp: ref_gateway_def ref_ServeHTTP_def split: option.splits list.splits dest!: filter_head)
  show "gl_ServeHTTP ref_gateway rs req = Inr (i, ps)"
    if "components req = Some cs" "i < length rs" "fst (rs ! i) = hr_Method req" "gl_Match ref_gateway (snd (rs ! i)) cs = Some ps"
      "\<And>j. j < length rs \<Longrightarrow> fst (rs ! j) = hr_Method req \<Longrightarrow> gl_Match ref_gateway (snd (rs ! j)) cs \<noteq> None \<Longrightarrow> j = i"
    for req cs i ps and rs :: "(string \<times> pattern) list"
    using ref_ServeHTTP_only[OF that(1-3)] that(4,5) by (simp add: ref_gateway_def)
  show "gl_String ref_gateway s = Inr s" for s by (simp add: ref_gateway_def)
  show "rs_Code (gl_HTTPError ref_gateway md req (StatusErr c msg)) = http_status c" for md req c msg by (simp add: ref_gateway_def)
  show "rs_Code (gl_ForwardResponseMessage ref_gateway md req resp) = 200" for md req resp by (simp add: ref_gateway_def)
  show "\<exists>md. metadata ctx = Some md \<and>
      md ''x-forwarded-for'' = header_values req ''Grpc-Metadata-X-Forwarded-For'' @ [forwarded_list req host]"
    if "gl_AnnotateContext ref_gateway req m p = Inr ctx" "SplitHostPort (hr_RemoteAddr req) = Some (host, port)" for req m p ctx host port
    using that by (auto simp: ref_gateway_def ref_metadata_def)
qed

definition demo_app_gateway :: gateway_app where
  "demo_app_gateway = gateway_New 8080 8081 [] [] ''local''"

definition http_logout :: http_request where
  "http_logout = \<lparr>hr_Method = ''POST'', hr_Path = ''/v1/auth/logout'',
     hr_Header = [(''Grpc-Metadata-X-Forwarded-For'', [''8.8.8.8''])], hr_RemoteAddr = ''203.0.113.9:4711'', hr_Body = ''tok''\<rparr>"

definition counting_conn :: "nat ClientConn" where
  "counting_conn = \<lparr>cc_Invoke = (\<lambda>_ _ _. State (\<lambda>n. ((Inr ReplyEmpty, no_md), n + 1)))\<rparr>"

definition ref_routes :: "gwlib \<Rightarrow> 'w ClientConn \<Rightarrow> 'w route list" where
  "ref_routes G conn = RegisterAuthServiceHandlerClient G (NewAuthServiceClient conn) @
     [(''GET'', literal_pattern [''openapi.json''], serve_spec ''{}''), (''GET'', literal_pattern [''docs''], serve_docs)]"

lemma ref_mux: "gateway_mux ref_gateway (\<lambda>_ _. Inr conn) ''{}'' demo_app_gateway InsecureCreds = Inr (ref_routes ref_gateway conn)"
  by (simp add: gateway_mux_def RegisterAuthServiceHandlerFromEndpoint_def RegisterAuthServiceHandler_def docs_handlers_def
      ref_routes_def demo_app_gateway_def gateway_New_def ref_gateway_def)

theorem gateway_serves_rpc_witness:
  "run_state (mux_serve ref_gateway (ref_routes ref_gateway counting_conn) http_logout) 0 =
     (\<lparr>rs_Code = 200, rs_ContentType = [], rs_Body = []\<rparr>, 1)"
proof -
  have "mux_serve ref_gateway (ref_routes ref_gateway counting_conn) http_logout =
    relay ref_gateway (NewAuthServiceClient counting_conn) \<lparr>metadata = Some (ref_metadata http_logout), peer = Some ''127.0.0.1:9''\<rparr>
      http_logout (RpcLogout ''tok'')"
    by (rule gateway_serves_rpc[OF rg.grpc_gateway_axioms ref_mux])
      (simp_all add: components_def http_logout_def overridden_def ref_gateway_def ref_marshaler_def Let_def)
  then show ?thesis
    by (simp add: relay_def NewAuthServiceClient_def counting_conn_def State_Monad.bind_def State_Monad.return_def ref_gateway_def)
qed

theorem gateway_calls_at_most_one_witness:
  "snd (run_state (mux_serve ref_gateway (ref_routes ref_gateway counting_conn) (http_logout\<lparr>hr_Path := ''/docs''\<rparr>)) 0) = 0"
proof -
  let ?req = "http_logout\<lparr>hr_Path := ''/docs''\<rparr>"
  have "components ?req \<noteq> Some (snd (route_of r))" for r
    by (cases r) (simp_all add: components_def http_logout_def)
  then show ?thesis
    using gateway_calls_at_most_one[OF rg.grpc_gateway_axioms ref_mux[of counting_conn] refl, of ?req 0] by auto
qed

theorem forwarded_for_forged_witness:
  "extractIP \<lparr>metadata = Some (ref_metadata http_logout), peer = Some ''127.0.0.1:9''\<rparr> = ''8.8.8.8''"
proof -
  have "SplitHostPort (hr_RemoteAddr http_logout) = Some (''203.0.113.9'', ''4711'')"
    using SplitHostPort_plain[of "''203.0.113.9''" "''4711''"] by (simp add: http_logout_def)
  from forwarded_for_forged[OF rg.gateway_headers_axioms _ this, of "[]" "[]" _ "''8.8.8.8''"] show ?thesis
    by (simp add: TrimSpace_graphic graphic_def ref_gateway_def header_values_def http_logout_def)
qed

definition local_conn :: "(ctx \<Rightarrow> rpc \<Rightarrow> ('w, (rpc_error + rpc_reply) \<times> 'l) state) \<Rightarrow> 'w ClientConn" where
  "local_conn handler = \<lparr>cc_Invoke = (\<lambda>ctx _ r. do {
     (x, line) \<leftarrow> handler ctx r;
     ret (case x of
        Inl (Status c msg) \<Rightarrow> Inl (StatusErr c msg)
      | Inl (GoPanic err) \<Rightarrow> Inl (TransportErr ''connection closed'')
      | Inr resp \<Rightarrow> Inr resp, no_md) })\<rparr>"

lemma local_conn_once: "at_most_once (local_conn handler) handler"
  by (auto simp: at_most_once_def local_conn_def Let_def State_Monad.bind_def State_Monad.return_def case_prod_unfold)

theorem http_reaches_only_ok_witness:
  "mem_ok fresh_deployment (snd (run_state (mux_serve ref_gateway (ref_routes ref_gateway (local_conn
     (grpc_call (NewLimiter ref_redis 300 minute) (NewLimiter ref_redis 20 minute) (mem_lib fresh_deployment) (mem_service fresh_deployment))))
     http_logout) fresh_demo))"
proof -
  let ?gl = "NewLimiter ref_redis 300 minute" and ?ll = "NewLimiter ref_redis 20 minute"
  let ?conn = "local_conn (grpc_call ?gl ?ll (mem_lib fresh_deployment) (mem_service fresh_deployment))"
  let ?rs = "ref_routes ref_gateway ?conn"
  have step: "http_step ref_gateway ?rs (server_step fresh_deployment ?gl ?ll) fresh_demo (snd (run_state (mux_serve ref_gateway ?rs http_logout) fresh_demo))"
    by (rule http_step.Http, rule surjective_pairing)
  have c: "crypto_ok (d_crypto fresh_deployment)" "supplies_ok (d_crypto fresh_deployment) fresh_demo"
    using demo_crypto_ok fresh_demo_ok by (simp_all add: fresh_deployment_def)
  show ?thesis
    by (rule conjunct1[OF http_reaches_only_ok[OF rg.grpc_gateway_axioms ref_mux refl local_conn_once c fresh_demo_ok(2)
        rtranclp.rtrancl_refl r_into_rtranclp[of "http_step ref_gateway ?rs (server_step fresh_deployment ?gl ?ll)", OF step]]])
qed
end
