(* ===== verification/Logger.thy ===== *)
theory Logger
  imports Domain
begin

text \<open>
  \<^verbatim>\<open>internal/lib/logger/handlers/slogpretty\<close> and \<^verbatim>\<open>setupLogger\<close> of \<^verbatim>\<open>cmd/auth-service\<close>: the log handler for
  local use and the choice of the handler by environment. The terminal colours and the JSON encoder
  are parameters.
\<close>

section \<open>Levels and clock times\<close>

definition LevelDebug :: int where "LevelDebug = -4"
definition LevelInfo :: int where "LevelInfo = 0"
definition LevelWarn :: int where "LevelWarn = 4"
definition LevelError :: int where "LevelError = 8"

text \<open>\<^verbatim>\<open>Level.String\<close>: the name of the next lower named level, with the distance to it.\<close>

definition level_String :: "int \<Rightarrow> string" where
  "level_String l =
     (let str = (\<lambda>base d. if d = 0 then base else base @ (if 0 < d then ''+'' else []) @ itoa_int d)
      in if l < LevelInfo then str ''DEBUG'' (l - LevelDebug)
         else if l < LevelWarn then str ''INFO'' (l - LevelInfo)
         else if l < LevelError then str ''WARN'' (l - LevelWarn)
         else str ''ERROR'' (l - LevelError))"

text \<open>
  \<^verbatim>\<open>Time.Format\<close> on the layout elements that the handler uses or could mean: \<^verbatim>\<open>15\<close> the hour, \<^verbatim>\<open>04\<close> the minute,
  \<^verbatim>\<open>05\<close> the second, \<^verbatim>\<open>.000\<close> the milliseconds; other characters stand for themselves. The time is local:
  nanoseconds with the offset of the zone added.
\<close>

definition digits :: "nat \<Rightarrow> nat \<Rightarrow> string" where
  "digits k n = (let s = itoa n in replicate (k - length s) (CHR ''0'') @ s)"

definition clock_hour :: "int \<Rightarrow> nat" where "clock_hour t = nat (t div 3600000000000 mod 24)"
definition clock_minute :: "int \<Rightarrow> nat" where "clock_minute t = nat (t div 60000000000 mod 60)"
definition clock_second :: "int \<Rightarrow> nat" where "clock_second t = nat (t div 1000000000 mod 60)"
definition clock_milli :: "int \<Rightarrow> nat" where "clock_milli t = nat (t div 1000000 mod 1000)"

fun time_Format :: "string \<Rightarrow> int \<Rightarrow> string" where
  "time_Format (a # b # cs) t =
     (if a = CHR ''1'' \<and> b = CHR ''5'' then digits 2 (clock_hour t) @ time_Format cs t
      else if a = CHR ''0'' \<and> b = CHR ''4'' then digits 2 (clock_minute t) @ time_Format cs t
      else if a = CHR ''0'' \<and> b = CHR ''5'' then digits 2 (clock_second t) @ time_Format cs t
      else if a = CHR ''.'' \<and> b = CHR ''0'' \<and> take 2 cs = ''00'' then CHR ''.'' # digits 3 (clock_milli t) @ time_Format (drop 2 cs) t
      else a # time_Format (b # cs) t)"
| "time_Format cs t = cs"

section \<open>The handler\<close>

datatype colour = Magenta | Blue | Yellow | Red | Cyan | White

record 'v slog_Record =
  sr_Time :: int
  sr_Level :: int
  sr_Message :: string
  sr_Attrs :: "(string \<times> 'v) list"

text \<open>The embedded JSON handler is kept as the list of its groups; \<^verbatim>\<open>Handle\<close> does not use it.\<close>

record 'v PrettyHandler =
  ph_groups :: "string list"
  ph_attrs :: "(string \<times> 'v) list"

definition NewPrettyHandler :: "'v PrettyHandler" where
  "NewPrettyHandler = \<lparr>ph_groups = [], ph_attrs = []\<rparr>"

definition put_fields :: "(string \<times> 'v) list \<Rightarrow> (string \<rightharpoonup> 'v) \<Rightarrow> string \<rightharpoonup> 'v" where
  "put_fields attrs m = fold (\<lambda>(k, v) m. m(k \<mapsto> v)) attrs m"

definition level_colour :: "(colour \<Rightarrow> string \<Rightarrow> string) \<Rightarrow> int \<Rightarrow> string" where
  "level_colour col l =
     (let level = level_String l @ '':''
      in if l = LevelDebug then col Magenta level
         else if l = LevelInfo then col Blue level
         else if l = LevelWarn then col Yellow level
         else if l = LevelError then col Red level
         else level)"

text \<open>\<^verbatim>\<open>Handle\<close>: the error of the JSON encoder, or the line that is printed.\<close>

definition Handle ::
  "(colour \<Rightarrow> string \<Rightarrow> string) \<Rightarrow> ((string \<rightharpoonup> 'v) \<Rightarrow> string + string) \<Rightarrow> 'v PrettyHandler \<Rightarrow> 'v slog_Record \<Rightarrow> string + string" where
  "Handle col MarshalIndent h r =
     (let level = level_colour col (sr_Level r);
          fs = put_fields (ph_attrs h) (put_fields (sr_Attrs r) Map.empty);
          b = (if fs \<noteq> Map.empty then MarshalIndent fs else Inr [])
      in (case b of
            Inl err \<Rightarrow> Inl err
          | Inr json \<Rightarrow>
              (let timeStr = time_Format ''[15:05:05.000]'' (sr_Time r);
                   msg = col Cyan (sr_Message r)
               in Inr (timeStr @ '' '' @ level @ '' '' @ msg @ '' '' @ col White json @ [CHR 0x0A]))))"

definition WithAttrs :: "'v PrettyHandler \<Rightarrow> (string \<times> 'v) list \<Rightarrow> 'v PrettyHandler" where
  "WithAttrs h attrs = \<lparr>ph_groups = ph_groups h, ph_attrs = attrs\<rparr>"

definition WithGroup :: "'v PrettyHandler \<Rightarrow> string \<Rightarrow> 'v PrettyHandler" where
  "WithGroup h name = \<lparr>ph_groups = ph_groups h @ [name], ph_attrs = []\<rparr>"

section \<open>The logger of the process\<close>

datatype 'v logger = PrettyLogger "'v PrettyHandler" int | JSONLogger int

definition setupPrettySlog :: "'v logger" where
  "setupPrettySlog = PrettyLogger NewPrettyHandler LevelDebug"

text \<open>\<^const>\<open>None\<close> is the exit of the process with status 1.\<close>

definition setupLogger :: "string \<Rightarrow> 'v logger option" where
  "setupLogger env =
     (if env = ''local'' then Some setupPrettySlog
      else if env = ''dev'' then Some (JSONLogger LevelDebug)
      else if env = ''prod'' then Some (JSONLogger LevelInfo)
      else None)"

section \<open>Properties\<close>

lemma put_fields_map_of: "put_fields attrs m = m ++ map_of (rev attrs)"
  unfolding put_fields_def
  by (induction attrs arbitrary: m) (auto simp: map_add_def fun_eq_iff split: option.split)

lemma clock_shift:
  "clock_second (t + 60000000000 * k) = clock_second t" "clock_milli (t + 60000000000 * k) = clock_milli t"
proof -
  have "(t + 60000000000 * k) div 1000000000 = t div 1000000000 + 60 * k"
    using div_mult_self2[of "1000000000::int" t "60 * k"] by (simp add: algebra_simps)
  then show "clock_second (t + 60000000000 * k) = clock_second t" by (simp add: clock_second_def mod_mult_self2)
  have "(t + 60000000000 * k) div 1000000 = t div 1000000 + 1000 * (60 * k)"
    using div_mult_self2[of "1000000::int" t "60000 * k"] by (simp add: algebra_simps)
  then show "clock_milli (t + 60000000000 * k) = clock_milli t" unfolding clock_milli_def by (simp only: mod_mult_self2)
qed

text \<open>
  What the development log drops. Two records that differ only in the minute of the hour
  print the same line: the layout says \<^verbatim>\<open>05\<close>, the second, where the minute belongs. A second
  \<^verbatim>\<open>WithAttrs\<close> replaces the attributes of the first, where the contract of the log package asks for both.
\<close>

theorem pretty_log_drops:
  "(clock_hour t = clock_hour (t + 60000000000 * k) \<longrightarrow>
      Handle col enc h \<lparr>sr_Time = t, sr_Level = l, sr_Message = msg, sr_Attrs = as\<rparr> =
      Handle col enc h \<lparr>sr_Time = t + 60000000000 * k, sr_Level = l, sr_Message = msg, sr_Attrs = as\<rparr>)
   \<and> WithAttrs (WithAttrs h xs) ys = WithAttrs h ys"
  by (auto simp: Handle_def Let_def clock_shift WithAttrs_def split: sum.split)

theorem pretty_log_drops_witness:
  "Handle (\<lambda>_ s. s) (\<lambda>_. Inr []) NewPrettyHandler \<lparr>sr_Time = 0, sr_Level = 0, sr_Message = ''hi'', sr_Attrs = ([] :: (string \<times> string) list)\<rparr> =
   Handle (\<lambda>_ s. s) (\<lambda>_. Inr []) NewPrettyHandler
     \<lparr>sr_Time = 0 + 60000000000 * 7, sr_Level = 0, sr_Message = ''hi'', sr_Attrs = ([] :: (string \<times> string) list)\<rparr>"
  by (rule conjunct1[OF pretty_log_drops, THEN mp]) (simp add: clock_hour_def)

end
