(* ===== verification/Process.thy ===== *)
theory Process
  imports Gateway Logger
begin

text \<open>
  \<^verbatim>\<open>cmd/auth-service\<close>, \<^verbatim>\<open>cmd/migrator\<close>, \<^verbatim>\<open>internal/app/grpc\<close>, the connections of \<^verbatim>\<open>internal/postgres\<close> and
  \<^verbatim>\<open>internal/redis\<close>, and \<^verbatim>\<open>Stop\<close> of the gateway: how the process starts, runs its two servers and shuts
  down. The start is a function of what the environment answers; the running process is a step
  relation over the main goroutine, the goroutines of the two servers and the channels between them.
\<close>

section \<open>Configuration and connections\<close>

record DbConfig =
  db_Username :: string
  db_Password :: string
  db_Host :: string
  db_Port :: string
  db_DbName :: string

record RedConfig =
  rc_Host :: string
  rc_Port :: int
  rc_Password :: string

record GRPCConfig =
  gc_Port :: int
  gc_Timeout :: duration

record Config =
  c_Env :: string
  c_GRPC :: GRPCConfig
  c_Gateway :: GatewayConfig
  c_JWT :: JWTConfig
  c_Security :: SecurityConfig
  c_Redis :: RedConfig
  c_DB :: DbConfig

definition dsn :: "DbConfig \<Rightarrow> string" where
  "dsn cfg = ''postgres://'' @ db_Username cfg @ '':'' @ db_Password cfg @ ''@'' @ db_Host cfg @ '':'' @ db_Port cfg
     @ ''/'' @ db_DbName cfg @ ''?sslmode=disable''"

text \<open>The drivers: opening gives a handle or an error, a ping an error or nothing.\<close>

record ('p, 'c) drivers =
  dr_pgxpool_New :: "string \<Rightarrow> string + 'p"
  dr_pool_Ping :: "'p \<Rightarrow> string option"
  dr_redis_NewClient :: "string \<Rightarrow> string \<Rightarrow> int \<Rightarrow> 'c"
  dr_redis_Ping :: "'c \<Rightarrow> string option"

definition postgres_New :: "('p, 'c) drivers \<Rightarrow> DbConfig \<Rightarrow> string + 'p" where
  "postgres_New D cfg =
     (case dr_pgxpool_New D (dsn cfg) of
        Inl err \<Rightarrow> Inl err
      | Inr pool \<Rightarrow> (case dr_pool_Ping D pool of Some err \<Rightarrow> Inl err | None \<Rightarrow> Inr pool))"

definition redis_New :: "('p, 'c) drivers \<Rightarrow> RedConfig \<Rightarrow> string + 'c" where
  "redis_New D cfg =
     (let client = dr_redis_NewClient D (rc_Host cfg @ '':'' @ itoa_int (rc_Port cfg)) (rc_Password cfg) 0
      in (case dr_redis_Ping D client of
            Some err \<Rightarrow> Inl (''failed to connect to redis: '' @ err)
          | None \<Rightarrow> Inr client))"

section \<open>Migrations\<close>

text \<open>
  \<^verbatim>\<open>cmd/migrator\<close> over a database \<open>'d\<close>: the library runs the migrations up or down and reports
  \<^verbatim>\<open>ErrNoChange\<close> when there was nothing to do.
\<close>

datatype migrate_error = ErrNoChange | MigrateErr string

record 'd migrate_lib =
  mg_New :: "string \<Rightarrow> string \<Rightarrow> string option"
  mg_Up :: "'d \<Rightarrow> migrate_error option \<times> 'd"
  mg_Down :: "'d \<Rightarrow> migrate_error option \<times> 'd"

datatype migrator_end = Migrated string | Fatal string

definition run_migration :: "string \<Rightarrow> string \<Rightarrow> migrate_error option \<times> 'd \<Rightarrow> migrator_end \<times> 'd" where
  "run_migration done failed r = (case r of
       (Some (MigrateErr err), d) \<Rightarrow> (Fatal (failed @ err), d)
     | (Some ErrNoChange, d) \<Rightarrow> (Migrated done, d)
     | (None, d) \<Rightarrow> (Migrated done, d))"

definition migrator_main :: "'d migrate_lib \<Rightarrow> string + DbConfig \<Rightarrow> string \<Rightarrow> string \<Rightarrow> 'd \<Rightarrow> migrator_end \<times> 'd" where
  "migrator_main M env migrationPath command d = (case env of
       Inl err \<Rightarrow> (Fatal (''couldn't read the configuration: '' @ err), d)
     | Inr cfg \<Rightarrow>
         (case mg_New M (''file://'' @ migrationPath) (dsn cfg) of
            Some err \<Rightarrow> (Fatal (''failed to initialize migrations: '' @ err), d)
          | None \<Rightarrow>
              if command = ''up'' then
                run_migration (bytes_of [226, 156, 133] @ '' migrations successfully applied!'') ''failed to run migrations: '' (mg_Up M d)
              else if command = ''down'' then
                run_migration (bytes_of [226, 156, 133] @ '' migrations successfully rolled back!'') ''failed to rollback migrations: '' (mg_Down M d)
              else (Fatal (''unknown command: '' @ command @ ''. Use 'up' or 'down'' @ [CHR 0x27]), d)))"
section \<open>Start\<close>

text \<open>
  What surrounds the process: the environment variables, the drivers, and the libraries behind the
  clients. \<^verbatim>\<open>os.Exit\<close> runs no deferred call; a panic of \<^verbatim>\<open>app.New\<close> runs them on its way out.
\<close>

record ('p, 'c, 'r) host =
  ho_ReadEnv :: "string + Config"
  ho_drivers :: "('p, 'c) drivers"
  ho_backends :: "'p \<Rightarrow> 'c \<Rightarrow> 'r backends"

datatype resource_event = RedisOpened | DBOpened | DBClosed | RedisClosed

datatype 'r start = Exited nat | Panicked | Running "'r App"

definition MustLoad :: "string + Config \<Rightarrow> Config option" where
  "MustLoad env = (case env of Inl err \<Rightarrow> None | Inr cfg \<Rightarrow> Some cfg)"

definition main_start :: "('p, 'c, 'r) host \<Rightarrow> resource_event list \<times> 'r start" where
  "main_start H = (case MustLoad (ho_ReadEnv H) of
       None \<Rightarrow> ([], Exited 1)
     | Some cfg \<Rightarrow>
     (case (setupLogger (c_Env cfg) :: string logger option) of
        None \<Rightarrow> ([], Exited 1)
      | Some log \<Rightarrow>
     (case redis_New (ho_drivers H) (c_Redis cfg) of
        Inl err \<Rightarrow> ([], Exited 1)
      | Inr redisClient \<Rightarrow>
     (case postgres_New (ho_drivers H) (c_DB cfg) of
        Inl err \<Rightarrow> ([RedisOpened], Exited 1)
      | Inr db \<Rightarrow>
     (case app_New (ho_backends H db redisClient) (gc_Port (c_GRPC cfg)) (cfg_GatewayPort (c_Gateway cfg))
             (c_JWT cfg) (c_Security cfg) (c_Gateway cfg) (c_Env cfg) of
        None \<Rightarrow> ([RedisOpened, DBOpened, DBClosed, RedisClosed], Panicked)
      | Some (Inl err) \<Rightarrow> ([RedisOpened, DBOpened], Exited 1)
      | Some (Inr application) \<Rightarrow> ([RedisOpened, DBOpened], Running application))))))"

section \<open>The running process\<close>

text \<open>
  The goroutine of a server: started, setting up, serving, about to send its error to the channel,
  finished. The main goroutine: waiting in \<^verbatim>\<open>select\<close>, then the calls of the shutdown one after the other.
  \<open>pr_serverErr\<close> is the error channel (capacity 2), \<open>pr_stop\<close> the signal channel (capacity 1).
\<close>

datatype goroutine = Starting | SettingUp | Serving | Sending string | Finished

datatype main_pc = Selecting | StoppingGateway | StoppingGrpc | Draining | Returning | Done

datatype stop_cause = BySignal string | ByServerErr string

datatype proc_event = Shutdown_begins stop_cause | Gateway_stopped | Grpc_stopped | DB_closed | Redis_closed

record proc =
  pr_main :: main_pc
  pr_grpc :: goroutine
  pr_gateway :: goroutine
  pr_serverErr :: "string list"
  pr_stop :: "string option"
  pr_cancelGW :: bool
  pr_server :: bool
  pr_gwCancelled :: bool
  pr_gwShutdown :: bool
  pr_grpcStopping :: bool
  pr_inflight :: nat
  pr_trace :: "proc_event list"

definition proc_init :: proc where
  "proc_init = \<lparr>pr_main = Selecting, pr_grpc = Starting, pr_gateway = Starting, pr_serverErr = [], pr_stop = None,
     pr_cancelGW = False, pr_server = False, pr_gwCancelled = False, pr_gwShutdown = False,
     pr_grpcStopping = False, pr_inflight = 0, pr_trace = []\<rparr>"

definition serverErr_cap :: nat where "serverErr_cap = 2"

text \<open>The goroutine of the gRPC server: \<^verbatim>\<open>Run\<close> listens and serves, and its error goes to the channel.\<close>

inductive grpc_run_step :: "proc \<Rightarrow> proc \<Rightarrow> bool" where
  Grpc_listen: "pr_grpc p = Starting \<Longrightarrow> grpc_run_step p (p\<lparr>pr_grpc := Serving\<rparr>)"
| Grpc_listen_err: "pr_grpc p = Starting \<Longrightarrow> grpc_run_step p (p\<lparr>pr_grpc := Sending (''grpc: grpcapp.run: '' @ err)\<rparr>)"
| Grpc_serve_err: "pr_grpc p = Serving \<Longrightarrow> grpc_run_step p (p\<lparr>pr_grpc := Sending (''grpc: grpcapp.run: '' @ err)\<rparr>)"
| Grpc_serve_nil: "pr_grpc p = Serving \<Longrightarrow> pr_grpcStopping p \<Longrightarrow> grpc_run_step p (p\<lparr>pr_grpc := Finished\<rparr>)"
| Grpc_send: "pr_grpc p = Sending e \<Longrightarrow> length (pr_serverErr p) < serverErr_cap \<Longrightarrow>
    grpc_run_step p (p\<lparr>pr_grpc := Finished, pr_serverErr := pr_serverErr p @ [e]\<rparr>)"

text \<open>
  The goroutine of the gateway: \<^verbatim>\<open>run\<close> stores its cancel function, sets up, stores its server and serves.
\<close>

inductive gateway_run_step :: "proc \<Rightarrow> proc \<Rightarrow> bool" where
  Gw_start: "pr_gateway p = Starting \<Longrightarrow> gateway_run_step p (p\<lparr>pr_gateway := SettingUp, pr_cancelGW := True\<rparr>)"
| Gw_setup_err: "pr_gateway p = SettingUp \<Longrightarrow> gateway_run_step p (p\<lparr>pr_gateway := Sending (''gateway: gateway.run: '' @ err)\<rparr>)"
| Gw_listen: "pr_gateway p = SettingUp \<Longrightarrow> gateway_run_step p (p\<lparr>pr_gateway := Serving, pr_server := True\<rparr>)"
| Gw_serve_err: "pr_gateway p = Serving \<Longrightarrow> gateway_run_step p (p\<lparr>pr_gateway := Sending (''gateway: gateway.run: '' @ err)\<rparr>)"
| Gw_closed: "pr_gateway p = Serving \<Longrightarrow> pr_gwShutdown p \<Longrightarrow> gateway_run_step p (p\<lparr>pr_gateway := Finished\<rparr>)"
| Gw_send: "pr_gateway p = Sending e \<Longrightarrow> length (pr_serverErr p) < serverErr_cap \<Longrightarrow>
    gateway_run_step p (p\<lparr>pr_gateway := Finished, pr_serverErr := pr_serverErr p @ [e]\<rparr>)"

text \<open>
  \<^verbatim>\<open>Stop\<close> of the gateway ends its context if there is one yet, and shuts its server down if there is one
  yet (an error of \<^verbatim>\<open>Shutdown\<close> is logged). \<^verbatim>\<open>GracefulStop\<close> refuses new calls and waits for those in flight.
\<close>

definition gateway_Stop :: "proc \<Rightarrow> proc" where
  "gateway_Stop p = p\<lparr>pr_gwCancelled := pr_cancelGW p, pr_gwShutdown := pr_server p\<rparr>"

inductive main_step :: "proc \<Rightarrow> proc \<Rightarrow> bool" where
  Main_signal: "pr_main p = Selecting \<Longrightarrow> pr_stop p = Some sign \<Longrightarrow>
    main_step p (p\<lparr>pr_main := StoppingGateway, pr_stop := None, pr_trace := pr_trace p @ [Shutdown_begins (BySignal sign)]\<rparr>)"
| Main_err: "pr_main p = Selecting \<Longrightarrow> pr_serverErr p = e # es \<Longrightarrow>
    main_step p (p\<lparr>pr_main := StoppingGateway, pr_serverErr := es, pr_trace := pr_trace p @ [Shutdown_begins (ByServerErr e)]\<rparr>)"
| Main_stop_gateway: "pr_main p = StoppingGateway \<Longrightarrow>
    main_step p ((gateway_Stop p)\<lparr>pr_main := StoppingGrpc, pr_trace := pr_trace p @ [Gateway_stopped]\<rparr>)"
| Main_stop_grpc: "pr_main p = StoppingGrpc \<Longrightarrow> main_step p (p\<lparr>pr_main := Draining, pr_grpcStopping := True\<rparr>)"
| Main_drained: "pr_main p = Draining \<Longrightarrow> pr_inflight p = 0 \<Longrightarrow>
    main_step p (p\<lparr>pr_main := Returning, pr_trace := pr_trace p @ [Grpc_stopped]\<rparr>)"
| Main_return: "pr_main p = Returning \<Longrightarrow>
    main_step p (p\<lparr>pr_main := Done, pr_trace := pr_trace p @ [DB_closed, Redis_closed]\<rparr>)"

text \<open>
  A step of the program, until main has returned: one of the three goroutines, or a call in flight
  that ends. A step of the environment: a signal (dropped when one is already waiting) or a new call.
\<close>

inductive prog_step :: "proc \<Rightarrow> proc \<Rightarrow> bool" where
  By_grpc: "pr_main p \<noteq> Done \<Longrightarrow> grpc_run_step p q \<Longrightarrow> prog_step p q"
| By_gateway: "pr_main p \<noteq> Done \<Longrightarrow> gateway_run_step p q \<Longrightarrow> prog_step p q"
| By_main: "main_step p q \<Longrightarrow> prog_step p q"
| Rpc_ends: "pr_main p \<noteq> Done \<Longrightarrow> pr_inflight p = Suc n \<Longrightarrow> prog_step p (p\<lparr>pr_inflight := n\<rparr>)"

inductive env_step :: "proc \<Rightarrow> proc \<Rightarrow> bool" where
  Signal: "pr_main p \<noteq> Done \<Longrightarrow>
    env_step p (p\<lparr>pr_stop := (case pr_stop p of None \<Rightarrow> Some sign | Some s \<Rightarrow> Some s)\<rparr>)"
| Rpc_begins: "pr_main p \<noteq> Done \<Longrightarrow> pr_grpc p = Serving \<Longrightarrow> \<not> pr_grpcStopping p \<Longrightarrow>
    env_step p (p\<lparr>pr_inflight := Suc (pr_inflight p)\<rparr>)"

definition proc_step :: "proc \<Rightarrow> proc \<Rightarrow> bool" where
  "proc_step p q \<longleftrightarrow> prog_step p q \<or> env_step p q"

inductive_cases grpc_run_stepE: "grpc_run_step p q"
inductive_cases gateway_run_stepE: "gateway_run_step p q"
inductive_cases main_stepE: "main_step p q"
inductive_cases prog_stepE: "prog_step p q"
inductive_cases env_stepE: "env_step p q"

lemmas proc_elims = grpc_run_stepE gateway_run_stepE main_stepE prog_stepE env_stepE

section \<open>What holds of every run\<close>

fun trace_at :: "main_pc \<Rightarrow> stop_cause \<Rightarrow> proc_event list" where
  "trace_at Selecting c = []"
| "trace_at StoppingGateway c = [Shutdown_begins c]"
| "trace_at StoppingGrpc c = [Shutdown_begins c, Gateway_stopped]"
| "trace_at Draining c = [Shutdown_begins c, Gateway_stopped]"
| "trace_at Returning c = [Shutdown_begins c, Gateway_stopped, Grpc_stopped]"
| "trace_at Done c = [Shutdown_begins c, Gateway_stopped, Grpc_stopped, DB_closed, Redis_closed]"

definition sent :: "goroutine \<Rightarrow> nat" where
  "sent g = (if g = Finished then 1 else 0)"

definition proc_ok :: "proc \<Rightarrow> bool" where
  "proc_ok p \<longleftrightarrow> length (pr_serverErr p) \<le> sent (pr_grpc p) + sent (pr_gateway p)
     \<and> (\<exists>c. pr_trace p = trace_at (pr_main p) c)
     \<and> (pr_grpcStopping p \<longleftrightarrow> pr_main p \<in> {Draining, Returning, Done})
     \<and> (pr_main p \<in> {Returning, Done} \<longrightarrow> pr_inflight p = 0)"

lemma sent_simps [simp]: "sent Finished = 1" "sent Starting = 0" "sent SettingUp = 0" "sent Serving = 0" "sent (Sending e) = 0"
  by (simp_all add: sent_def)

lemma proc_ok_init: "proc_ok proc_init"
  by (simp add: proc_ok_def proc_init_def)

lemma proc_ok_grpc: "grpc_run_step p q \<Longrightarrow> proc_ok p \<Longrightarrow> proc_ok q"
  by (erule grpc_run_stepE) (simp_all add: proc_ok_def)

lemma proc_ok_gateway: "gateway_run_step p q \<Longrightarrow> proc_ok p \<Longrightarrow> proc_ok q"
  by (erule gateway_run_stepE) (simp_all add: proc_ok_def)

lemma proc_ok_main: "main_step p q \<Longrightarrow> proc_ok p \<Longrightarrow> proc_ok q"
  by (erule main_stepE) (auto simp: proc_ok_def gateway_Stop_def)

lemma proc_ok_rpc: "proc_ok p \<Longrightarrow> pr_inflight p = Suc n \<Longrightarrow> proc_ok (p\<lparr>pr_inflight := n\<rparr>)"
  by (simp add: proc_ok_def)

lemma proc_ok_step:
  assumes "proc_step p q" "proc_ok p"
  shows "proc_ok q"
  using assms unfolding proc_step_def
proof (elim disjE)
  show "proc_ok q" if "prog_step p q"
    using that assms(2) by (elim prog_stepE) (blast intro: proc_ok_grpc proc_ok_gateway proc_ok_main proc_ok_rpc)+
  show "proc_ok q" if "env_step p q"
    using that assms(2) by (elim env_stepE) (auto simp: proc_ok_def)
qed

lemma proc_ok_reach: "proc_step\<^sup>*\<^sup>* proc_init p \<Longrightarrow> proc_ok p"
  by (induction rule: rtranclp_induct) (auto intro: proc_ok_init proc_ok_step)

text \<open>A measure that every step of the program lowers.\<close>

fun main_rank :: "main_pc \<Rightarrow> nat" where
  "main_rank Selecting = 5"
| "main_rank StoppingGateway = 4"
| "main_rank StoppingGrpc = 3"
| "main_rank Draining = 2"
| "main_rank Returning = 1"
| "main_rank Done = 0"

fun run_rank :: "goroutine \<Rightarrow> nat" where
  "run_rank Starting = 4"
| "run_rank SettingUp = 3"
| "run_rank Serving = 2"
| "run_rank (Sending e) = 1"
| "run_rank Finished = 0"

definition proc_rank :: "proc \<Rightarrow> nat" where
  "proc_rank p = main_rank (pr_main p) + run_rank (pr_grpc p) + run_rank (pr_gateway p) + pr_inflight p"

lemma prog_step_rank: "prog_step p q \<Longrightarrow> proc_rank q < proc_rank p"
  by (auto elim!: proc_elims simp: proc_rank_def gateway_Stop_def)

definition stop_requested :: "proc \<Rightarrow> bool" where
  "stop_requested p \<longleftrightarrow> pr_main p \<noteq> Selecting \<or> pr_stop p \<noteq> None \<or> pr_serverErr p \<noteq> []
     \<or> (\<exists>e. pr_grpc p = Sending e) \<or> (\<exists>e. pr_gateway p = Sending e)"

lemma stop_requested_step: "prog_step p q \<Longrightarrow> stop_requested p \<Longrightarrow> stop_requested q"
  by (auto elim!: proc_elims simp: stop_requested_def gateway_Stop_def)

lemma channel_has_room:
  assumes "proc_ok p" "pr_grpc p = Sending e \<or> pr_gateway p = Sending e"
  shows "length (pr_serverErr p) < serverErr_cap"
  using assms by (auto simp: proc_ok_def serverErr_cap_def sent_def split: if_splits)

lemma prog_step_possible:
  assumes "proc_ok p" "stop_requested p" "pr_main p \<noteq> Done"
  shows "\<exists>q. prog_step p q"
proof (cases "pr_main p")
  case Selecting
  with assms(2) consider s where "pr_stop p = Some s" | e es where "pr_serverErr p = e # es"
    | e where "pr_grpc p = Sending e" | e where "pr_gateway p = Sending e"
    by (auto simp: stop_requested_def neq_Nil_conv)
  then show ?thesis
    by cases (use Selecting assms(3) channel_has_room[OF assms(1)] in
        \<open>blast intro: prog_step.intros grpc_run_step.intros gateway_run_step.intros main_step.intros\<close>)+
next
  case Draining
  then show ?thesis
    by (cases "pr_inflight p") (use assms(3) in \<open>blast intro: prog_step.intros main_step.intros\<close>)+
qed (use assms(3) in \<open>blast intro: prog_step.intros main_step.intros\<close>)+

lemma run_to_done:
  assumes "proc_ok p" "stop_requested p"
  shows "\<exists>q. prog_step\<^sup>*\<^sup>* p q \<and> pr_main q = Done"
  using assms
proof (induction "proc_rank p" arbitrary: p rule: less_induct)
  case less
  show ?case
  proof (cases "pr_main p = Done")
    case False
    then obtain q where q: "prog_step p q" using prog_step_possible[OF less.prems] by blast
    have "proc_ok q" using proc_ok_step[OF _ less.prems(1)] q by (simp add: proc_step_def)
    then obtain r where "prog_step\<^sup>*\<^sup>* q r" "pr_main r = Done"
      using less.hyps[OF prog_step_rank[OF q]] stop_requested_step[OF q less.prems(2)] by blast
    with q show ?thesis by (blast intro: converse_rtranclp_into_rtranclp)
  qed blast
qed

lemma prog_steps_keep:
  assumes "prog_step\<^sup>*\<^sup>* p q" "proc_ok p" "stop_requested p"
  shows "proc_ok q \<and> stop_requested q"
  using assms by (induction rule: rtranclp_induct) (auto intro: proc_ok_step stop_requested_step simp: proc_step_def)

section \<open>Properties of the process\<close>




lemma redis_New_pinged: "redis_New D cfg = Inr c \<Longrightarrow> dr_redis_Ping D c = None"
  by (auto simp: redis_New_def Let_def split: option.splits)

lemma postgres_New_pinged: "postgres_New D cfg = Inr db \<Longrightarrow> dr_pool_Ping D db = None"
  by (auto simp: postgres_New_def split: option.splits sum.splits)

lemma setupLogger_None: "setupLogger env = None \<longleftrightarrow> env \<notin> {''local'', ''dev'', ''prod''}"
  by (simp add: setupLogger_def)

lemma setupLogger_Some: "setupLogger env = Some l \<Longrightarrow> env \<in> {''local'', ''dev'', ''prod''}"
  by (metis option.distinct(1) setupLogger_None)

text \<open>
  The process starts its servers only on working connections: main reaches the servers exactly
  when the configuration was read, the environment is a known one, Redis and the database both answered
  a ping and the application could be built; in every other case it ends with status 1 or a panic.
\<close>

theorem main_start_running_iff:
  "(\<exists>application. snd (main_start H) = Running application) \<longleftrightarrow>
     (\<exists>cfg c db. ho_ReadEnv H = Inr cfg \<and> c_Env cfg \<in> {''local'', ''dev'', ''prod''}
        \<and> redis_New (ho_drivers H) (c_Redis cfg) = Inr c \<and> dr_redis_Ping (ho_drivers H) c = None
        \<and> postgres_New (ho_drivers H) (c_DB cfg) = Inr db \<and> dr_pool_Ping (ho_drivers H) db = None
        \<and> (\<exists>application. app_New (ho_backends H db c) (gc_Port (c_GRPC cfg)) (cfg_GatewayPort (c_Gateway cfg))
             (c_JWT cfg) (c_Security cfg) (c_Gateway cfg) (c_Env cfg) = Some (Inr application)))"
  by (auto simp: main_start_def MustLoad_def setupLogger_None dest: redis_New_pinged postgres_New_pinged setupLogger_Some
      split: option.splits sum.splits if_splits)




end
