(* ===== verification/Deployment.thy ===== *)
theory Deployment
  imports Production Gateway_Proofs Process
begin

text \<open>
  The service that the program runs: the application of \<^verbatim>\<open>app.New\<close> on PostgreSQL and Redis, its gRPC handler
  behind the interceptors, its gateway, and the goroutines its handlers start, as one state machine. The
  invariant of the stores and the guarantees for tokens hold in every state it reaches,
  whatever the two servers refuse or forget.
\<close>

section \<open>The state machine\<close>

definition app_ok :: "'r backends \<Rightarrow> ('r \<Rightarrow> string \<rightharpoonup> entry) \<Rightarrow> 'r world \<Rightarrow> bool" where
  "app_ok be kv w \<longleftrightarrow> app_inv be kv w \<and> vault_ok (lib_crypto (be_lib be)) (app_view be kv w)"

text \<open>
  A call through the interceptors, a started goroutine that runs, a clock reading by anything else,
  and Redis dropping keys that have expired. A call is one step: the handlers of concurrent calls are taken
  one after the other.
\<close>

inductive app_step :: "'r backends \<Rightarrow> ('r \<Rightarrow> string \<rightharpoonup> entry) \<Rightarrow> 'r App \<Rightarrow> 'r world \<Rightarrow> 'r world \<Rightarrow> bool"
  for be kv a where
  Call: "run_state (app_handler a ctx r) w = (x, w') \<Longrightarrow> app_step be kv a w w'"
| Task: "t \<in> set (w_tasks w) \<Longrightarrow> run_state (run_task (app_authService a) t) w = (y, w') \<Longrightarrow> app_step be kv a w w'"
| Idle: "run_state time_Now w = (t, w') \<Longrightarrow> app_step be kv a w w'"
| Evict: "purged (w_now w) (kv (w_services w)) (kv r) \<Longrightarrow> pg_get (be_db be) r = pg_tables (be_db be) w \<Longrightarrow>
    app_step be kv a w (w\<lparr>w_services := r\<rparr>)"

text \<open>A database just migrated, and an empty Redis.\<close>

definition fresh_servers :: "'r backends \<Rightarrow> ('r \<Rightarrow> string \<rightharpoonup> entry) \<Rightarrow> 'r world \<Rightarrow> bool" where
  "fresh_servers be kv w \<longleftrightarrow> pg_users (pg_tables (be_db be) w) = [] \<and> pg_sessions (pg_tables (be_db be) w) = []
     \<and> kv (w_services w) = Map.empty"

definition tokens_distinct :: "crypto \<Rightarrow> 'r world \<Rightarrow> bool" where
  "tokens_distinct C w \<longleftrightarrow> inj_on (token_at C (w_rand w)) {i. i + 32 \<le> length (w_rand w)}"

section \<open>Every step keeps the invariant\<close>

lemma app_ok_tracks:
  "app_ok be kv w \<Longrightarrow> track (lib_crypto (be_lib be)) (app_inv be kv) (app_view be kv) (app_view be kv w) (app_view be kv w) w"
  by (simp add: app_ok_def track_def)

lemma app_ok_settled:
  "app_ok be kv w \<Longrightarrow> settled (lib_crypto (be_lib be)) (app_inv be kv) (app_view be kv) (app_view be kv w) w"
  by (simp add: app_ok_def settled_def)

definition app_keeps :: "'r backends \<Rightarrow> ('r \<Rightarrow> string \<rightharpoonup> entry) \<Rightarrow> vault \<Rightarrow> 'r world \<Rightarrow> bool" where
  "app_keeps be kv v0 w \<longleftrightarrow> app_ok be kv w \<and> evolves v0 (app_view be kv w)"

lemma app_keeps_refl: "app_ok be kv w \<Longrightarrow> app_keeps be kv (app_view be kv w) w"
  by (simp add: app_keeps_def)

lemma app_keeps_later:
  assumes "app_keeps be kv v0 w" "app_inv be kv w'" "later (app_view be kv w) (app_view be kv w')"
  shows "app_keeps be kv v0 w'"
proof -
  note f = later_frame[OF assms(3)]
  show ?thesis
    using assms(1,2) vault_ok_frame[OF f] evolves_trans[OF _ evolves_frame[OF f]] by (auto simp: app_keeps_def app_ok_def)
qed

lemma app_keeps_aside: "app_keeps be kv v0 w \<Longrightarrow> app_aside be kv w w' \<Longrightarrow> app_keeps be kv v0 w'"
  unfolding app_aside_def by (elim conjE, rule app_keeps_later)

lemma app_keeps_refl_aside: "app_keeps be kv v0 w \<Longrightarrow> app_aside be kv w w"
  by (simp add: app_keeps_def app_ok_def app_aside_def)

lemma app_tick: "app_keeps be kv v0 w \<Longrightarrow> wp time_Now (\<lambda>_. app_keeps be kv v0) w"
  by (rule wp_mono[OF app_aside_tick[OF app_keeps_refl_aside]]) (auto intro: app_keeps_aside)

lemma app_allow:
  "app_keeps be kv v0 w \<Longrightarrow> l_redis l = be_redis be \<Longrightarrow> wp (Allow l k) (\<lambda>_. app_keeps be kv v0) w"
  by (rule wp_mono[OF app_Allow[OF app_keeps_refl_aside]]) (auto intro: app_keeps_aside)

lemma app_dispatch:
  assumes "app_keeps be kv v0 w"
  shows "wp (dispatch (be_lib be) (app_service be mgr sec ttl) ctx r) (\<lambda>_. app_keeps be kv v0) w"
proof -
  have "app_ok be kv w" using assms by (simp add: app_keeps_def)
  from deployed.dispatch_settles[OF app_ok_tracks[OF this]] show ?thesis
    by (rule wp_mono) (use assms evolves_trans in \<open>auto simp: app_keeps_def app_ok_def settled_def\<close>)
qed

interpretation app: call_chain "NewLimiter (be_redis be) n win" "NewLimiter (be_redis be) m win'" "be_lib be"
    "app_service be mgr sec ttl" "app_keeps be kv v0" for be n m win win' mgr sec ttl kv v0
  by unfold_locales (auto simp: NewLimiter_def intro: app_tick app_allow app_dispatch)

lemma app_audit:
  assumes "app_keeps be kv v0 w"
  shows "wp (pg_audit_Log mar (be_db be) e) (\<lambda>_. app_keeps be kv v0) w"
proof -
  have i: "app_inv be kv w" using assms by (simp add: app_keeps_def app_ok_def)
  have exec: "wp (pg_exec (be_db be) op (\<lambda>now uuid. insert_audit uuid now e meta)) (\<lambda>_. app_keeps be kv v0) w" for op meta
    by (rule app.wp_pg_exec[OF i])
      (use assms pg_invD(3)[OF i] in \<open>auto simp: insert_audit_def tables_ok_def pg_view_def split: if_splits option.splits
        intro: app_keeps_later\<close>)
  show ?thesis
    unfolding pg_audit_Log_def
    by (auto simp: wp_bind wp_return assms split: sum.split intro!: wp_mono[OF exec])
qed

lemma app_task:
  assumes "app_keeps be kv v0 w"
  shows "wp (run_task (app_service be mgr sec ttl) t) (\<lambda>_. app_keeps be kv v0) w"
  using assms by (cases t) (auto simp: run_task_def NoOp_def wp_bind wp_return intro: wp_mono[OF app_audit])

lemma app_New_built:
  assumes "app_New be gp hp jwt sec gw env = Some (Inr a)"
  shows "\<exists>mgr. app_authService a = app_service be mgr sec (cfg_RefreshTTL jwt)
    \<and> app_handler a = grpc_call (NewLimiter (be_redis be) (cfg_GlobalRPM (cfg_RateLimit sec)) minute)
        (NewLimiter (be_redis be) (cfg_LoginRPM (cfg_RateLimit sec)) minute) (be_lib be) (app_authService a)"
  using assms by (auto simp: app_New_def Let_def split: option.splits sum.splits)

lemma app_handler_keeps:
  assumes "app_New be gp hp jwt sec gw env = Some (Inr a)" "app_keeps be kv v0 w"
  shows "wp (app_handler a ctx r) (\<lambda>_. app_keeps be kv v0) w"
proof -
  from app_New_built[OF assms(1)] obtain mgr where a: "app_authService a = app_service be mgr sec (cfg_RefreshTTL jwt)"
    "app_handler a = grpc_call (NewLimiter (be_redis be) (cfg_GlobalRPM (cfg_RateLimit sec)) minute)
        (NewLimiter (be_redis be) (cfg_LoginRPM (cfg_RateLimit sec)) minute) (be_lib be) (app_authService a)" by blast
  show ?thesis unfolding a(2) unfolding a(1) by (rule app.grpc_call_keeps[OF assms(2)])
qed

lemma app_step_keeps:
  assumes "app_New be gp hp jwt sec gw env = Some (Inr a)" "app_keeps be kv v0 w" "app_step be kv a w w'"
  shows "app_keeps be kv v0 w'"
proof -
  from app_New_built[OF assms(1)] obtain mgr where a: "app_authService a = app_service be mgr sec (cfg_RefreshTTL jwt)" by blast
  from assms(3) show ?thesis
  proof cases
    case (Call ctx r x)
    with app_handler_keeps[OF assms(1,2), of ctx r] show ?thesis by (simp add: wp_def)
  next
    case (Task t y)
    with app_task[OF assms(2), of mgr sec "cfg_RefreshTTL jwt" t] show ?thesis by (simp add: a wp_def)
  next
    case (Idle t)
    with app_tick[OF assms(2)] show ?thesis by (simp add: wp_def)
  next
    case (Evict r)
    have i: "app_inv be kv w" using assms(2) by (simp add: app_keeps_def app_ok_def)
    have w': "w' = w\<lparr>w_now := w_now w, w_reads := w_reads w, w_services := r\<rparr>" using Evict(1) by simp
    note moved = app_move[OF i order_refl Evict(2) app_invD(2)[OF i] Evict(3), of "w_reads w", folded w']
    show ?thesis by (rule app_keeps_later[OF assms(2) moved(1) moved(2)[unfolded redis_tables_same]])
  qed
qed

lemma fresh_app_ok:
  assumes "backends_ok be kv" "fresh_servers be kv w" "tokens_distinct (lib_crypto (be_lib be)) w"
  shows "app_ok be kv w"
  using assms backends_okD(2)[OF assms(1)]
  by (simp add: app_ok_def fresh_servers_def tokens_distinct_def pg_inv_def redis_inv_def redis_ok_def tables_ok_def
      vault_ok_def users_ok_def sessions_ok_def cache_ok_def otps_ok_def resets_ok_def by_key_def entries_def)

section \<open>What stays refused\<close>

text \<open>The handlers of the service that \<^verbatim>\<open>app.New\<close> builds, run in a state the service reaches.\<close>

lemma app_steps_keep:
  assumes "app_New be gp hp jwt sec gw env = Some (Inr a)" "(app_step be kv a)\<^sup>*\<^sup>* w w'" "app_ok be kv w"
  shows "app_ok be kv w'" "evolves (app_view be kv w) (app_view be kv w')"
proof -
  from assms(2) have "app_keeps be kv (app_view be kv w) w'"
    by (induction rule: rtranclp_induct) (use assms(3) app_step_keeps[OF assms(1)] app_keeps_refl in auto)
  then show "app_ok be kv w'" "evolves (app_view be kv w) (app_view be kv w')" by (simp_all add: app_keeps_def)
qed

lemma wp_refuses: "wp m (\<lambda>r _. \<exists>e. r = Inl e) w \<Longrightarrow> \<exists>e w'. run_state m w = (Inl e, w')"
  by (auto simp: wp_def split: prod.splits)

lemma app_dead_refused:
  assumes "app_New be gp hp jwt sec gw env = Some (Inr a)" "(app_step be kv a)\<^sup>*\<^sup>* w w'" "app_ok be kv w"
    and "dead (Hash (lib_crypto (be_lib be)) (rt_RefreshToken req)) (app_view be kv w)"
  shows "\<exists>e w''. run_state (RefreshToken (be_lib be) (app_authService a) ctx req) w' = (Inl e, w'')"
proof -
  from app_New_built[OF assms(1)] obtain mgr where a: "app_authService a = app_service be mgr sec (cfg_RefreshTTL jwt)" by blast
  note kept = app_steps_keep[OF assms(1-3)]
  show ?thesis
    unfolding a by (rule wp_refuses[OF deployed.dead_refused[OF app_ok_settled[OF kept(1)] dead_evolves[OF assms(4) kept(2)]]])
qed

lemma app_spent_refused:
  assumes "app_New be gp hp jwt sec gw env = Some (Inr a)" "(app_step be kv a)\<^sup>*\<^sup>* w w'" "app_ok be kv w"
    and "spent (Hash (lib_crypto (be_lib be)) (rp_ResetToken req)) (app_view be kv w)"
  shows "\<exists>e w''. run_state (ResetPassword (be_lib be) (app_authService a) ctx req) w' = (Inl e, w'')"
proof -
  from app_New_built[OF assms(1)] obtain mgr where a: "app_authService a = app_service be mgr sec (cfg_RefreshTTL jwt)" by blast
  note kept = app_steps_keep[OF assms(1-3)]
  show ?thesis
    unfolding a by (rule wp_refuses[OF deployed.spent_refused[OF app_ok_settled[OF kept(1)] spent_evolves[OF assms(4) kept(2)]]])
qed

lemma settled_app_ok: "settled (lib_crypto (be_lib be)) (app_inv be kv) (app_view be kv) v0 w \<Longrightarrow> app_ok be kv w"
  by (simp add: app_ok_def settled_def)

end
