(* ===== verification/Deployment_Properties.thy ===== *)
theory Deployment_Properties
  imports Deployment
begin

text \<open>
  What the deployed service guarantees in every state it reaches, and a concrete deployment at which the
  hypotheses hold: a PostgreSQL and a Redis side by side, and a JSON codec that computes.
\<close>

section \<open>Servers that compute\<close>

text \<open>Strings in a row, each character behind an \<open>x\<close> and each string before a full stop.\<close>

definition enc_field :: "string \<Rightarrow> string" where
  "enc_field s = concat (map (\<lambda>c. [CHR ''x'', c]) s) @ ''.''"

fun dec_fields :: "string \<Rightarrow> string \<Rightarrow> string list option" where
  "dec_fields acc [] = (if acc = [] then Some [] else None)"
| "dec_fields acc [c] = (if c = CHR ''.'' then Some [rev acc] else None)"
| "dec_fields acc (c # d # cs) =
     (if c = CHR ''.'' then map_option ((#) (rev acc)) (dec_fields [] (d # cs)) else dec_fields (d # acc) cs)"

lemma dec_fields_stop: "dec_fields acc (CHR ''.'' # cs) = map_option ((#) (rev acc)) (dec_fields [] cs)"
  by (cases cs) simp_all

lemma dec_fields_enc: "dec_fields acc (enc_field s @ cs) = map_option ((#) (rev acc @ s)) (dec_fields [] cs)"
proof (induction s arbitrary: acc)
  case Nil
  show ?case by (simp add: enc_field_def dec_fields_stop)
next
  case (Cons c s)
  from Cons[of "c # acc"] show ?case by (simp add: enc_field_def)
qed

definition dec_int :: "string \<Rightarrow> int" where
  "dec_int s = (case s of [] \<Rightarrow> 0 | c # cs \<Rightarrow> if c = CHR ''-'' then - int (dec_val cs) else int (dec_val s))"

lemma dec_int_itoa [simp]: "dec_int (itoa_int i) = i"
proof (cases "i < 0")
  case True
  then show ?thesis by (simp add: dec_int_def itoa_int_def)
next
  case False
  obtain c cs where i: "itoa (nat i) = c # cs" by (cases "itoa (nat i)") simp_all
  with itoa_digits[of "nat i"] have "c \<noteq> CHR ''-''" by (auto simp: is_digit_def)
  moreover have "dec_val (c # cs) = nat i" using dec_val_itoa[of "nat i"] i by simp
  ultimately show ?thesis using False i by (simp add: dec_int_def itoa_int_def)
qed

definition enc_session :: "CachedSession \<Rightarrow> string" where
  "enc_session s = enc_field (c_SessionID s) @ enc_field (c_UserID s) @ enc_field (c_UserEmail s) @ enc_field (c_DeviceID s)
     @ enc_field (itoa_int (c_ExpiresAt s))"

definition enc_otp :: "otpData \<Rightarrow> string" where
  "enc_otp d = enc_field (od_UserID d) @ enc_field (od_OTPHash d) @ enc_field (itoa_int (od_Attempts d))"

definition dec_otp :: "string \<Rightarrow> string + otpData" where
  "dec_otp raw = (case dec_fields [] raw of
      Some [u, h, n] \<Rightarrow> Inr \<lparr>od_UserID = u, od_OTPHash = h, od_Attempts = dec_int n\<rparr> | _ \<Rightarrow> Inl ''malformed'')"

definition field_json :: json where
  "field_json = \<lparr>jm_session = (\<lambda>s. Inr (enc_session s)),
     ju_session = (\<lambda>raw. case dec_fields [] raw of
        Some [i, u, e, d, x] \<Rightarrow> Inr \<lparr>c_SessionID = i, c_UserID = u, c_UserEmail = e, c_DeviceID = d, c_ExpiresAt = dec_int x\<rparr>
      | _ \<Rightarrow> Inl ''malformed''),
     jm_otp = (\<lambda>d. Inr (enc_otp d)), ju_otp = dec_otp,
     jm_reset = (\<lambda>d. Inr (enc_field (rtd_UserID d) @ enc_field (rtd_Email d))),
     ju_reset = (\<lambda>raw. case dec_fields [] raw of
        Some [u, e] \<Rightarrow> Inr \<lparr>rtd_UserID = u, rtd_Email = e\<rparr> | _ \<Rightarrow> Inl ''malformed''),
     cjson_incr = (\<lambda>raw. case dec_otp raw of
        Inl err \<Rightarrow> Inl err
      | Inr d \<Rightarrow> Inr (enc_otp (d\<lparr>od_Attempts := od_Attempts d + 1\<rparr>), od_Attempts d + 1))\<rparr>"

lemma dec_fields_one: "dec_fields [] (enc_field s) = Some [s]"
  using dec_fields_enc[of "[]" s "[]"] by simp

lemma dec_enc_otp [simp]: "dec_otp (enc_otp d) = Inr d"
  by (simp add: dec_otp_def enc_otp_def dec_fields_enc dec_fields_one)

lemma field_json_ok: "json_ok field_json"
  by (auto simp: json_ok_def field_json_def enc_session_def dec_fields_enc dec_fields_one)

text \<open>A Redis and a PostgreSQL on the two halves of one state.\<close>

type_synonym ref_state = "pg_db \<times> redis_db"

definition beside :: "(time \<Rightarrow> redis_db \<Rightarrow> 'a \<times> redis_db) \<Rightarrow> time \<Rightarrow> ref_state \<Rightarrow> 'a \<times> ref_state" where
  "beside f t r = map_prod id (Pair (fst r)) (f t (snd r))"

definition beside_put :: "(time \<Rightarrow> redis_db \<Rightarrow> redis_db) \<Rightarrow> time \<Rightarrow> ref_state \<Rightarrow> ref_state" where
  "beside_put f t r = (fst r, f t (snd r))"

definition ref_cache :: "ref_state redis" where
  "ref_cache = \<lparr>rd_send = (\<lambda>_ _. None), rd_recv = (\<lambda>_ _. None),
     rd_EXISTS = (\<lambda>k. beside (rd_EXISTS ref_redis k)), rd_GET = (\<lambda>k. beside (rd_GET ref_redis k)),
     rd_SET = (\<lambda>k v ttl. beside_put (rd_SET ref_redis k v ttl)), rd_DEL = (\<lambda>ks. beside_put (rd_DEL ref_redis ks)),
     rd_INCR = (\<lambda>k. beside (rd_INCR ref_redis k)), rd_PTTL = (\<lambda>k. beside (rd_PTTL ref_redis k)),
     rd_SET_PX = (\<lambda>k v p. beside_put (rd_SET_PX ref_redis k v p)), rd_EXPIRE = (\<lambda>k n. beside_put (rd_EXPIRE ref_redis k n))\<rparr>"

definition ref_db :: "ref_state postgres" where
  "ref_db = \<lparr>pg_get = fst, pg_put = (\<lambda>db r. (db, snd r)), pg_fail = (\<lambda>_ _ _. None), pg_rows = (\<lambda>_ _ _. AllRows),
     pg_now = (\<lambda>t _. timestamptz t), gen_random_uuid = (\<lambda>_ r. ref_uuid (fst r))\<rparr>"

lemma fst_beside: "fst (beside f t r) = fst (f t (snd r))" "fst (snd (beside f t r)) = fst r" "snd (snd (beside f t r)) = snd (f t (snd r))"
  "fst (beside_put g t r) = fst r" "snd (beside_put g t r) = g t (snd r)"
  by (simp_all add: beside_def beside_put_def)

interpretation ref_pair: redis_server ref_cache snd
  by unfold_locales
    (simp_all add: ref_cache_def fst_beside ref.EXISTS ref.GET ref.SET ref.DEL ref.INCR_new ref.INCR[simplified] ref.EXPIRE ref.PTTL ref.SET_PX
      ref.SET_others ref.INCR_others ref.EXPIRE_others del: split_paired_All)

definition ref_backends :: "ref_state backends" where
  "ref_backends = \<lparr>be_db = ref_db, be_redis = ref_cache, be_json = field_json, be_marshal = (\<lambda>_. Inr []),
     be_lib = \<lparr>lib_crypto = demo_crypto, lib_runtime = world_runtime, lib_unicode = demo_unicode\<rparr>, be_jwt = demo_jwt,
     be_keys = no_keys, be_quote = (\<lambda>s. s)\<rparr>"

lemma ref_backends_ok: "backends_ok ref_backends snd"
proof -
  have "database ref_db" using ref_database by (simp add: database_def ref_db_def ref_postgres_def)
  moreover have "separate ref_db ref_cache snd"
    by (simp add: separate_def spares_tables_def ref_db_def ref_cache_def fst_beside)
  ultimately show ?thesis
    using ref_pair.redis_server_axioms field_json_ok demo_crypto_ok by (simp add: backends_ok_def ref_backends_def)
qed

definition ref_app :: "ref_state App" where
  "ref_app = (case app_New ref_backends 8081 8080 demo_cfg demo_sec demo_gateway ''local'' of Some (Inr a) \<Rightarrow> a)"

lemma ref_app_built:
  "app_New ref_backends 8081 8080 demo_cfg demo_sec demo_gateway ''local'' = Some (Inr ref_app)"
  "app_authService ref_app = app_service ref_backends demo_mgr demo_sec (60 * minute)"
  "app_gateway ref_app = demo_app_gateway"
proof -
  have "buildTokenManager (be_quote ref_backends) (be_keys ref_backends) demo_cfg = Some (Inr demo_mgr)"
    using demo_built by (simp add: ref_backends_def)
  then show "app_New ref_backends 8081 8080 demo_cfg demo_sec demo_gateway ''local'' = Some (Inr ref_app)"
    "app_authService ref_app = app_service ref_backends demo_mgr demo_sec (60 * minute)" "app_gateway ref_app = demo_app_gateway"
    by (simp_all add: ref_app_def app_New_def Let_def demo_gateway_def demo_app_gateway_def demo_cfg_def)
qed

text \<open>
  An empty world, and one with a user, a session of theirs and a reset token: no process state but
  bytes for one new token.
\<close>

definition ref_world :: "ref_state \<Rightarrow> ref_state world" where
  "ref_world r = \<lparr>w_now = 0, w_ticks = (\<lambda>_. 1), w_reads = 0, w_rand = replicate 32 (CHR ''r''), w_uuid = (\<lambda>_. []), w_uuids = 0,
     w_order = (\<lambda>m. m), w_tasks = [], w_users = \<lparr>us_heap = [], us_byID = [], us_byEmail = []\<rparr>,
     w_sessions = \<lparr>ss_heap = [], ss_byID = [], ss_byHash = []\<rparr>, w_cache = [],
     w_resets = \<lparr>rs_otps = [], rs_resetTokens = []\<rparr>, w_local = [], w_services = r\<rparr>"

abbreviation ref_fresh :: "ref_state world" where
  "ref_fresh \<equiv> ref_world (\<lparr>pg_users = [], pg_sessions = [], pg_audit = []\<rparr>, Map.empty)"

definition ref_reset :: string where
  "ref_reset = enc_field ''u0'' @ enc_field ''a@b.co''"

definition ref_live :: "ref_state world" where
  "ref_live = ref_world (\<lparr>pg_users = [demo_user], pg_sessions = [demo_session], pg_audit = []\<rparr>,
     [resetTokenPrefix @ Hash demo_crypto ''reset'' \<mapsto> (ref_reset, Some 900000)])"

lemma ref_backends_sel [simp]:
  "be_db ref_backends = ref_db" "be_redis ref_backends = ref_cache" "be_json ref_backends = field_json"
  "lib_crypto (be_lib ref_backends) = demo_crypto" "lib_runtime (be_lib ref_backends) = world_runtime"
  "lib_unicode (be_lib ref_backends) = demo_unicode" "be_jwt ref_backends = demo_jwt"
  by (simp_all add: ref_backends_def)

lemma ref_world_distinct: "tokens_distinct demo_crypto (ref_world r)"
proof -
  have "{i. i + 32 \<le> length (w_rand (ref_world r))} = {0}" by (auto simp: ref_world_def)
  then show ?thesis by (simp add: tokens_distinct_def)
qed

lemma ref_fresh_ok: "fresh_servers ref_backends snd ref_fresh"
  by (simp add: fresh_servers_def ref_world_def ref_db_def)

lemma ref_live_sel [simp]:
  "pg_tables ref_db ref_live = \<lparr>pg_users = [demo_user], pg_sessions = [demo_session], pg_audit = []\<rparr>"
  "snd (w_services ref_live) = [resetTokenPrefix @ Hash demo_crypto ''reset'' \<mapsto> (ref_reset, Some 900000)]"
  "w_rand ref_live = w_rand demo_world" "w_now ref_live = 0"
  by (simp_all add: ref_live_def ref_world_def ref_db_def demo_world_def)

lemmas ref_view_sel [simp] = app_view_sel[of ref_backends snd, unfolded ref_backends_sel]

lemma demo_row_sel:
  "u_ID demo_user = ''u0''" "u_Email demo_user = ''a@b.co''" "s_UserID demo_session = ''u0''"
  "s_TokenHash demo_session = Hash demo_crypto ''tok''"
  by (simp_all add: demo_user_def demo_session_def)

lemma ref_live_view:
  "by_key u_ID [demo_user] = [''u0'' \<mapsto> demo_user]" "by_key s_TokenHash [demo_session] = [Hash demo_crypto ''tok'' \<mapsto> demo_session]"
  "v_cache (app_view ref_backends snd ref_live) = Map.empty" "v_otps (app_view ref_backends snd ref_live) = Map.empty"
  "v_resets (app_view ref_backends snd ref_live) =
     [Hash demo_crypto ''reset'' \<mapsto> (\<lparr>t_UserID = ''u0'', t_Email = ''a@b.co''\<rparr>, last_ns 900000)]"
  by (auto simp: by_key_def demo_row_sel entries_def fun_eq_iff reset_of_def field_json_def ref_reset_def
      dec_fields_enc dec_fields_one)

lemma ref_live_ok: "app_ok ref_backends snd ref_live"
proof -
  have "Hash demo_crypto ''tok'' \<noteq> []" using mem.Hash_nonempty[of demo_deployment demo_world] demo_inv by simp
  then have "vault_ok demo_crypto (app_view ref_backends snd ref_live)"
    using demo_unused ref_live_view(3-5)
    by (simp add: vault_ok_def ref_live_view(1,2) users_ok_def sessions_ok_def cache_ok_def otps_ok_def resets_ok_def
        owner_email_def demo_row_sel)
  moreover have "app_inv ref_backends snd ref_live"
    using ref_backends_ok ref_world_distinct \<open>Hash demo_crypto ''tok'' \<noteq> []\<close> backends_okD(2)[OF ref_backends_ok]
    by (simp add: pg_inv_def redis_inv_def redis_ok_def tables_ok_def tokens_distinct_def demo_row_sel
        ref_world_def demo_world_def)
  ultimately show ?thesis by (simp add: app_ok_def)
qed

lemma ref_cache_sel:
  "rd_GET ref_cache k t r = (map_option fst (live t (snd r k)), fst r, purge t (snd r))"
  "rd_SET ref_cache k v ttl t r = (fst r, (purge t (snd r))(k \<mapsto> (v, if 0 < ttl then Some (ms t + px ttl) else None)))"
  "rd_DEL ref_cache ks t r = (fst r, purge t (snd r) |` (- set ks))"
  by (simp_all add: ref_cache_def beside_def beside_put_def ref_redis_def)

lemma ref_db_sel:
  "pg_get ref_db r = fst r" "pg_put ref_db db r = (db, snd r)" "pg_fail ref_db op t r = None" "pg_rows ref_db op t r = AllRows"
  "pg_now ref_db t r = timestamptz t" "gen_random_uuid ref_db t r = ref_uuid (fst r)"
  by (simp_all add: ref_db_def)

lemma ref_cache_reachable: "reachable ref_cache"
  by (simp add: reachable_def ref_cache_def)

abbreviation ref_service :: "ref_state world AuthService" where
  "ref_service \<equiv> app_service ref_backends demo_mgr demo_sec (60 * minute)"

lemmas ref_redis_run = redis_SessionCache_def redis_cache_Get_def redis_cache_Set_def redis_cache_Delete_def
  wp_redis_call_reachable[OF ref_cache_reachable] app_cache_sel

lemmas ref_run = wp_simps Let_def ref_redis_run ref_cache_sel pg_exec_def pg_SessionStore_def ref_db_sel
  ref_live_def ref_world_def HS256_manager_def demo_mgr_def signToken_def demo_jwt_def world_runtime_def token_Generate_def extractClientInfo_def

lemma app_refreshTTL [simp]: "refreshTTL (app_service be mgr sec ttl) = ttl"
  by (simp add: app_service_def New_def)

lemma field_json_session: "jm_session field_json s = Inr (enc_session s)"
  by (simp add: field_json_def)

lemmas ref_rows = field_json_session delete_sessions_def insert_session_def select_session_def first_row_def demo_row_sel demo_session_def After_def live_def ms_def purge_def

lemma ref_refresh_succeeds:
  "wp (RefreshToken (be_lib ref_backends) ref_service no_ctx \<lparr>rt_RefreshToken = ''tok'', rt_DeviceId = []\<rparr>)
    (\<lambda>r _. \<exists>x. r = Inr x) ref_live"
  unfolding RefreshToken_def lookup_session_def handler_steps app_service_sel
  by (simp add: ref_run ref_rows pg_session_RotateToken_def pg_session_GetByTokenHash_def)

lemma ref_logout_succeeds: "wp (Logout (be_lib ref_backends) ref_service no_ctx ''tok'') (\<lambda>r _. r = Inr ()) ref_live"
  unfolding Logout_def handler_steps app_service_sel
  by (simp add: ref_run ref_rows pg_session_DeleteByTokenHash_def)

lemma ref_reset_succeeds:
  "wp (ResetPassword (be_lib ref_backends) ref_service no_ctx \<lparr>rp_ResetToken = ''reset'', rp_NewPassword = ''N3wpassw''\<rparr>)
    (\<lambda>r _. r = Inr ()) ref_live"
  unfolding ResetPassword_def handler_steps app_service_sel
  by (simp add: ref_run ref_rows redis_ResetCache_def redis_GetResetToken_def redis_DeleteResetToken_def ref_reset_def field_json_def
      dec_fields_enc dec_fields_one demo_password_ok password_Hash_def demo_IDKey saltLen_def pg_UserStore_def pg_user_UpdatePasswordHash_def
      update_user_def pg_session_DeleteAllByUserID_def pg_delete_rows_def)

text \<open>The same servers, but the statement that deletes all sessions of a user times out.\<close>

definition slow_backends :: "ref_state backends" where
  "slow_backends = ref_backends\<lparr>be_db := ref_db\<lparr>pg_fail := (\<lambda>op _ _. if op = ''delete all sessions'' then Some ''timeout'' else None)\<rparr>\<rparr>"

lemma ref_idle: "(app_step ref_backends snd ref_app)\<^sup>*\<^sup>* w (snd (run_state time_Now w))"
  by (rule r_into_rtranclp, rule app_step.Idle, rule surjective_pairing)

section \<open>Properties\<close>

text \<open>
  Claim C1. In every state that the deployed service reaches from a migrated database and an empty Redis, by any HTTP requests
  through its gateway, any direct gRPC calls, any goroutines the handlers start and any keys that Redis drops as expired, the
  invariant of the stores holds: the tables are consistent, a cached session whose row the table
  still holds agrees with it, every code and reset token belongs to the user with that address, and no stored digest is one of a token
  still to be drawn. Either server may refuse a command or lose its answer at any point.
\<close>

theorem deployed_reaches_only_ok:
  assumes "backends_ok be kv" "app_New be gp hp jwt sec gw env = Some (Inr a)"
    and "grpc_gateway G" "gateway_mux G NewClient spec (app_gateway a) creds = Inr rs"
    and "NewClient (gw_grpcTarget (app_gateway a)) creds = Inr conn" "at_most_once conn (app_handler a)"
    and "fresh_servers be kv w0" "tokens_distinct (lib_crypto (be_lib be)) w0"
    and "(http_step G rs (app_step be kv a))\<^sup>*\<^sup>* w0 w"
  shows "app_ok be kv w"
proof -
  have "app_keeps be kv (app_view be kv w0) w"
    by (rule http_steps_keep[OF assms(3-6,9)])
      (use fresh_app_ok[OF assms(1,7,8)] app_keeps_refl app_step_keeps[OF assms(2)] app_handler_keeps[OF assms(2)] in auto)
  then show ?thesis by (simp add: app_keeps_def)
qed

text \<open>
  Claim C2. A refresh token works once in the deployed service: after a successful \<^verbatim>\<open>RefreshToken\<close> the same token is refused
  in every later state, whatever calls, goroutines and evictions come in between and whatever the servers refuse.
\<close>

theorem deployed_refresh_once:
  assumes "app_New be gp hp jwt sec gw env = Some (Inr a)" "app_ok be kv w"
    and "run_state (RefreshToken (be_lib be) (app_authService a) ctx req) w = (Inr resp, w1)"
    and "(app_step be kv a)\<^sup>*\<^sup>* w1 w2" "rt_RefreshToken req' = rt_RefreshToken req"
  shows "\<exists>e w3. run_state (RefreshToken (be_lib be) (app_authService a) ctx' req') w2 = (Inl e, w3)"
proof -
  from app_New_built[OF assms(1)] obtain mgr where a: "app_authService a = app_service be mgr sec (cfg_RefreshTTL jwt)" by blast
  have "app_ok be kv w1" "dead (Hash (lib_crypto (be_lib be)) (rt_RefreshToken req)) (app_view be kv w1)"
    using deployed.refresh_kills_token[OF app_ok_settled[OF assms(2)], of mgr sec "cfg_RefreshTTL jwt" ctx req] assms(3)
    by (auto simp: a wp_def dest: settled_app_ok)
  with assms(5) show ?thesis by (intro app_dead_refused[OF assms(1,4)]) simp_all
qed

text \<open>
  Claim C4. A logout is final in the deployed service: once \<^verbatim>\<open>Logout\<close> has answered success for the token of a stored
  session, \<^verbatim>\<open>RefreshToken\<close> refuses that token in every later state.
\<close>

theorem deployed_logout_final:
  assumes "app_New be gp hp jwt sec gw env = Some (Inr a)" "app_ok be kv w"
    and "Hash (lib_crypto (be_lib be)) tok \<in> dom (v_sessions (app_view be kv w))"
    and "run_state (Logout (be_lib be) (app_authService a) ctx tok) w = (Inr (), w1)"
    and "(app_step be kv a)\<^sup>*\<^sup>* w1 w2" "rt_RefreshToken req = tok"
  shows "\<exists>e w3. run_state (RefreshToken (be_lib be) (app_authService a) ctx' req) w2 = (Inl e, w3)"
proof -
  from app_New_built[OF assms(1)] obtain mgr where a: "app_authService a = app_service be mgr sec (cfg_RefreshTTL jwt)" by blast
  have "app_ok be kv w1" "dead (Hash (lib_crypto (be_lib be)) tok) (app_view be kv w1)"
    using deployed.logout_kills[OF app_ok_settled[OF assms(2)] assms(3), of mgr sec "cfg_RefreshTTL jwt" ctx] assms(4)
    by (auto simp: a wp_def dest: settled_app_ok)
  with assms(6) show ?thesis by (intro app_dead_refused[OF assms(1,5)]) simp_all
qed

text \<open>
  Claim C3. A reset token works once in the deployed service: after a successful \<^verbatim>\<open>ResetPassword\<close> the same token is refused
  in every later state. The handler answers success only when Redis has confirmed that the token is deleted.
\<close>

theorem deployed_reset_once:
  assumes "app_New be gp hp jwt sec gw env = Some (Inr a)" "app_ok be kv w"
    and "run_state (ResetPassword (be_lib be) (app_authService a) ctx req) w = (Inr (), w1)"
    and "(app_step be kv a)\<^sup>*\<^sup>* w1 w2" "rp_ResetToken req' = rp_ResetToken req"
  shows "\<exists>e w3. run_state (ResetPassword (be_lib be) (app_authService a) ctx' req') w2 = (Inl e, w3)"
proof -
  from app_New_built[OF assms(1)] obtain mgr where a: "app_authService a = app_service be mgr sec (cfg_RefreshTTL jwt)" by blast
  have "app_ok be kv w1" "spent (Hash (lib_crypto (be_lib be)) (rp_ResetToken req)) (app_view be kv w1)"
    using deployed.reset_spends[OF app_ok_settled[OF assms(2)], of mgr sec "cfg_RefreshTTL jwt" ctx req] assms(3)
    by (auto simp: a wp_def dest: settled_app_ok)
  with assms(5) show ?thesis by (intro app_spent_refused[OF assms(1,4)]) simp_all
qed


section \<open>Witnesses\<close>

theorem deployed_reaches_only_ok_witness:
  "app_ok ref_backends snd (snd (run_state (mux_serve ref_gateway (ref_routes ref_gateway (local_conn (app_handler ref_app))) http_logout)
     ref_fresh))"
proof -
  let ?rs = "ref_routes ref_gateway (local_conn (app_handler ref_app))"
  have "http_step ref_gateway ?rs (app_step ref_backends snd ref_app) ref_fresh (snd (run_state (mux_serve ref_gateway ?rs http_logout) ref_fresh))"
    by (rule http_step.Http, rule surjective_pairing)
  note run = r_into_rtranclp[of "http_step ref_gateway ?rs (app_step ref_backends snd ref_app)", OF this]
  from deployed_reaches_only_ok[OF ref_backends_ok ref_app_built(1) rg.grpc_gateway_axioms
      ref_mux[of "local_conn (app_handler ref_app)", folded ref_app_built(3)] refl local_conn_once ref_fresh_ok _ run]
  show ?thesis using ref_world_distinct by simp
qed

text \<open>The token is refreshed, the clock is read, and the second refresh is refused.\<close>

theorem deployed_refresh_once_witness:
  "\<exists>resp w1 e w3. run_state (RefreshToken (be_lib ref_backends) (app_authService ref_app) no_ctx \<lparr>rt_RefreshToken = ''tok'', rt_DeviceId = []\<rparr>)
       ref_live = (Inr resp, w1)
     \<and> run_state (RefreshToken (be_lib ref_backends) (app_authService ref_app) no_ctx \<lparr>rt_RefreshToken = ''tok'', rt_DeviceId = ''other''\<rparr>)
       (snd (run_state time_Now w1)) = (Inl e, w3)"
proof -
  obtain resp w1 where 1: "run_state (RefreshToken (be_lib ref_backends) (app_authService ref_app) no_ctx
      \<lparr>rt_RefreshToken = ''tok'', rt_DeviceId = []\<rparr>) ref_live = (Inr resp, w1)"
    using ref_refresh_succeeds unfolding ref_app_built(2) wp_def by (auto split: prod.splits)
  from deployed_refresh_once[OF ref_app_built(1) ref_live_ok 1 ref_idle, of "\<lparr>rt_RefreshToken = ''tok'', rt_DeviceId = ''other''\<rparr>" no_ctx] 1
  show ?thesis by auto
qed

theorem deployed_logout_final_witness:
  "\<exists>w1 e w3. run_state (Logout (be_lib ref_backends) (app_authService ref_app) no_ctx ''tok'') ref_live = (Inr (), w1)
     \<and> run_state (RefreshToken (be_lib ref_backends) (app_authService ref_app) no_ctx \<lparr>rt_RefreshToken = ''tok'', rt_DeviceId = []\<rparr>)
       (snd (run_state time_Now w1)) = (Inl e, w3)"
proof -
  obtain w1 where 1: "run_state (Logout (be_lib ref_backends) (app_authService ref_app) no_ctx ''tok'') ref_live = (Inr (), w1)"
    using ref_logout_succeeds unfolding ref_app_built(2) wp_def by (auto split: prod.splits)
  have "Hash (lib_crypto (be_lib ref_backends)) ''tok'' \<in> dom (v_sessions (app_view ref_backends snd ref_live))"
    by (simp add: ref_live_view(2))
  from deployed_logout_final[OF ref_app_built(1) ref_live_ok this 1 ref_idle, of "\<lparr>rt_RefreshToken = ''tok'', rt_DeviceId = []\<rparr>" no_ctx] 1
  show ?thesis by auto
qed

theorem deployed_reset_once_witness:
  "\<exists>w1 e w3. run_state (ResetPassword (be_lib ref_backends) (app_authService ref_app) no_ctx \<lparr>rp_ResetToken = ''reset'', rp_NewPassword = ''N3wpassw''\<rparr>)
       ref_live = (Inr (), w1)
     \<and> run_state (ResetPassword (be_lib ref_backends) (app_authService ref_app) no_ctx \<lparr>rp_ResetToken = ''reset'', rp_NewPassword = ''An0ther1''\<rparr>)
       (snd (run_state time_Now w1)) = (Inl e, w3)"
proof -
  obtain w1 where 1: "run_state (ResetPassword (be_lib ref_backends) (app_authService ref_app) no_ctx
      \<lparr>rp_ResetToken = ''reset'', rp_NewPassword = ''N3wpassw''\<rparr>) ref_live = (Inr (), w1)"
    using ref_reset_succeeds unfolding ref_app_built(2) wp_def by (auto split: prod.splits)
  from deployed_reset_once[OF ref_app_built(1) ref_live_ok 1 ref_idle, of "\<lparr>rp_ResetToken = ''reset'', rp_NewPassword = ''An0ther1''\<rparr>" no_ctx] 1
  show ?thesis by auto
qed

end
