(* ===== verification/Spec2Isabelle.thy ===== *)
theory Spec2Isabelle
  imports Interleaving Guard_Proofs Deployment_Properties
begin

text \<open>
  Verification of the authentication service (module \<^verbatim>\<open>auth-service\<close>, Go).

  \<^bold>\<open>The program.\<close> A gRPC server with twelve methods: registration, login, token validation, refresh,
  logout, session listing and revocation, password change and the three steps of a password reset.
  \<^verbatim>\<open>internal/service/auth/auth.go\<close> holds the handlers. They reach the world through the interfaces of
  \<^verbatim>\<open>internal/domain/ports\<close>: users and sessions (adapters for PostgreSQL and for memory), a session
  cache and a store of reset codes (adapters for Redis and for memory), access tokens (JWT), an audit
  log and an event hook. A login guard (\<^verbatim>\<open>lib/bruteforce\<close>) counts failures in Redis and falls back to
  a map in the process. An HTTP gateway translates REST requests into calls. Two interceptors stand before the handlers: one logs, one limits the rate per
  client address (\<^verbatim>\<open>lib/ratelimit\<close>, in Redis).

  \<^bold>\<open>The theories\<close>, from the bottom up:
  \<^item> \<^verbatim>\<open>Prelude\<close>: time, Go maps, weakest preconditions for the state monad in which every
    effectful function is written. \<^verbatim>\<open>Go_Strings\<close>, \<^verbatim>\<open>Encoding\<close>: the parts of Go's library the source uses
    (splitting, trimming, decimal numbers, UTF-8, hexadecimal, base64).
  \<^item> \<^verbatim>\<open>Validate\<close>: \<^verbatim>\<open>lib/validate\<close>. The e-mail pattern is a regular expression matched by derivatives and
    is shown to accept exactly the addresses of the pattern's form; the password policy works on runes.
  \<^item> \<^verbatim>\<open>Domain\<close>, \<^verbatim>\<open>Ports\<close>: \<^verbatim>\<open>domain/models\<close> and \<^verbatim>\<open>domain/ports\<close>. An interface is a record of operations.
    \<^verbatim>\<open>Ports\<close> also holds the abstract state (\<open>vault\<close>), a specification of every operation as a relation on
    vaults, and one locale per port: the laws an adapter owes its clients.
  \<^item> \<^verbatim>\<open>Credentials\<close>: \<^verbatim>\<open>lib/token\<close>, \<^verbatim>\<open>lib/otp\<close>, \<^verbatim>\<open>lib/password\<close>; \<^verbatim>\<open>Client_Info\<close>: the client address.
  \<^item> \<^verbatim>\<open>Auth_Service\<close>: the handlers, one definition each, and the dispatch table.
    \<^verbatim>\<open>Service_Invariant\<close>: the invariant of all stores together and how the vault may evolve.
    \<^verbatim>\<open>Auth_Backend\<close>: the locale of a complete backend, with one symbolic-execution rule per call.
    \<^verbatim>\<open>Handler_Proofs\<close>: inside that locale, the specification of every handler, proved once for any adapters.
  \<^item> \<^verbatim>\<open>World\<close>: the concrete state: clock, random bytes, UUIDs, the in-memory stores, goroutines started,
    and the state \<open>'r\<close> of the external services. \<^verbatim>\<open>Heap_Index\<close>: objects on a heap under two indices.
  \<^item> \<^verbatim>\<open>Memory_Users\<close>, \<^verbatim>\<open>Memory_Sessions\<close>, \<^verbatim>\<open>Memory_Cache\<close>, \<^verbatim>\<open>JWT\<close>, \<^verbatim>\<open>Bruteforce\<close>: the adapters and the guard,
    each with the interpretation of its port's locale. \<^verbatim>\<open>Memory_Service\<close> assembles them;
    \<^verbatim>\<open>Service_Properties\<close> states what follows for the handlers; \<^verbatim>\<open>Demo\<close> is a concrete deployment on which
    the handlers are evaluated.
  \<^item> \<^verbatim>\<open>Redis\<close>: the commands the program sends, the laws of the server as a locale, a reference server.
    \<^verbatim>\<open>Guard_Proofs\<close>: the login guard on Redis; \<^verbatim>\<open>Ratelimit\<close>: the limiter; \<^verbatim>\<open>Redis_Cache\<close>: both Redis adapters.
  \<^item> \<^verbatim>\<open>Interceptors\<close>: the logging and rate-limit interceptors and their chain around the handlers;
    \<^verbatim>\<open>Server\<close>: the server as a step relation and what holds in every state it reaches.
  \<^item> \<^verbatim>\<open>Interleaving\<close>: \<^verbatim>\<open>RefreshToken\<close> and \<^verbatim>\<open>ResetPassword\<close> cut at the port operation that decides a race, and
    what two concurrent requests with the same token can achieve.
  \<^item> \<^verbatim>\<open>Postgres\<close>: the repositories for PostgreSQL and their SQL statements as functions on tables;
    \<^verbatim>\<open>Postgres_Proofs\<close>: they meet the contracts of the user and session ports, beside whatever else the world holds.
  \<^item> \<^verbatim>\<open>App\<close>: the choice of the token manager and the loading of its key, the wiring of \<^verbatim>\<open>app.New\<close>, the
    set-up of the gateway.
  \<^item> \<^verbatim>\<open>Gateway\<close>: the generated gateway (\<^verbatim>\<open>gen/api/auth.pb.gw.go\<close>) with its path patterns, decoders and handlers,
    and the laws of grpc-gateway as a locale; \<^verbatim>\<open>Gateway_Proofs\<close>: routing, one call per request, the server
    behind the gateway.
  \<^item> \<^verbatim>\<open>Logger\<close>: the log handler for local use; \<^verbatim>\<open>Process\<close>: configuration, connections, the migrator, the start
    of the process, and its goroutines and shutdown as a step relation.
  \<^item> \<^verbatim>\<open>Production\<close>: the wiring of \<^verbatim>\<open>app.New\<close> as a backend. The Redis adapters, the guard, the run-time and the token manager
    meet their contracts on a world with both servers, so the handler proofs are interpreted for it.
    \<^verbatim>\<open>Deployment\<close>: the running service as a step relation (calls, goroutines, the clock, keys that expire) and the
    invariant in every state; \<^verbatim>\<open>Deployment_Properties\<close>: its guarantees and two servers that compute.

  \<^bold>\<open>What is shown.\<close> Every handler keeps the invariant of the stores; a refresh token and a reset token work
  once; logout, logout-all, revocation and password changes end exactly the sessions they name; login
  and registration succeed only as they should; the guard and the limiter count to their limits; the
  adapters implement the abstract specifications (in-memory and PostgreSQL for users and sessions,
  in-memory and Redis for the cache and the reset codes); encoders, validators and generators meet
  their reference definitions. Over HTTP every RPC is served under its published path, one request makes
  at most one call, and the invariant holds behind the gateway. In the deployed service the invariant holds in every
  reachable state whatever the servers refuse or whichever answer is lost, and refresh tokens, reset tokens and
  logged-out sessions stay refused for good once the request that ended them was answered with success. The process shuts down in order, and
  its shutdown always completes, within a bounded number of steps.

  \<^bold>\<open>Conventions.\<close> Functions are total; a Go panic is the result \<open>None\<close>, an error a left injection. Loops are
  structural recursion or have a termination proof; there is no fuel. The clock never goes back and
  advances by arbitrary amounts between readings. Go's \<^verbatim>\<open>int\<close> is 64 bits wide and the counters stay far below
  that, so they are integers; the 32-bit session counts and the 32-bit hash parameters keep their width.
  The random source yields a given finite string of bytes and then fails; the tokens it can still
  produce have distinct digests; drawn UUIDs are distinct. Both are hypotheses of the theorems
  (\<open>supplies_ok\<close>), like the behaviour of SHA-256 and Argon2 (\<open>crypto_ok\<close>).

  \<^bold>\<open>Parameters.\<close> Code outside the repository is an argument: SHA-256, Argon2, Unicode's tables, the JWT
  library, the JSON codec, PEM and X.509, files, the Redis and the PostgreSQL server and client. What the
  program relies on are named hypotheses or locales, each with a concrete instance.

  \<^bold>\<open>Composition.\<close> The handlers are proved once against the ports (locale \<open>auth_backend\<close>) and instantiated twice: for the in-memory
  adapters (\<^verbatim>\<open>Memory_Service\<close>), where stores never fail, and for the wiring of \<^verbatim>\<open>app.New\<close> (\<^verbatim>\<open>Production\<close>), where every call may fail, a
  command may take effect and its answer be lost, and Redis forgets what has expired. The contracts allow for this: an
  operation of a remote store may fail at any time, and its effect is then undecided; expiry is exact to two
  milliseconds. \<open>backends_ok\<close> collects what the deployed service relies on: the laws of both servers, that
  neither touches the other's state, a JSON codec that decodes what it encoded (strings are UTF-8 here) and counts attempts
  until the number is too large to print, SHA-256 and Argon2, the run-time.

  \<^bold>\<open>Not modelled.\<close> Requests run one after the other, except for the races of \<^verbatim>\<open>Interleaving\<close>: a handler is one
  program, not a set of interleaved steps (each store operation is atomic in the code). Log output other than the access line. UUIDs are
  compared as the text the program holds. A statement refused by the database has no effect. Cancellation
  and deadlines of contexts. The wire encoding of the generated messages and the test support
  (\<^verbatim>\<open>repository/testutil\<close>, which starts containers).
\<close>

end
